(* ===== verification/Prelude.thy ===== *)
theory Prelude
  imports Main "HOL-Library.Word" "HOL-Library.Signed_Division"
begin

text \<open>
  Shared vocabulary of the development: machine integer types, the outcome of running a piece
  of C code (it returns, it ends the process with \<open>exit\<close>, or it commits an access error), the
  sequencing of such runs, and the weakest precondition \<open>wp\<close> that the component proofs use to
  reason about them.
\<close>

section \<open>Machine integers\<close>

type_synonym byte = "8 word"
type_synonym u16 = "16 word"
type_synonym u32 = "32 word"
type_synonym u64 = "64 word"
type_synonym size_t = "64 word"

text \<open>Heap addresses of the model; address 0 is the C null pointer.\<close>

type_synonym ptr = nat

abbreviation (input) NULL :: ptr where
  "NULL \<equiv> 0"

section \<open>Fact collections\<close>

named_theorems outcome_simps \<open>equations that run straight-line code\<close>
named_theorems frame_simps \<open>what an operation leaves unchanged\<close>

section \<open>Outcomes\<close>

text \<open>
  The ways in which C code that the model runs can commit an access error. The C standard
  leaves the behaviour undefined in each case; the model stops with the error as a value.
\<close>

datatype fault =
    Null_Deref      \<comment> \<open>a null pointer is dereferenced\<close>
  | Use_After_Free  \<comment> \<open>the address does not hold an allocated object\<close>
  | Bad_Free        \<comment> \<open>\<open>free\<close> of an address that is not allocated (a double free)\<close>
  | Out_Of_Bounds   \<comment> \<open>an access outside of an array or allocated block\<close>
  | Wrong_Object    \<comment> \<open>the object at the address has another type\<close>

text \<open>
  \<open>Out_Of_Fuel\<close> is the result of a loop that was still running when its bound on the number of
  iterations was used up; it is never the result of code without loops.
\<close>

datatype ('a, 's) outcome =
    Ret 'a 's
  | Exit int 's
  | Fault fault
  | Out_Of_Fuel

primrec and_then ::
    "('a, 's) outcome \<Rightarrow> ('a \<Rightarrow> 's \<Rightarrow> ('b, 's) outcome) \<Rightarrow> ('b, 's) outcome" where
  "and_then (Ret a s) k = k a s"
| "and_then (Exit c s) k = Exit c s"
| "and_then (Fault f) k = Fault f"
| "and_then Out_Of_Fuel k = Out_Of_Fuel"

lemma and_then_assoc:
  "and_then (and_then m f) g = and_then m (\<lambda>a s. and_then (f a s) g)"
  by (cases m) simp_all

lemma and_then_eq_Ret_iff:
  "and_then m k = Ret b t \<longleftrightarrow> (\<exists>a s. m = Ret a s \<and> k a s = Ret b t)"
  by (cases m) auto

lemma and_then_eq_Exit_iff:
  "and_then m k = Exit c t \<longleftrightarrow> m = Exit c t \<or> (\<exists>a s. m = Ret a s \<and> k a s = Exit c t)"
  by (cases m) auto

lemma and_then_eq_Fault_iff:
  "and_then m k = Fault f \<longleftrightarrow> m = Fault f \<or> (\<exists>a s. m = Ret a s \<and> k a s = Fault f)"
  by (cases m) auto

lemma and_then_eq_Fuel_iff:
  "and_then m k = Out_Of_Fuel \<longleftrightarrow>
     m = Out_Of_Fuel \<or> (\<exists>a s. m = Ret a s \<and> k a s = Out_Of_Fuel)"
  by (cases m) auto

section \<open>Weakest preconditions\<close>

text \<open>
  \<open>wp m Q X\<close>: the run \<open>m\<close> commits no access error; if it returns, value and state satisfy
  \<open>Q\<close>; if it ends the process, exit code and state satisfy \<open>X\<close>.
\<close>

primrec wp :: "('a, 's) outcome \<Rightarrow> ('a \<Rightarrow> 's \<Rightarrow> bool) \<Rightarrow> (int \<Rightarrow> 's \<Rightarrow> bool) \<Rightarrow> bool" where
  "wp (Ret a s) Q X = Q a s"
| "wp (Exit c s) Q X = X c s"
| "wp (Fault f) Q X = False"
| "wp Out_Of_Fuel Q X = True"

lemma wp_and_then [simp]:
  "wp (and_then m k) Q X = wp m (\<lambda>a s. wp (k a s) Q X) X"
  by (cases m) simp_all

lemma wp_if [simp]:
  "wp (if b then m else n) Q X = (if b then wp m Q X else wp n Q X)"
  by simp

lemma wp_mono:
  assumes "wp m Q X" "\<And>a s. Q a s \<Longrightarrow> Q' a s" "\<And>c s. X c s \<Longrightarrow> X' c s"
  shows "wp m Q' X'"
  using assms by (cases m) simp_all

lemma wp_conj:
  "wp m Q X \<Longrightarrow> wp m Q' X' \<Longrightarrow> wp m (\<lambda>a s. Q a s \<and> Q' a s) (\<lambda>c s. X c s \<and> X' c s)"
  by (cases m) simp_all

lemma wp_RetD: "wp m Q X \<Longrightarrow> m = Ret a s \<Longrightarrow> Q a s"
  by simp

lemma wp_total:
  "wp m Q (\<lambda>_ _. False) \<Longrightarrow> m \<noteq> Out_Of_Fuel \<Longrightarrow> \<exists>a s. m = Ret a s \<and> Q a s"
  by (cases m) simp_all

lemma wp_not_Fault: "wp m Q X \<Longrightarrow> m \<noteq> Fault f"
  by auto

lemma wp_seq:
  assumes "wp m Q X" "\<And>a s. Q a s \<Longrightarrow> wp (k a s) R X"
  shows "wp (and_then m k) R X"
  using wp_mono [OF assms(1)] assms(2) by simp

text \<open>
  The liberal variant ignores access errors: it serves for what a run changes, once \<open>wp\<close> has
  shown that it commits none.
\<close>

primrec wlp :: "('a, 's) outcome \<Rightarrow> ('a \<Rightarrow> 's \<Rightarrow> bool) \<Rightarrow> bool" where
  "wlp (Ret a s) Q = Q a s"
| "wlp (Exit c s) Q = True"
| "wlp (Fault f) Q = True"
| "wlp Out_Of_Fuel Q = True"

lemma wlp_and_then [simp]: "wlp (and_then m k) Q = wlp m (\<lambda>a s. wlp (k a s) Q)"
  by (cases m) simp_all

lemma wlp_mono: "wlp m Q \<Longrightarrow> (\<And>a s. Q a s \<Longrightarrow> Q' a s) \<Longrightarrow> wlp m Q'"
  by (cases m) simp_all

lemma wlp_seq: "wlp m Q \<Longrightarrow> (\<And>a s. Q a s \<Longrightarrow> wlp (k a s) R) \<Longrightarrow> wlp (and_then m k) R"
  by (cases m) simp_all

lemma wlp_ifI:
  "(b \<Longrightarrow> wlp m Q) \<Longrightarrow> (\<not> b \<Longrightarrow> wlp n Q) \<Longrightarrow> wlp (if b then m else n) Q"
  by simp

lemma wp_wlp: "wp m Q X \<Longrightarrow> wlp m R \<Longrightarrow> wp m (\<lambda>a s. Q a s \<and> R a s) X"
  by (cases m) simp_all

lemma wlp_RetD: "wlp m Q \<Longrightarrow> m = Ret a s \<Longrightarrow> Q a s"
  by simp

text \<open>
  A third variant serves to show that a run ends in an access error: \<open>fails_or m Q\<close> says that \<open>m\<close>
  either commits an access error, or returns with \<open>Q\<close>.
\<close>

primrec fails_or :: "('a, 's) outcome \<Rightarrow> ('a \<Rightarrow> 's \<Rightarrow> bool) \<Rightarrow> bool" where
  "fails_or (Ret a s) Q = Q a s"
| "fails_or (Exit c s) Q = False"
| "fails_or (Fault f) Q = True"
| "fails_or Out_Of_Fuel Q = False"

lemma fails_or_and_then [simp]:
  "fails_or (and_then m k) Q = fails_or m (\<lambda>a s. fails_or (k a s) Q)"
  by (cases m) simp_all

lemma fails_or_mono: "fails_or m Q \<Longrightarrow> (\<And>a s. Q a s \<Longrightarrow> Q' a s) \<Longrightarrow> fails_or m Q'"
  by (cases m) simp_all

lemma fails_or_False: "fails_or m (\<lambda>_ _. False) \<longleftrightarrow> (\<exists>f. m = Fault f)"
  by (cases m) simp_all

text \<open>Running a list of actions one after the other, as a \<open>for\<close> loop over an array does.\<close>

primrec for_each ::
    "('e \<Rightarrow> 's \<Rightarrow> (unit, 's) outcome) \<Rightarrow> 'e list \<Rightarrow> 's \<Rightarrow> (unit, 's) outcome" where
  "for_each f [] s = Ret () s"
| "for_each f (e # es) s = and_then (f e s) (\<lambda>_. for_each f es)"

lemma for_each_append:
  "for_each f (xs @ ys) s = and_then (for_each f xs s) (\<lambda>_. for_each f ys)"
proof (induction xs arbitrary: s)
  case Nil
  show ?case by simp
next
  case (Cons x xs)
  show ?case by (cases "f x s") (simp_all add: Cons.IH)
qed

lemma wp_for_each:
  assumes "\<And>e s. e \<in> set es \<Longrightarrow> I s \<Longrightarrow> wp (f e s) (\<lambda>_. I) X" and "I s"
  shows "wp (for_each f es s) (\<lambda>_. I) X"
  using assms
proof (induction es arbitrary: s)
  case Nil
  then show ?case by simp
next
  case (Cons e es)
  have "wp (f e s) (\<lambda>_. I) X" using Cons.prems by simp
  then show ?case
    using Cons.IH Cons.prems by (auto intro: wp_mono)
qed

lemma wlp_for_each:
  assumes "\<And>e s. e \<in> set es \<Longrightarrow> I s \<Longrightarrow> wlp (f e s) (\<lambda>_. I)" and "I s"
  shows "wlp (for_each f es s) (\<lambda>_. I)"
  using assms
proof (induction es arbitrary: s)
  case Nil
  then show ?case by simp
next
  case (Cons e es)
  then have "wlp (f e s) (\<lambda>_. I)" by simp
  then show ?case
    using Cons.IH Cons.prems by (auto intro: wlp_mono)
qed

lemma fails_or_for_each:
  assumes "\<And>e s. e \<in> set es \<Longrightarrow> I s \<Longrightarrow> fails_or (f e s) (\<lambda>_. I)" and "I s"
  shows "fails_or (for_each f es s) (\<lambda>_. I)"
  using assms
proof (induction es arbitrary: s)
  case Nil
  then show ?case by simp
next
  case (Cons e es)
  then have "fails_or (f e s) (\<lambda>_. I)" by simp
  then show ?case
    using Cons.IH Cons.prems by (auto intro: fails_or_mono)
qed

lemma for_each_fuel: "(\<And>e s. f e s \<noteq> Out_Of_Fuel) \<Longrightarrow> for_each f es s \<noteq> Out_Of_Fuel"
  by (induction es arbitrary: s) (auto simp: and_then_eq_Fuel_iff)

end
