(* ===== verification/Status.thy ===== *)
theory Status
  imports Prelude
begin

text \<open>
  The status codes of \<open>src/util/status.h\<close> and their texts (\<open>src/util/status.c\<close>). A C enum
  value is an \<open>int\<close>; the model keeps the enumerators as a datatype and gives the functions
  the integer they really receive, so that values outside of the enumeration are covered.
\<close>

section \<open>The enumeration\<close>

datatype status_t =
    STATUS_OK
  | STATUS_PENDING
  | STATUS_TERMINATE
  | STATUS_WOULD_BLOCK
  | STATUS_NOT_FOUND
  | STATUS_NOT_RECOGNIZED
  | STATUS_NOT_SUPPORTED
  | STATUS_BAD_INPUT
  | STATUS_ABORTED
  | STATUS_BUSY
  | STATUS_PARTIAL
  | STATUS_OUT_OF_BOUNDS
  | STATUS_TIMEOUT
  | STATUS_NULL_PTR
  | STATUS_NO_RESOURCE
  | STATUS_SETUP_FAILURE
  | STATUS_INTERNAL_FAILURE
  | STATUS_EXTERNAL_FAILURE
  | STATUS_NOT_ALLOWED

definition all_status :: "status_t list" where
  "all_status = [STATUS_OK, STATUS_PENDING, STATUS_TERMINATE, STATUS_WOULD_BLOCK,
     STATUS_NOT_FOUND, STATUS_NOT_RECOGNIZED, STATUS_NOT_SUPPORTED, STATUS_BAD_INPUT,
     STATUS_ABORTED, STATUS_BUSY, STATUS_PARTIAL, STATUS_OUT_OF_BOUNDS, STATUS_TIMEOUT,
     STATUS_NULL_PTR, STATUS_NO_RESOURCE, STATUS_SETUP_FAILURE, STATUS_INTERNAL_FAILURE,
     STATUS_EXTERNAL_FAILURE, STATUS_NOT_ALLOWED]"

text \<open>The value the compiler gives each enumerator: the first is 0, each next one is one more.\<close>

fun status_code :: "status_t \<Rightarrow> int" where
  "status_code STATUS_OK = 0"
| "status_code STATUS_PENDING = 1"
| "status_code STATUS_TERMINATE = 2"
| "status_code STATUS_WOULD_BLOCK = 3"
| "status_code STATUS_NOT_FOUND = 4"
| "status_code STATUS_NOT_RECOGNIZED = 5"
| "status_code STATUS_NOT_SUPPORTED = 6"
| "status_code STATUS_BAD_INPUT = 7"
| "status_code STATUS_ABORTED = 8"
| "status_code STATUS_BUSY = 9"
| "status_code STATUS_PARTIAL = 10"
| "status_code STATUS_OUT_OF_BOUNDS = 11"
| "status_code STATUS_TIMEOUT = 12"
| "status_code STATUS_NULL_PTR = 13"
| "status_code STATUS_NO_RESOURCE = 14"
| "status_code STATUS_SETUP_FAILURE = 15"
| "status_code STATUS_INTERNAL_FAILURE = 16"
| "status_code STATUS_EXTERNAL_FAILURE = 17"
| "status_code STATUS_NOT_ALLOWED = 18"

definition status_of_code :: "int \<Rightarrow> status_t option" where
  "status_of_code c = find (\<lambda>st. status_code st = c) all_status"

section \<open>Classification and text\<close>

definition status_is_warning :: "int \<Rightarrow> bool" where
  "status_is_warning status = (if status \<ge> 1000 \<and> status < 2000 then True else False)"

definition status_is_error :: "int \<Rightarrow> bool" where
  "status_is_error status = (if status \<ge> 2000 then True else False)"

fun status_text :: "status_t \<Rightarrow> string" where
  "status_text STATUS_OK = ''STATUS_OK.  No errors.''"
| "status_text STATUS_PENDING = ''STATUS_PENDING. Waiting for an operation to complete.''"
| "status_text STATUS_TERMINATE = ''STATUS_TERMINATE.  Shut down or shutting down.''"
| "status_text STATUS_WOULD_BLOCK =
     ''STATUS_WOULD_BLOCK. The operation would block if it was not asynchronous.''"
| "status_text STATUS_NOT_FOUND = ''STATUS_NOT_FOUND. The requested item was not found.''"
| "status_text STATUS_NOT_RECOGNIZED =
     ''STATUS_NOT_RECOGNIZED. The requested operation was not recognized.''"
| "status_text STATUS_NOT_SUPPORTED =
     ''STATUS_NOT_SUPPORTED.  The requested operation was recognized but not supported.''"
| "status_text STATUS_BAD_INPUT =
     ''STATUS_BAD_INPUT.  The value of a parameter is not supported or usable.''"
| "status_text STATUS_ABORTED = ''STATUS_ABORTED.  The operation was aborted externally.''"
| "status_text STATUS_BUSY = ''STATUS_BUSY. An operation is already underway.''"
| "status_text STATUS_TIMEOUT =
     ''STATUS_TIMEOUT. A timeout was reached waiting for an operation to complete.''"
| "status_text STATUS_PARTIAL = ''STATUS_PARTIAL. Incomplete data was found.''"
| "status_text STATUS_OUT_OF_BOUNDS =
     ''STATUS_OUT_OF_BOUNDS. Attempt to access data out of bounds.''"
| "status_text STATUS_NULL_PTR =
     ''STATUS_NULL_PTR.  One or more internal arguments were NULL.''"
| "status_text STATUS_NO_RESOURCE = ''STATUS_NO_RESOURCE. Insufficient or bad resource.''"
| "status_text STATUS_SETUP_FAILURE =
     ''STATUS_SETUP_FAILURE. Creation or configuration of a resource failed.''"
| "status_text STATUS_INTERNAL_FAILURE =
     ''STATUS_INTERNAL_FAILURE. Something went wrong inside the code.''"
| "status_text STATUS_EXTERNAL_FAILURE =
     ''STATUS_EXTERNAL_FAILURE. A failure was reported outside the code.''"
| "status_text STATUS_NOT_ALLOWED = ''STATUS_NOT_ALLOWED. Operation is not allowed.''"

definition status_to_str :: "int \<Rightarrow> string" where
  "status_to_str status =
     (case status_of_code status of
        Some st \<Rightarrow> status_text st
      | None \<Rightarrow> ''Unknown status code!'')"

section \<open>Lemmas\<close>

lemma status_code_bounds: "0 \<le> status_code st \<and> status_code st \<le> 18"
  by (cases st) simp_all

lemma status_code_inj: "status_code a = status_code b \<longleftrightarrow> a = b"
  by (cases a) (cases b; simp)+

text \<open>The order of the enumerators is that of their codes.\<close>

instantiation status_t :: linorder
begin

definition less_eq_status_t :: "status_t \<Rightarrow> status_t \<Rightarrow> bool" where
  "less_eq_status_t a b \<longleftrightarrow> status_code a \<le> status_code b"

definition less_status_t :: "status_t \<Rightarrow> status_t \<Rightarrow> bool" where
  "less_status_t a b \<longleftrightarrow> status_code a < status_code b"

instance
  by standard (auto simp: less_eq_status_t_def less_status_t_def status_code_inj)

end

lemma all_status_sorted: "sorted all_status" "distinct all_status"
  by (simp_all add: all_status_def less_eq_status_t_def)

lemma status_t_enumerated: "st \<in> set all_status"
  by (cases st) (simp_all add: all_status_def)

lemma status_of_code_code [simp]: "status_of_code (status_code st) = Some st"
  by (cases st) (simp_all add: status_of_code_def all_status_def)

lemma status_of_code_SomeD: "status_of_code c = Some st \<Longrightarrow> status_code st = c"
  by (auto simp: status_of_code_def find_Some_iff)

lemma status_codes: "map status_code all_status = [0..18]"
  by (simp add: all_status_def upto.simps)

lemma status_of_code_None_iff: "status_of_code c = None \<longleftrightarrow> c < 0 \<or> 18 < c"
proof -
  have "status_of_code c = None \<longleftrightarrow> c \<notin> set (map status_code all_status)"
    by (auto simp: status_of_code_def find_None_iff)
  then show ?thesis by (auto simp: status_codes)
qed

lemma status_texts_distinct: "distinct (map status_text all_status)"
  by (simp add: all_status_def)

lemma status_text_inj: "status_text a = status_text b \<longleftrightarrow> a = b"
  using status_texts_distinct status_t_enumerated [of a] status_t_enumerated [of b]
  by (auto simp: distinct_map dest: inj_onD)

lemma status_text_known: "status_text a \<noteq> ''Unknown status code!''"
  by (cases a) simp_all

lemma status_to_str_unknown_iff:
  "status_to_str c = ''Unknown status code!'' \<longleftrightarrow> status_of_code c = None"
  by (simp add: status_to_str_def status_text_known split: option.split)

lemma status_of_code_inj:
  "status_of_code a = Some x \<Longrightarrow> status_of_code b = Some y \<Longrightarrow> a = b \<longleftrightarrow> x = y"
  by (auto dest!: status_of_code_SomeD simp: status_code_inj)

text \<open>
  The text of a status identifies it: two codes get the same text exactly when they
  are the same code or both lie outside of the enumeration.
\<close>

theorem status_to_str_identifies:
  "status_to_str a = status_to_str b \<longleftrightarrow>
     a = b \<or> ((a < 0 \<or> 18 < a) \<and> (b < 0 \<or> 18 < b))"
proof (cases "status_of_code a = None \<or> status_of_code b = None")
  case True
  then have "status_to_str a = status_to_str b \<longleftrightarrow>
      status_of_code a = None \<and> status_of_code b = None"
    by (auto simp: status_to_str_unknown_iff [symmetric])
  with True show ?thesis by (auto simp: status_of_code_None_iff)
next
  case False
  then obtain x y where x: "status_of_code a = Some x" and y: "status_of_code b = Some y"
    by auto
  then have "status_to_str a = status_to_str b \<longleftrightarrow> x = y"
    by (simp add: status_to_str_def status_text_inj)
  then show ?thesis
    using False status_of_code_inj [OF x y] by (auto simp: status_of_code_None_iff)
qed

text \<open>
  No status of the enumeration is ever classified as a warning or as an error: the
  enumerators are numbered consecutively from 0, the two classification functions look at
  1000 to 1999 and from 2000 on.
\<close>

theorem status_never_classified:
  "\<not> status_is_warning (status_code st) \<and> \<not> status_is_error (status_code st)"
  using status_code_bounds [of st] by (simp add: status_is_warning_def status_is_error_def)

end
