(* ===== verification/Time_Utils.thy ===== *)
theory Time_Utils
  imports Prelude
begin

unbundle bit_operations_syntax

text \<open>
  \<open>src/util/time_utils.c\<close> and \<open>src/util/time_utils.h\<close>: sleeping and reading the clock, in the
  POSIX and in the Windows variant of the file, and the two inline helpers \<open>ptr_before\<close> and
  \<open>is_hex\<close>. The operating system's \<open>select\<close>, \<open>gettimeofday\<close> and
  \<open>GetSystemTimeAsFileTime\<close> are arguments: what they are given and what they return.
\<close>

section \<open>Sleeping\<close>

record timeval =
  tv_sec :: int
  tv_usec :: int

text \<open>C divides towards zero: \<open>sdiv\<close> and \<open>smod\<close>.\<close>

definition sleep_timeval :: "int \<Rightarrow> timeval" where
  "sleep_timeval ms = \<lparr>tv_sec = ms sdiv 1000, tv_usec = (ms smod 1000) * 1000\<rparr>"

definition util_sleep_ms :: "(timeval \<Rightarrow> int) \<Rightarrow> int \<Rightarrow> int" where
  "util_sleep_ms select_timeout ms = select_timeout (sleep_timeval ms)"

text \<open>
  On Windows \<open>Sleep\<close> takes an unsigned 32-bit number, to which the argument is converted.
\<close>

definition util_sleep_ms_win :: "int \<Rightarrow> u32 \<times> int" where
  "util_sleep_ms_win ms = (word_of_int ms, 1)"

definition timeval_valid :: "timeval \<Rightarrow> bool" where
  "timeval_valid tv \<longleftrightarrow> 0 \<le> tv_sec tv \<and> 0 \<le> tv_usec tv \<and> tv_usec tv < 1000000"

definition timeval_us :: "timeval \<Rightarrow> int" where
  "timeval_us tv = tv_sec tv * 1000000 + tv_usec tv"

lemma sdiv_nonneg: "0 \<le> a \<Longrightarrow> 0 < b \<Longrightarrow> a sdiv b = a div b" for a b :: int
  by (cases "a = 0") (simp_all add: signed_divide_int_def)

lemma smod_nonneg: "0 \<le> a \<Longrightarrow> 0 < b \<Longrightarrow> a smod b = a mod b" for a b :: int
  by (cases "a = 0") (simp_all add: signed_modulo_int_def)

lemma sleep_timeval_us: "timeval_us (sleep_timeval ms) = ms * 1000"
proof -
  have "ms sdiv 1000 * 1000 + ms smod 1000 = ms" by (rule sdiv_mult_smod_eq)
  then show ?thesis
    unfolding timeval_us_def sleep_timeval_def timeval.simps by linarith
qed

lemma sleep_timeval_valid_iff: "timeval_valid (sleep_timeval ms) \<longleftrightarrow> 0 \<le> ms"
proof (cases "0 \<le> ms")
  case True
  then have "ms sdiv 1000 = ms div 1000" "ms smod 1000 = ms mod 1000"
    by (simp_all add: sdiv_nonneg smod_nonneg)
  then show ?thesis
    using True pos_mod_bound [of 1000 ms]
    by (simp add: timeval_valid_def sleep_timeval_def pos_imp_zdiv_nonneg_iff)
next
  case False
  then have "\<not> timeval_valid (sleep_timeval ms)"
    using sleep_timeval_us [of ms] by (auto simp: timeval_valid_def timeval_us_def)
  with False show ?thesis by simp
qed

text \<open>
  The timeout handed to \<open>select\<close> is exactly the requested number of milliseconds,
  and it is a normalised time value (which \<open>select\<close> accepts) exactly for the requests that
  are not negative.
\<close>

theorem util_sleep_ms_exact:
  "\<exists>tv. (\<forall>sel. util_sleep_ms sel ms = sel tv) \<and> timeval_us tv = ms * 1000 \<and>
     (timeval_valid tv \<longleftrightarrow> 0 \<le> ms)"
  using sleep_timeval_us sleep_timeval_valid_iff by (auto simp: util_sleep_ms_def)

section \<open>The clock\<close>

definition util_time_ms :: "timeval \<Rightarrow> u64" where
  "util_time_ms now = word_of_int (tv_sec now) * 1000 + word_of_int (tv_usec now sdiv 1000)"

record filetime =
  dwLowDateTime :: u32
  dwHighDateTime :: u32

definition util_time_ms_win :: "filetime \<Rightarrow> u64" where
  "util_time_ms_win ft =
     (let res = (ucast (dwLowDateTime ft) :: u64) + push_bit 32 (ucast (dwHighDateTime ft))
      in word_of_int (sint res sdiv 10000))"

definition filetime_100ns :: "filetime \<Rightarrow> int" where
  "filetime_100ns ft = uint (dwHighDateTime ft) * 2 ^ 32 + uint (dwLowDateTime ft)"

lemma sint_word_of_int_64:
  "- (2 ^ 63) \<le> k \<Longrightarrow> k < 2 ^ 63 \<Longrightarrow> sint (word_of_int k :: u64) = k"
  by (simp add: sint_sbintrunc' signed_take_bit_int_eq_self)

lemma util_time_ms_eq:
  assumes "timeval_valid now" and "tv_sec now < 2 ^ 53"
  shows "sint (util_time_ms now) = timeval_us now div 1000"
proof -
  let ?ms = "tv_sec now * 1000 + tv_usec now div 1000"
  have us: "0 \<le> tv_usec now" "tv_usec now < 1000000" "0 \<le> tv_sec now"
    using assms by (auto simp: timeval_valid_def)
  then have "util_time_ms now = word_of_int ?ms"
    by (simp add: util_time_ms_def sdiv_nonneg)
  moreover have "sint (word_of_int ?ms :: u64) = ?ms"
    using us assms by (intro sint_word_of_int_64) auto
  ultimately show ?thesis by (simp add: timeval_us_def)
qed

text \<open>
  On POSIX the clock is the number of whole milliseconds since the epoch, for every
  normalised time of the next 285 million years: nothing wraps around.
\<close>

theorem util_time_ms_floor:
  assumes "timeval_valid now" and "tv_sec now < 2 ^ 53"
  shows "sint (util_time_ms now) = timeval_us now div 1000"
  using assms by (rule util_time_ms_eq)

theorem util_time_ms_floor_witness:
  "sint (util_time_ms \<lparr>tv_sec = 1700000000, tv_usec = 999999\<rparr>) = 1700000000999"
  using util_time_ms_floor [of "\<lparr>tv_sec = 1700000000, tv_usec = 999999\<rparr>"]
  by (simp add: timeval_valid_def timeval_us_def)

lemma filetime_word:
  "(ucast (dwLowDateTime ft) :: u64) + push_bit 32 (ucast (dwHighDateTime ft)) =
     word_of_int (filetime_100ns ft)"
  by (simp add: filetime_100ns_def push_bit_eq_mult)

lemma util_time_ms_win_floor:
  assumes "uint (dwHighDateTime ft) < 2 ^ 31"
  shows "sint (util_time_ms_win ft) = filetime_100ns ft div 10000"
proof -
  have b: "0 \<le> filetime_100ns ft" "filetime_100ns ft < 2 ^ 63"
    using assms uint_lt2p [of "dwLowDateTime ft"]
    by (auto simp: filetime_100ns_def)
  then have s: "sint (word_of_int (filetime_100ns ft) :: u64) = filetime_100ns ft"
    by (intro sint_word_of_int_64) auto
  have d: "filetime_100ns ft sdiv 10000 = filetime_100ns ft div 10000"
    using b by (simp add: sdiv_nonneg)
  have "sint (word_of_int (filetime_100ns ft div 10000) :: u64) = filetime_100ns ft div 10000"
    using b by (intro sint_word_of_int_64) auto
  then show ?thesis
    by (simp add: util_time_ms_win_def filetime_word s d)
qed

text \<open>
  The two variants of the clock disagree about the epoch: for the Windows time of
  any instant that lies \<open>us\<close> microseconds after the Unix epoch, the Windows variant is ahead of
  the POSIX one by the 11644473600 seconds between 1601 and 1970.
\<close>

theorem util_time_ms_epochs_differ:
  assumes "timeval_valid now" and "tv_sec now < 2 ^ 33"
    and "filetime_100ns ft = timeval_us now * 10 + 116444736000000000"
  shows "sint (util_time_ms_win ft) = sint (util_time_ms now) + 11644473600000"
proof -
  have us: "0 \<le> tv_usec now" "tv_usec now < 1000000" "0 \<le> tv_sec now"
    using assms by (auto simp: timeval_valid_def)
  have "uint (dwHighDateTime ft) * 2 ^ 32 \<le> filetime_100ns ft"
    by (simp add: filetime_100ns_def)
  also have "\<dots> < 2 ^ 63"
    using assms(2,3) us by (simp add: timeval_us_def)
  finally have "sint (util_time_ms_win ft) = filetime_100ns ft div 10000"
    by (intro util_time_ms_win_floor) simp
  moreover have "sint (util_time_ms now) = timeval_us now div 1000"
    using assms(1,2) by (intro util_time_ms_eq) auto
  ultimately show ?thesis
    using assms(3) by simp
qed

text \<open>2024-01-01 00:00:00 UTC.\<close>

theorem util_time_ms_epochs_differ_witness:
  "sint (util_time_ms_win \<lparr>dwLowDateTime = word_of_int (133485408000000000 mod 2 ^ 32),
       dwHighDateTime = word_of_int (133485408000000000 div 2 ^ 32)\<rparr>) =
     sint (util_time_ms \<lparr>tv_sec = 1704067200, tv_usec = 0\<rparr>) + 11644473600000"
  using util_time_ms_epochs_differ [of "\<lparr>tv_sec = 1704067200, tv_usec = 0\<rparr>"
      "\<lparr>dwLowDateTime = word_of_int (133485408000000000 mod 2 ^ 32),
       dwHighDateTime = word_of_int (133485408000000000 div 2 ^ 32)\<rparr>"]
  by (simp add: timeval_valid_def timeval_us_def filetime_100ns_def)

section \<open>Pointers\<close>

text \<open>Pointers are compared as \<open>intptr_t\<close>, which is signed.\<close>

definition ptr_before :: "u64 \<Rightarrow> u64 \<Rightarrow> bool" where
  "ptr_before p e =
     (if p \<noteq> 0 \<and> e \<noteq> 0 then (if sint p < sint e then True else False) else False)"

lemma ptr_before_irrefl: "\<not> ptr_before p p"
  by (simp add: ptr_before_def)

lemma ptr_before_trans: "ptr_before p q \<Longrightarrow> ptr_before q r \<Longrightarrow> ptr_before p r"
  by (auto simp: ptr_before_def split: if_splits)

lemma sint_user_ptr: "uint p < 2 ^ 63 \<Longrightarrow> sint p = uint p" for p :: u64
  using sint_word_of_int_64 [of "uint p"] uint_ge_0 [of p] by simp

text \<open>
  In the lower half of the address space, where user memory lies, the comparison is the order
  of the addresses.
\<close>

lemma ptr_before_user:
  assumes "uint p < 2 ^ 63" and "uint e < 2 ^ 63" and "p \<noteq> 0"
  shows "ptr_before p e \<longleftrightarrow> uint p < uint e"
  using assms by (auto simp: ptr_before_def sint_user_ptr)

section \<open>Hexadecimal digits\<close>

text \<open>The argument is a \<open>char\<close>, read as a signed byte.\<close>

definition is_hex :: "byte \<Rightarrow> bool" where
  "is_hex c =
     (if sint c \<ge> 48 \<and> sint c \<le> 57 then True
      else if (sint c \<ge> 97 \<and> sint c \<le> 102) \<or> (sint c \<ge> 65 \<and> sint c \<le> 70) then True
      else False)"

definition hex_digits :: string where
  "hex_digits = ''0123456789abcdefABCDEF''"

lemma hex_digits_codes:
  "map of_char hex_digits = (map word_of_int ([48..57] @ [97..102] @ [65..70]) :: byte list)"
  by (simp add: hex_digits_def upto.simps)

text \<open>
  \<open>is_hex\<close> accepts exactly the hexadecimal digits, of either case.
\<close>

theorem is_hex_correct: "is_hex c \<longleftrightarrow> c \<in> set (map of_char hex_digits)"
proof
  assume "is_hex c"
  then have "sint c \<in> set ([48..57] @ [97..102] @ [65..70])"
    unfolding is_hex_def set_append set_upto Un_iff atLeastAtMost_iff by presburger
  moreover have "c = word_of_int (sint c)" by simp
  ultimately show "c \<in> set (map of_char hex_digits)"
    unfolding hex_digits_codes set_map by blast
next
  assume "c \<in> set (map of_char hex_digits)"
  then show "is_hex c"
    unfolding hex_digits_def is_hex_def by auto
qed

end
