(* ===== verification/Buf.thy ===== *)
theory Buf
  imports Prelude "HOL-Library.Monad_Syntax"
begin

unbundle bit_operations_syntax

text \<open>
  The little-endian packing and unpacking helpers of \<open>src/util/buf.h\<close>, statement by statement:
  a buffer is the list of the bytes that may be accessed, and an access outside of it has no
  result (\<open>None\<close>). The locale \<open>le_codec\<close> is the contract of a pair of such helpers; what their
  callers rely on is proved inside it once and for all three widths.
\<close>

section \<open>The records\<close>

record eip_header =
  encap_command :: u16
  encap_length :: u16
  encap_session_handle :: u32
  encap_status :: u32
  encap_sender_context :: u64
  encap_options :: u32

text \<open>A buffer with its length; the address is null or points to \<open>len\<close> bytes.\<close>

record buf_t =
  buf_data :: ptr
  buf_len :: size_t

section \<open>Array accesses\<close>

definition put_byte :: "byte list \<Rightarrow> nat \<Rightarrow> byte \<Rightarrow> byte list option" where
  "put_byte buf i b = (if i < length buf then Some (buf[i := b]) else None)"

definition get_byte :: "byte list \<Rightarrow> nat \<Rightarrow> byte option" where
  "get_byte buf i = (if i < length buf then Some (buf ! i) else None)"

section \<open>The helpers\<close>

definition encode_uint16_le :: "byte list \<Rightarrow> u16 \<Rightarrow> byte list option" where
  "encode_uint16_le buf value = do {
     buf \<leftarrow> put_byte buf 0 (ucast (value AND 0xFF));
     put_byte buf 1 (ucast (drop_bit 8 value AND 0xFF))
   }"

definition decode_uint16_le :: "byte list \<Rightarrow> u16 option" where
  "decode_uint16_le buf = do {
     b0 \<leftarrow> get_byte buf 0;
     b1 \<leftarrow> get_byte buf 1;
     Some (ucast b0 OR push_bit 8 (ucast b1))
   }"

definition encode_uint32_le :: "byte list \<Rightarrow> u32 \<Rightarrow> byte list option" where
  "encode_uint32_le buf value = do {
     buf \<leftarrow> put_byte buf 0 (ucast (value AND 0xFF));
     buf \<leftarrow> put_byte buf 1 (ucast (drop_bit 8 value AND 0xFF));
     buf \<leftarrow> put_byte buf 2 (ucast (drop_bit 16 value AND 0xFF));
     put_byte buf 3 (ucast (drop_bit 24 value AND 0xFF))
   }"

definition decode_uint32_le :: "byte list \<Rightarrow> u32 option" where
  "decode_uint32_le buf = do {
     b0 \<leftarrow> get_byte buf 0;
     b1 \<leftarrow> get_byte buf 1;
     b2 \<leftarrow> get_byte buf 2;
     b3 \<leftarrow> get_byte buf 3;
     Some (ucast b0 OR push_bit 8 (ucast b1) OR push_bit 16 (ucast b2) OR
       push_bit 24 (ucast b3))
   }"

definition encode_uint64_le :: "byte list \<Rightarrow> u64 \<Rightarrow> byte list option" where
  "encode_uint64_le buf value = do {
     buf \<leftarrow> put_byte buf 0 (ucast (value AND 0xFF));
     buf \<leftarrow> put_byte buf 1 (ucast (drop_bit 8 value AND 0xFF));
     buf \<leftarrow> put_byte buf 2 (ucast (drop_bit 16 value AND 0xFF));
     buf \<leftarrow> put_byte buf 3 (ucast (drop_bit 24 value AND 0xFF));
     buf \<leftarrow> put_byte buf 4 (ucast (drop_bit 32 value AND 0xFF));
     buf \<leftarrow> put_byte buf 5 (ucast (drop_bit 40 value AND 0xFF));
     buf \<leftarrow> put_byte buf 6 (ucast (drop_bit 48 value AND 0xFF));
     put_byte buf 7 (ucast (drop_bit 56 value AND 0xFF))
   }"

definition decode_uint64_le :: "byte list \<Rightarrow> u64 option" where
  "decode_uint64_le buf = do {
     b0 \<leftarrow> get_byte buf 0;
     b1 \<leftarrow> get_byte buf 1;
     b2 \<leftarrow> get_byte buf 2;
     b3 \<leftarrow> get_byte buf 3;
     b4 \<leftarrow> get_byte buf 4;
     b5 \<leftarrow> get_byte buf 5;
     b6 \<leftarrow> get_byte buf 6;
     b7 \<leftarrow> get_byte buf 7;
     Some (ucast b0 OR push_bit 8 (ucast b1) OR push_bit 16 (ucast b2) OR
       push_bit 24 (ucast b3) OR push_bit 32 (ucast b4) OR push_bit 40 (ucast b5) OR
       push_bit 48 (ucast b6) OR push_bit 56 (ucast b7))
   }"

section \<open>The reference: little-endian digits\<close>

text \<open>The \<open>n\<close> low bytes of a number, least significant first, and the number they stand for.\<close>

primrec le_bytes :: "nat \<Rightarrow> nat \<Rightarrow> byte list" where
  "le_bytes 0 x = []"
| "le_bytes (Suc n) x = of_nat x # le_bytes n (x div 256)"

primrec le_value :: "byte list \<Rightarrow> nat" where
  "le_value [] = 0"
| "le_value (b # bs) = unat b + 256 * le_value bs"

lemma le_bytes_numeral [simp]:
  "le_bytes (numeral k) x = of_nat x # le_bytes (pred_numeral k) (x div 256)"
  by (simp only: numeral_eq_Suc le_bytes.simps)

lemma length_le_bytes [simp]: "length (le_bytes n x) = n"
  by (induction n arbitrary: x) simp_all

lemma le_value_bound: "le_value bs < 256 ^ length bs"
proof (induction bs)
  case (Cons b bs)
  have "unat b < 256" using unsigned_less [of b, where ?'a = nat] by simp
  with Cons show ?case by simp
qed simp

lemma le_value_le_bytes: "le_value (le_bytes n x) = x mod 256 ^ n"
proof (induction n arbitrary: x)
  case (Suc n)
  then show ?case by (simp add: unat_of_nat mod_mult2_eq)
qed simp

lemma le_bytes_le_value: "le_bytes (length bs) (le_value bs) = bs"
proof (induction bs)
  case (Cons b bs)
  have "unat b < 256" using unsigned_less [of b, where ?'a = nat] by simp
  then have "(unat b + 256 * le_value bs) div 256 = le_value bs" by simp
  moreover have "(of_nat (unat b + 256 * le_value bs) :: byte) = b"
    unfolding word_unat_eq_iff unat_of_nat using \<open>unat b < 256\<close> by simp
  ultimately show ?case using Cons by simp
qed simp

lemma le_bytes_inj:
  "x < 256 ^ n \<Longrightarrow> y < 256 ^ n \<Longrightarrow> le_bytes n x = le_bytes n y \<longleftrightarrow> x = y"
  by (metis le_value_le_bytes mod_less)

section \<open>The helpers compute the reference\<close>

lemma byte_mask: "(255 :: 'a::len word) = mask 8"
  by (simp add: mask_eq_exp_minus_1)

lemma ucast_low_byte: "(ucast (w AND 255) :: byte) = of_nat (unat w)"
  for w :: "'a::len word"
proof -
  have "(ucast (w AND 255) :: byte) = ucast w"
    unfolding byte_mask by (rule bit_word_eqI) (auto simp: bit_simps dest: bit_imp_le_length)
  then show ?thesis by simp
qed

lemma unat_drop_bit_div: "unat (drop_bit k w) = unat w div 2 ^ k"
  for w :: "'a::len word"
  by (subst unat_drop_bit_eq) (rule drop_bit_eq_div)

lemma or_byte_eq_add: "(ucast b OR push_bit 8 w :: 'a::len word) = of_nat (unat b) + 256 * w"
  for b :: byte
proof -
  have "(ucast b :: 'a word) AND push_bit 8 w = 0"
    by (rule bit_word_eqI) (auto simp: bit_simps dest: bit_imp_le_length)
  then have "(ucast b OR push_bit 8 w) = (ucast b :: 'a word) + push_bit 8 w"
    by (simp add: disjunctive_add_eq_or)
  then show ?thesis by (simp add: push_bit_eq_mult)
qed

primrec le_word :: "byte list \<Rightarrow> 'a::len word" where
  "le_word [] = 0"
| "le_word (b # bs) = ucast b OR push_bit 8 (le_word bs)"

lemma le_word_eq: "le_word bs = of_nat (le_value bs)"
proof (induction bs)
  case (Cons b bs)
  then show ?case by (simp add: or_byte_eq_add del: of_nat_unat)
qed simp

lemmas byte_array_defs = put_byte_def get_byte_def
lemmas byte_digits = ucast_low_byte unat_drop_bit_div div_mult2_eq [symmetric]

text \<open>A list with at least \<open>n\<close> elements, for a numeral \<open>n\<close>, written out.\<close>

lemmas le_split = numeral_eq_Suc Suc_le_length_iff

lemma encode_uint16_le_eq:
  "encode_uint16_le buf v =
     (if length buf < 2 then None else Some (le_bytes 2 (unat v) @ drop 2 buf))"
proof (cases "length buf < 2")
  case True
  then show ?thesis by (auto simp: encode_uint16_le_def byte_array_defs)
next
  case False
  then have "2 \<le> length buf" by simp
  then obtain b0 b1 r where "buf = b0 # b1 # r" by (auto simp: le_split)
  then show ?thesis
    by (simp add: encode_uint16_le_def byte_array_defs byte_digits del: of_nat_unat)
qed

lemma decode_uint16_le_eq:
  "decode_uint16_le buf =
     (if length buf < 2 then None else Some (of_nat (le_value (take 2 buf))))"
proof (cases "length buf < 2")
  case True
  then show ?thesis by (auto simp: decode_uint16_le_def byte_array_defs)
next
  case False
  then have "2 \<le> length buf" by simp
  then obtain b0 b1 r where buf: "buf = b0 # b1 # r"
    by (auto simp: le_split)
  then have "decode_uint16_le buf = Some (le_word [b0, b1])"
    by (simp add: decode_uint16_le_def byte_array_defs)
  then show ?thesis by (simp add: buf le_word_eq)
qed

lemma encode_uint32_le_eq:
  "encode_uint32_le buf v =
     (if length buf < 4 then None else Some (le_bytes 4 (unat v) @ drop 4 buf))"
proof (cases "length buf < 4")
  case True
  then show ?thesis by (auto simp: encode_uint32_le_def byte_array_defs)
next
  case False
  then have "4 \<le> length buf" by simp
  then obtain b0 b1 b2 b3 r where "buf = b0 # b1 # b2 # b3 # r" by (auto simp: le_split)
  then show ?thesis
    by (simp add: encode_uint32_le_def byte_array_defs byte_digits del: of_nat_unat)
qed

lemma decode_uint32_le_eq:
  "decode_uint32_le buf =
     (if length buf < 4 then None else Some (of_nat (le_value (take 4 buf))))"
proof (cases "length buf < 4")
  case True
  then show ?thesis by (auto simp: decode_uint32_le_def byte_array_defs)
next
  case False
  then have "4 \<le> length buf" by simp
  then obtain b0 b1 b2 b3 r where buf: "buf = b0 # b1 # b2 # b3 # r"
    by (auto simp: le_split)
  then have "decode_uint32_le buf = Some (le_word [b0, b1, b2, b3])"
    by (simp add: decode_uint32_le_def byte_array_defs)
  then show ?thesis by (simp add: buf le_word_eq)
qed

lemma encode_uint64_le_eq:
  "encode_uint64_le buf v =
     (if length buf < 8 then None else Some (le_bytes 8 (unat v) @ drop 8 buf))"
proof (cases "length buf < 8")
  case True
  then show ?thesis by (auto simp: encode_uint64_le_def byte_array_defs)
next
  case False
  then have "8 \<le> length buf" by simp
  then obtain b0 b1 b2 b3 b4 b5 b6 b7 r where "buf = b0 # b1 # b2 # b3 # b4 # b5 # b6 # b7 # r" by (auto simp: le_split)
  then show ?thesis
    by (simp add: encode_uint64_le_def byte_array_defs byte_digits del: of_nat_unat)
qed

lemma decode_uint64_le_eq:
  "decode_uint64_le buf =
     (if length buf < 8 then None else Some (of_nat (le_value (take 8 buf))))"
proof (cases "length buf < 8")
  case True
  then show ?thesis by (auto simp: decode_uint64_le_def byte_array_defs)
next
  case False
  then have "8 \<le> length buf" by simp
  then obtain b0 b1 b2 b3 b4 b5 b6 b7 r where buf: "buf = b0 # b1 # b2 # b3 # b4 # b5 # b6 # b7 # r"
    by (auto simp: le_split)
  then have "decode_uint64_le buf = Some (le_word [b0, b1, b2, b3, b4, b5, b6, b7])"
    by (simp add: decode_uint64_le_def byte_array_defs)
  then show ?thesis by (simp add: buf le_word_eq)
qed

section \<open>The contract of a codec, and what its users get\<close>

locale le_codec =
  fixes n :: nat
    and enc :: "byte list \<Rightarrow> 'a::len word \<Rightarrow> byte list option"
    and dec :: "byte list \<Rightarrow> 'a word option"
  assumes width: "2 ^ LENGTH('a) = (256 ^ n :: nat)"
    and enc_eq: "enc buf v =
      (if length buf < n then None else Some (le_bytes n (unat v) @ drop n buf))"
    and dec_eq: "dec buf =
      (if length buf < n then None else Some (of_nat (le_value (take n buf))))"
begin

lemma enc_None_iff: "enc buf v = None \<longleftrightarrow> length buf < n"
  by (simp add: enc_eq)

lemma dec_None_iff: "dec buf = None \<longleftrightarrow> length buf < n"
  by (simp add: dec_eq)

lemma unat_small: "unat v < 256 ^ n" for v :: "'a word"
  using unsigned_less [of v, where ?'a = nat] by (simp add: width)

lemma roundtrip: "Option.bind (enc buf v) dec = (if length buf < n then None else Some v)"
  using unat_small [of v] by (simp add: enc_eq dec_eq le_value_le_bytes)

lemma write_back: "Option.bind (dec buf) (enc buf) = (if length buf < n then None else Some buf)"
proof (cases "length buf < n")
  case False
  have "le_value (take n buf) < 256 ^ n"
    using le_value_bound [of "take n buf"] False by simp
  then have "unat (of_nat (le_value (take n buf)) :: 'a word) = le_value (take n buf)"
    by (simp add: unat_of_nat width)
  moreover have "le_bytes n (le_value (take n buf)) = take n buf"
    using le_bytes_le_value [of "take n buf"] False by simp
  ultimately show ?thesis using False by (simp add: enc_eq dec_eq)
qed (simp add: dec_eq)

lemma enc_frame:
  assumes "enc buf v = Some buf'"
  shows "length buf' = length buf" and "drop n buf' = drop n buf"
  using assms by (auto simp: enc_eq split: if_splits)

lemma dec_frame: "take n buf' = take n buf \<Longrightarrow> n \<le> length buf \<Longrightarrow> dec buf' = dec buf"
  by (metis dec_eq length_take min.absorb2 min.cobounded1 not_le)

lemma enc_overwrites:
  "enc buf v = Some buf' \<Longrightarrow> enc buf' w = enc buf w"
  by (auto simp: enc_eq split: if_splits)

lemma enc_inj: "enc buf v = enc buf w \<Longrightarrow> n \<le> length buf \<Longrightarrow> v = w"
  using unat_small [of v] unat_small [of w] by (simp add: enc_eq le_bytes_inj word_unat_eq_iff)

end

interpretation le16: le_codec 2 encode_uint16_le decode_uint16_le
  by unfold_locales (simp_all add: encode_uint16_le_eq decode_uint16_le_eq)

interpretation le32: le_codec 4 encode_uint32_le decode_uint32_le
  by unfold_locales (simp_all add: encode_uint32_le_eq decode_uint32_le_eq)

interpretation le64: le_codec 8 encode_uint64_le decode_uint64_le
  by unfold_locales (simp_all add: encode_uint64_le_eq decode_uint64_le_eq)

lemmas le_bounds = le16.enc_None_iff le16.dec_None_iff le32.enc_None_iff le32.dec_None_iff
  le64.enc_None_iff le64.dec_None_iff

section \<open>Properties\<close>

text \<open>
  Claim C13. Packing a value and unpacking it again gives the value back, for all three widths
  and every buffer; both touch memory outside of the buffer exactly when the buffer is shorter
  than the value.
\<close>

theorem le_roundtrip:
  "Option.bind (encode_uint16_le buf v16) decode_uint16_le =
     (if length buf < 2 then None else Some v16) \<and>
   Option.bind (encode_uint32_le buf v32) decode_uint32_le =
     (if length buf < 4 then None else Some v32) \<and>
   Option.bind (encode_uint64_le buf v64) decode_uint64_le =
     (if length buf < 8 then None else Some v64) \<and>
   (encode_uint16_le buf v16 = None \<longleftrightarrow> length buf < 2) \<and>
   (decode_uint16_le buf = None \<longleftrightarrow> length buf < 2) \<and>
   (encode_uint32_le buf v32 = None \<longleftrightarrow> length buf < 4) \<and>
   (decode_uint32_le buf = None \<longleftrightarrow> length buf < 4) \<and>
   (encode_uint64_le buf v64 = None \<longleftrightarrow> length buf < 8) \<and>
   (decode_uint64_le buf = None \<longleftrightarrow> length buf < 8)"
  by (simp only: le16.roundtrip le32.roundtrip le64.roundtrip le_bounds simp_thms)

text \<open>
  Unpacking a value and packing it again leaves the buffer as it was: no byte of the
  packed form is redundant.
\<close>

theorem le_write_back:
  "Option.bind (decode_uint16_le buf) (encode_uint16_le buf) =
     (if length buf < 2 then None else Some buf) \<and>
   Option.bind (decode_uint32_le buf) (encode_uint32_le buf) =
     (if length buf < 4 then None else Some buf) \<and>
   Option.bind (decode_uint64_le buf) (encode_uint64_le buf) =
     (if length buf < 8 then None else Some buf)"
  by (simp only: le16.write_back le32.write_back le64.write_back simp_thms)

text \<open>
  Claim C35. The packed form is the little-endian base-256 expansion of the value, and the bytes
  of the buffer behind it are left alone.
\<close>

theorem le_layout:
  "encode_uint16_le buf v16 =
     (if length buf < 2 then None else Some (le_bytes 2 (unat v16) @ drop 2 buf)) \<and>
   encode_uint32_le buf v32 =
     (if length buf < 4 then None else Some (le_bytes 4 (unat v32) @ drop 4 buf)) \<and>
   encode_uint64_le buf v64 =
     (if length buf < 8 then None else Some (le_bytes 8 (unat v64) @ drop 8 buf))"
  by (simp only: encode_uint16_le_eq encode_uint32_le_eq encode_uint64_le_eq simp_thms)

end
