(* ===== verification/Debug.thy ===== *)
theory Debug
  imports Prelude Time_Utils
begin

text \<open>
  The logging module \<open>src/util/debug.c\<close> with the levels and macros of \<open>src/util/debug.h\<close>: the
  level variable, \<open>debug_impl\<close>, and the hex dump \<open>debug_dump_ptr\<close>. The state is the level and
  the text written to \<open>stderr\<close>. The message of a log call is given after its formatting by
  \<open>vfprintf\<close>.
\<close>

section \<open>Levels\<close>

text \<open>
  The enumeration has no negative enumerators, so that GCC and Clang give it the type
  \<open>unsigned int\<close>: comparisons of levels are unsigned.
\<close>

datatype debug_level_t =
    DEBUG_NONE | DEBUG_WARN | DEBUG_INFO | DEBUG_DETAIL | DEBUG_FLOOD | DEBUG_ERROR

fun debug_code :: "debug_level_t \<Rightarrow> u32" where
  "debug_code DEBUG_NONE = 0"
| "debug_code DEBUG_WARN = 1"
| "debug_code DEBUG_INFO = 2"
| "debug_code DEBUG_DETAIL = 3"
| "debug_code DEBUG_FLOOD = 4"
| "debug_code DEBUG_ERROR = 1000"

record debug_state =
  debug_level :: u32
  stderr_text :: string

definition debug_initial :: debug_state where
  "debug_initial = \<lparr>debug_level = debug_code DEBUG_WARN, stderr_text = []\<rparr>"

definition debug_set_level :: "u32 \<Rightarrow> ('a debug_state_scheme) \<Rightarrow> 'a debug_state_scheme" where
  "debug_set_level level d =
     (if level < debug_code DEBUG_WARN then d\<lparr>debug_level := debug_code DEBUG_WARN\<rparr>
      else if level > debug_code DEBUG_FLOOD then d\<lparr>debug_level := debug_code DEBUG_FLOOD\<rparr>
      else d\<lparr>debug_level := level\<rparr>)"

definition debug_get_level :: "'a debug_state_scheme \<Rightarrow> u32" where
  "debug_get_level d = debug_level d"

section \<open>Number formats\<close>

definition digit_char :: "nat \<Rightarrow> char" where
  "digit_char d = char_of (if d < 10 then 48 + d else 87 + d)"

text \<open>The conversions \<open>%d\<close> (of a number that is not negative), \<open>%04zu\<close> and \<open>%02x\<close>.\<close>

fun fmt_d :: "nat \<Rightarrow> string" where
  "fmt_d n = (if n < 10 then [digit_char n] else fmt_d (n div 10) @ [digit_char (n mod 10)])"

declare fmt_d.simps [simp del]

definition fmt_04zu :: "nat \<Rightarrow> string" where
  "fmt_04zu n = replicate (4 - length (fmt_d n)) (digit_char 0) @ fmt_d n"

definition fmt_02x :: "byte \<Rightarrow> string" where
  "fmt_02x b = [digit_char (unat b div 16), digit_char (unat b mod 16)]"

section \<open>Logging\<close>

abbreviation newline :: string where
  "newline \<equiv> [CHR 0x0A]"

definition debug_prefix :: "u32 \<Rightarrow> string" where
  "debug_prefix level =
     (if level = debug_code DEBUG_WARN then ''WARN''
      else if level = debug_code DEBUG_INFO then ''INFO''
      else if level = debug_code DEBUG_DETAIL then ''DETAIL''
      else if level = debug_code DEBUG_FLOOD then ''FLOOD''
      else if level = debug_code DEBUG_ERROR then ''ERROR''
      else ''UNKNOWN'')"

definition fprintf_stderr :: "string \<Rightarrow> 'a debug_state_scheme \<Rightarrow> 'a debug_state_scheme" where
  "fprintf_stderr tx d = d\<lparr>stderr_text := stderr_text d @ tx\<rparr>"

definition debug_impl ::
    "string \<Rightarrow> nat \<Rightarrow> u32 \<Rightarrow> string \<Rightarrow> 'a debug_state_scheme \<Rightarrow> 'a debug_state_scheme" where
  "debug_impl func line level msg d =
     (if level \<le> debug_level d \<or> level = debug_code DEBUG_ERROR
      then fprintf_stderr newline (fprintf_stderr msg
             (fprintf_stderr (debug_prefix level @ '' '' @ func @ '':'' @ fmt_d line @ '' '') d))
      else d)"

definition warn :: "string \<Rightarrow> nat \<Rightarrow> string \<Rightarrow> 'a debug_state_scheme \<Rightarrow> 'a debug_state_scheme" where
  "warn func line msg = debug_impl func line (debug_code DEBUG_WARN) msg"

definition info :: "string \<Rightarrow> nat \<Rightarrow> string \<Rightarrow> 'a debug_state_scheme \<Rightarrow> 'a debug_state_scheme" where
  "info func line msg = debug_impl func line (debug_code DEBUG_INFO) msg"

definition detail :: "string \<Rightarrow> nat \<Rightarrow> string \<Rightarrow> 'a debug_state_scheme \<Rightarrow> 'a debug_state_scheme" where
  "detail func line msg = debug_impl func line (debug_code DEBUG_DETAIL) msg"

definition flood :: "string \<Rightarrow> nat \<Rightarrow> string \<Rightarrow> 'a debug_state_scheme \<Rightarrow> 'a debug_state_scheme" where
  "flood func line msg = debug_impl func line (debug_code DEBUG_FLOOD) msg"

text \<open>The macro \<open>assert_error\<close>: the message of a failed condition, and \<open>exit(1)\<close>.\<close>

definition assert_error ::
    "bool \<Rightarrow> string \<Rightarrow> nat \<Rightarrow> string \<Rightarrow> 'a debug_state_scheme \<Rightarrow>
     (unit, 'a debug_state_scheme) outcome" where
  "assert_error cond func line msg d =
     (if \<not> cond then Exit 1 (debug_impl func line (debug_code DEBUG_ERROR) msg d) else Ret () d)"

text \<open>The guards \<open>warn_do\<close>, \<open>info_do\<close>, \<open>detail_do\<close>, \<open>flood_do\<close>: is the statement behind run?\<close>

definition level_do :: "debug_level_t \<Rightarrow> 'a debug_state_scheme \<Rightarrow> bool" where
  "level_do l d \<longleftrightarrow> debug_get_level d \<le> debug_code l"

section \<open>Lemmas on logging\<close>

lemma debug_level_frame [frame_simps]:
  "debug_level (fprintf_stderr t d) = debug_level d"
  "debug_level (debug_impl f n l m d) = debug_level d"
  by (simp_all add: fprintf_stderr_def debug_impl_def)

lemma debug_more_frame [frame_simps]:
  "debug_state.more (fprintf_stderr t d) = debug_state.more d"
  "debug_state.more (debug_impl f n l m d) = debug_state.more d"
  by (simp_all add: fprintf_stderr_def debug_impl_def)

lemma stderr_text_debug_impl:
  "stderr_text (debug_impl f n l m d) = stderr_text d @
     (if l \<le> debug_level d \<or> l = 1000
      then debug_prefix l @ '' '' @ f @ '':'' @ fmt_d n @ '' '' @ m @ newline else [])"
  by (simp add: debug_impl_def fprintf_stderr_def)

lemma debug_level_set: "debug_level (debug_set_level l d) = max 1 (min 4 l)"
proof -
  have "l \<noteq> 0 \<Longrightarrow> 1 \<le> l" by (simp add: word_le_nat_alt Suc_le_eq unat_gt_0)
  then show ?thesis by (auto simp: debug_set_level_def max_def min_def)
qed

lemma stderr_text_set: "stderr_text (debug_set_level l d) = stderr_text d"
  by (simp add: debug_set_level_def)

text \<open>The levels are ordered by their codes, so that clamping is \<open>max\<close> and \<open>min\<close> of the library.\<close>

lemma debug_code_inj: "debug_code a = debug_code b \<longleftrightarrow> a = b"
  by (cases a) (cases b; simp)+

instantiation debug_level_t :: linorder
begin

definition less_eq_debug_level_t :: "debug_level_t \<Rightarrow> debug_level_t \<Rightarrow> bool" where
  "less_eq_debug_level_t a b \<longleftrightarrow> debug_code a \<le> debug_code b"

definition less_debug_level_t :: "debug_level_t \<Rightarrow> debug_level_t \<Rightarrow> bool" where
  "less_debug_level_t a b \<longleftrightarrow> debug_code a < debug_code b"

instance
  by standard (auto simp: less_eq_debug_level_t_def less_debug_level_t_def debug_code_inj less_le)

end

lemma debug_set_level_clamp:
  "debug_get_level (debug_set_level (debug_code l) d) =
     debug_code (max DEBUG_WARN (min DEBUG_FLOOD l))"
  by (cases l) (simp_all add: debug_get_level_def debug_set_level_def max_def min_def
      less_eq_debug_level_t_def word_le_nat_alt)

text \<open>
  Whatever level is asked for, the module's level ends up between \<open>DEBUG_WARN\<close> and
  \<open>DEBUG_FLOOD\<close>, and it is the requested one where that is in range.
\<close>

theorem debug_set_level_clamps:
  "debug_get_level (debug_set_level level d) = max 1 (min 4 level)"
  by (simp add: debug_get_level_def debug_level_set)

text \<open>
  Filtering: after the level has been set to \<open>l\<close>, a message of a level from \<open>WARN\<close>
  to \<open>FLOOD\<close> is written exactly when its level is at most the clamped \<open>l\<close>; error messages are
  written always, and nothing that was written before is lost.
\<close>

theorem debug_impl_filters:
  "stderr_text (debug_impl func line (debug_code m) msg (debug_set_level l d)) =
     stderr_text d @
       (if m = DEBUG_ERROR \<or> debug_code m \<le> max 1 (min 4 l)
        then debug_prefix (debug_code m) @ '' '' @ func @ '':'' @ fmt_d line @ '' '' @ msg @
          newline
        else [])"
  by (cases m) (auto simp: stderr_text_debug_impl debug_level_set stderr_text_set)

text \<open>
  Assertions: if the condition holds nothing happens; if it fails the process ends with code 1,
  and the message is written before, whatever level was set.
\<close>

theorem assert_error_reports:
  "wp (assert_error cond func line msg (debug_set_level l d))
    (\<lambda>_ t. cond \<and> t = debug_set_level l d)
    (\<lambda>c t. \<not> cond \<and> c = 1 \<and>
       stderr_text t = stderr_text d @ ''ERROR '' @ func @ '':'' @ fmt_d line @ '' '' @ msg @ newline)"
  by (simp add: assert_error_def stderr_text_debug_impl stderr_text_set debug_prefix_def)

section \<open>The hex dump\<close>

definition ROW_BUF_SIZE :: nat where
  "ROW_BUF_SIZE = 300"

definition COLUMNS :: nat where
  "COLUMNS = 16"

text \<open>
  \<open>snprintf(&buf[pos], size, ...)\<close> of a formatted text: at most \<open>size - 1\<close> characters and a
  terminating NUL are stored, the length of the whole text is returned. Storing outside of the
  array is the access error of the model.
\<close>

definition snprintf_at :: "string \<Rightarrow> nat \<Rightarrow> nat \<Rightarrow> string \<Rightarrow> (string \<times> nat) option" where
  "snprintf_at buf pos size_arg tx =
     (if size_arg = 0 then Some (buf, length tx)
      else let out = take (size_arg - 1) tx @ [CHR 0x00] in
        if pos + length out \<le> length buf
        then Some (take pos buf @ out @ drop (pos + length out) buf, length tx)
        else None)"

text \<open>The subtraction of two \<open>size_t\<close> values.\<close>

definition size_minus :: "nat \<Rightarrow> nat \<Rightarrow> nat" where
  "size_minus a b = (if b \<le> a then a - b else 2 ^ 64 - (b - a))"

text \<open>What \<open>%s\<close> prints of a character array: the characters before the first NUL.\<close>

definition c_string :: "string \<Rightarrow> string" where
  "c_string buf = takeWhile (\<lambda>c. c \<noteq> CHR 0x00) buf"

text \<open>The inner loop over the columns, and the outer loop over the rows.\<close>

function dump_columns ::
    "(u64 \<Rightarrow> byte) \<Rightarrow> u64 \<Rightarrow> nat \<Rightarrow> nat \<Rightarrow> u64 \<Rightarrow> string \<Rightarrow> (u64 \<times> string) option" where
  "dump_columns mem end_buf column row_offset cur_buf row_buf =
     (if column < COLUMNS \<and> ptr_before cur_buf end_buf \<and> row_offset < ROW_BUF_SIZE + 1
      then case snprintf_at row_buf row_offset (size_minus ROW_BUF_SIZE row_offset)
                  ('' '' @ fmt_02x (mem cur_buf)) of
             None \<Rightarrow> None
           | Some (row_buf, n) \<Rightarrow>
               dump_columns mem end_buf (Suc column) (row_offset + n) (cur_buf + 1) row_buf
      else Some (cur_buf, row_buf))"
  by pat_completeness auto
termination
  by (relation "measure (\<lambda>(mem, e, column, r, c, b). COLUMNS - column)") auto

declare dump_columns.simps [simp del]

function dump_rows ::
    "(u64 \<Rightarrow> byte) \<Rightarrow> u64 \<Rightarrow> nat \<Rightarrow> nat \<Rightarrow> u64 \<Rightarrow> string \<Rightarrow> 'a debug_state_scheme \<Rightarrow>
     (unit, 'a debug_state_scheme) outcome" where
  "dump_rows mem end_buf row max_row cur_buf row_buf d =
     (if row < max_row
      then case snprintf_at row_buf 0 (ROW_BUF_SIZE + 1) (fmt_04zu (row * COLUMNS)) of
             None \<Rightarrow> Fault Out_Of_Bounds
           | Some (row_buf, row_offset) \<Rightarrow>
               (case dump_columns mem end_buf 0 row_offset cur_buf row_buf of
                  None \<Rightarrow> Fault Out_Of_Bounds
                | Some (cur_buf, row_buf) \<Rightarrow>
                    dump_rows mem end_buf (Suc row) max_row cur_buf row_buf
                      (fprintf_stderr (c_string row_buf @ newline) d))
      else Ret () d)"
  by pat_completeness auto
termination
  by (relation "measure (\<lambda>(mem, e, row, max_row, c, b, d). max_row - row)") auto

declare dump_rows.simps [simp del]

definition debug_dump_ptr ::
    "(u64 \<Rightarrow> byte) \<Rightarrow> u32 \<Rightarrow> u64 \<Rightarrow> u64 \<Rightarrow> 'a debug_state_scheme \<Rightarrow>
     (unit, 'a debug_state_scheme) outcome" where
  "debug_dump_ptr mem level start_buf end_buf d =
     (if level \<le> debug_level d then Ret () d
      else if start_buf = 0 \<or> end_buf = 0
      then Ret () (warn ''debug_dump_ptr'' 94 ''Called with null pointer(s) to data!'' d)
      else let data_len = sint (end_buf - start_buf) in
        if data_len \<le> 0
        then Ret () (warn ''debug_dump_ptr'' 101
               ''Called with no data to print or start_buf buffer > end_buf buffer!'' d)
        else dump_rows mem end_buf 0 ((nat data_len + (COLUMNS - 1)) div COLUMNS) start_buf
               (replicate (ROW_BUF_SIZE + 1) (CHR 0x00)) d)"

subsection \<open>The reference: the text of a dump\<close>

definition hex_row :: "nat \<Rightarrow> byte list \<Rightarrow> string" where
  "hex_row offset bs = fmt_04zu offset @ concat (map (\<lambda>b. '' '' @ fmt_02x b) bs)"

fun hex_dump :: "nat \<Rightarrow> byte list \<Rightarrow> string" where
  "hex_dump offset bs =
     (if bs = [] then []
      else hex_row offset (take 16 bs) @ newline @ hex_dump (offset + 16) (drop 16 bs))"

declare hex_dump.simps [simp del]

definition mem_bytes :: "(u64 \<Rightarrow> byte) \<Rightarrow> u64 \<Rightarrow> nat \<Rightarrow> byte list" where
  "mem_bytes mem p n = map (\<lambda>i. mem (p + of_nat i)) [0..<n]"

lemma length_mem_bytes [simp]: "length (mem_bytes mem p n) = n"
  by (simp add: mem_bytes_def)

lemma mem_bytes_0 [simp]: "mem_bytes mem p 0 = []"
  by (simp add: mem_bytes_def)

lemma mem_bytes_Suc: "mem_bytes mem p (Suc n) = mem p # mem_bytes mem (p + 1) n"
  by (simp add: mem_bytes_def upt_conv_Cons map_Suc_upt [symmetric] ac_simps
      del: upt_Suc map_Suc_upt)

lemma mem_bytes_add:
  "mem_bytes mem p (m + n) = mem_bytes mem p m @ mem_bytes mem (p + of_nat m) n"
  by (induction m arbitrary: p) (simp_all add: mem_bytes_Suc ac_simps)

lemma take_mem_bytes: "take k (mem_bytes mem p n) = mem_bytes mem p (min k n)"
  by (simp add: mem_bytes_def take_map min_def)

lemma drop_mem_bytes: "drop k (mem_bytes mem p n) = mem_bytes mem (p + of_nat k) (n - k)"
proof (cases "k \<le> n")
  case True
  then have "mem_bytes mem p n = mem_bytes mem p k @ mem_bytes mem (p + of_nat k) (n - k)"
    using mem_bytes_add [of mem p k "n - k"] by simp
  then show ?thesis by simp
qed simp

subsection \<open>The characters of a row\<close>

abbreviation no_nul :: "string \<Rightarrow> bool" where
  "no_nul tx \<equiv> CHR 0x00 \<notin> set tx"

lemma digit_char_no_nul: "d < 16 \<Longrightarrow> digit_char d \<noteq> CHR 0x00"
proof
  assume d: "d < 16" and "digit_char d = CHR 0x00"
  then have "(of_char (digit_char d) :: nat) = 0" by simp
  with d show False by (simp add: digit_char_def split: if_splits)
qed

lemma fmt_d_no_nul: "no_nul (fmt_d n)"
proof (induction n rule: fmt_d.induct)
  case (1 n)
  then show ?case
    using digit_char_no_nul [of n, symmetric] digit_char_no_nul [of "n mod 10", symmetric]
      mod_less_divisor [of 10 n] by (subst fmt_d.simps) auto
qed

lemma fmt_04zu_no_nul: "no_nul (fmt_04zu n)"
  using fmt_d_no_nul digit_char_no_nul [of 0] by (auto simp: fmt_04zu_def dest: sym)

lemma fmt_02x_no_nul: "no_nul ('' '' @ fmt_02x b)"
proof -
  have "unat b div 16 < 16" "unat b mod 16 < 16"
    using unsigned_less [of b, where ?'a = nat] by auto
  then show ?thesis
    using digit_char_no_nul by (auto simp: fmt_02x_def dest: sym)
qed

lemma length_fmt_02x: "length ('' '' @ fmt_02x b) = 3"
  by (simp add: fmt_02x_def)

lemma length_fmt_d: "n < 10 ^ Suc k \<Longrightarrow> length (fmt_d n) \<le> Suc k"
proof (induction k arbitrary: n)
  case 0
  then show ?case by (simp add: fmt_d.simps [of n])
next
  case (Suc k)
  then have "n div 10 < 10 ^ Suc k" by (simp add: less_mult_imp_div_less)
  then have "length (fmt_d (n div 10)) \<le> Suc k" by (rule Suc.IH)
  then show ?case by (simp add: fmt_d.simps [of n])
qed

lemma length_fmt_04zu: "n < 2 ^ 63 \<Longrightarrow> length (fmt_04zu n) \<le> 20"
  using length_fmt_d [of n 19] by (simp add: fmt_04zu_def)

subsection \<open>The row buffer\<close>

text \<open>The row buffer holds a text: the text, a NUL, and whatever was there before.\<close>

definition holds :: "string \<Rightarrow> string \<Rightarrow> bool" where
  "holds buf tx \<longleftrightarrow> length buf = 301 \<and> (\<exists>rest. buf = tx @ CHR 0x00 # rest)"

lemma c_string_holds: "holds buf tx \<Longrightarrow> no_nul tx \<Longrightarrow> c_string buf = tx"
  by (auto simp: holds_def c_string_def takeWhile_append)

lemma snprintf_fits:
  assumes "length buf = 301" and "pos \<le> length buf" and "length tx < n"
    and "pos + length tx < 301"
  shows "snprintf_at buf pos n tx =
    Some (take pos buf @ tx @ CHR 0x00 # drop (pos + length tx + 1) buf, length tx)"
  using assms by (simp add: snprintf_at_def)

lemma snprintf_start:
  assumes "length buf = 301" and "length tx < 301"
  shows "\<exists>buf'. snprintf_at buf 0 301 tx = Some (buf', length tx) \<and> holds buf' tx"
  using snprintf_fits [of buf 0 tx 301] assms by (auto simp: holds_def)

lemma snprintf_append:
  assumes "holds buf tx" and "length tx + length s < 300"
  shows "\<exists>buf'. snprintf_at buf (length tx) (size_minus 300 (length tx)) s =
    Some (buf', length s) \<and> holds buf' (tx @ s)"
proof -
  have "take (length tx) buf = tx" "length buf = 301"
    using assms(1) by (auto simp: holds_def)
  then show ?thesis
    using snprintf_fits [of buf "length tx" s "300 - length tx"] assms(2)
    by (auto simp: holds_def size_minus_def)
qed

subsection \<open>The loops\<close>

definition user_range :: "u64 \<Rightarrow> nat \<Rightarrow> bool" where
  "user_range p n \<longleftrightarrow> p \<noteq> 0 \<and> uint p + int n < 2 ^ 63"

lemma uint_user_add:
  assumes "user_range p n" and "k \<le> n"
  shows "uint (p + of_nat k) = uint p + int k"
proof -
  have lt: "uint p + int k < 2 ^ 64"
    using assms by (simp add: user_range_def)
  have "int k < 2 ^ 64"
    using lt uint_ge_0 [of p] by linarith
  then have "uint (of_nat k :: u64) = int k"
    by (simp add: unsigned_of_nat take_bit_eq_mod zmod_int)
  then show ?thesis
    using lt uint_ge_0 [of p] by (simp add: uint_word_ariths)
qed

lemma ptr_before_range: "user_range p n \<Longrightarrow> ptr_before p (p + of_nat n) \<longleftrightarrow> 0 < n"
  using uint_user_add [of p n n] by (subst ptr_before_user) (auto simp: user_range_def)

lemma user_range_Suc:
  assumes "user_range p (Suc n)"
  shows "user_range (p + 1) n"
proof -
  have eq: "uint (p + 1) = uint p + 1"
    using uint_user_add [OF assms, of 1] by simp
  then have "uint (p + 1) \<noteq> 0"
    using uint_ge_0 [of p] by linarith
  then have "p + 1 \<noteq> 0" by (metis unsigned_0)
  then show ?thesis
    using assms eq by (simp add: user_range_def)
qed

lemma user_range_add: "user_range p n \<Longrightarrow> k \<le> n \<Longrightarrow> user_range (p + of_nat k) (n - k)"
proof (induction k arbitrary: p n)
  case (Suc k)
  then obtain m where n: "n = Suc m" and "k \<le> m" by (cases n) auto
  with Suc have "user_range (p + 1 + of_nat k) (m - k)"
    by (intro Suc.IH) (auto dest: user_range_Suc)
  then show ?case by (simp add: n ac_simps)
qed simp

lemma dump_columns_correct:
  assumes "holds buf tx" and "user_range cur n" and "length tx + 3 * c < 300"
    and "c \<le> COLUMNS"
  shows "\<exists>buf'. dump_columns mem (cur + of_nat n) (COLUMNS - c) (length tx) cur buf =
           Some (cur + of_nat (min c n), buf') \<and>
         holds buf' (tx @ concat (map (\<lambda>b. '' '' @ fmt_02x b) (mem_bytes mem cur (min c n))))"
  using assms
proof (induction c arbitrary: buf tx cur n)
  case 0
  then show ?case by (simp add: dump_columns.simps)
next
  case (Suc c)
  show ?case
  proof (cases n)
    case 0
    then show ?thesis
      using Suc.prems ptr_before_irrefl by (simp add: dump_columns.simps)
  next
    case (Suc m)
    let ?s = "'' '' @ fmt_02x (mem cur)"
    obtain buf' where buf': "snprintf_at buf (length tx) (size_minus 300 (length tx)) ?s =
        Some (buf', 3)" "holds buf' (tx @ ?s)"
      using snprintf_append [of buf tx ?s] Suc.prems length_fmt_02x [of "mem cur"] by auto
    have pb: "ptr_before cur (cur + of_nat n)"
      using ptr_before_range [OF Suc.prems(2)] Suc by simp
    have eq: "cur + of_nat n = cur + 1 + of_nat m" by (simp add: Suc)
    have cs: "COLUMNS - Suc c < COLUMNS" "Suc (COLUMNS - Suc c) = COLUMNS - c"
      using Suc.prems(4) by (auto simp: Suc_diff_Suc)
    have step: "dump_columns mem (cur + of_nat n) (COLUMNS - Suc c) (length tx) cur buf =
        dump_columns mem (cur + 1 + of_nat m) (COLUMNS - c) (length (tx @ ?s)) (cur + 1) buf'"
      using pb buf'(1) Suc.prems unfolding eq
      by (subst dump_columns.simps)
        (simp add: ROW_BUF_SIZE_def cs length_fmt_02x [simplified])
    have "user_range (cur + 1) m"
      using Suc.prems(2) Suc by (simp add: user_range_Suc)
    then show ?thesis
      using Suc.IH [OF buf'(2), of "cur + 1" m] Suc.prems length_fmt_02x [of "mem cur"]
      unfolding step by (auto simp: Suc mem_bytes_Suc ac_simps)
  qed
qed

lemma hex_dump_first_row:
  assumes "0 < n"
  shows "hex_dump (row * COLUMNS) (mem_bytes mem cur n) =
    hex_row (row * COLUMNS) (mem_bytes mem cur (min COLUMNS n)) @ newline @
    hex_dump (Suc row * COLUMNS)
      (mem_bytes mem (cur + of_nat (min COLUMNS n)) (n - min COLUMNS n))"
proof -
  have "mem_bytes mem cur n \<noteq> []"
    using assms by (metis length_mem_bytes less_numeral_extra(3) list.size(3))
  then show ?thesis
    by (subst hex_dump.simps)
      (cases "n \<le> 16"; simp add: COLUMNS_def take_mem_bytes drop_mem_bytes min_def hex_dump.simps
        ac_simps)
qed

lemma dump_rows_correct:
  assumes "length buf = 301" and "user_range cur n" and "n = 0 \<or> row * COLUMNS + n < 2 ^ 63"
    and "max_row = row + (n + (COLUMNS - 1)) div COLUMNS"
  shows "dump_rows mem (cur + of_nat n) row max_row cur buf d =
    Ret () (fprintf_stderr (hex_dump (row * COLUMNS) (mem_bytes mem cur n)) d)"
  using assms
proof (induction n arbitrary: buf cur row d rule: less_induct)
  case (less n)
  show ?case
  proof (cases "n = 0")
    case True
    then show ?thesis
      using less.prems by (simp add: dump_rows.simps COLUMNS_def hex_dump.simps fprintf_stderr_def)
  next
    case False
    let ?k = "min COLUMNS n" and ?head = "fmt_04zu (row * COLUMNS)"
    let ?line = "hex_row (row * COLUMNS) (mem_bytes mem cur ?k)"
    have k: "?k \<le> n" "0 < ?k" using False by (auto simp: COLUMNS_def)
    have lt: "row < max_row"
      using less.prems(4) False by (simp add: COLUMNS_def)
    have len: "length ?head \<le> 20"
      using less.prems(3) False by (intro length_fmt_04zu) simp
    obtain b1 where b1: "snprintf_at buf 0 301 ?head = Some (b1, length ?head)" "holds b1 ?head"
      using snprintf_start [of buf ?head] less.prems(1) len by auto
    obtain b2 where b2: "dump_columns mem (cur + of_nat n) 0 (length ?head) cur b1 =
        Some (cur + of_nat ?k, b2)" "holds b2 ?line"
      using dump_columns_correct [OF b1(2) less.prems(2), of COLUMNS mem] len
      by (auto simp: COLUMNS_def hex_row_def)
    have "no_nul ?line"
      using fmt_04zu_no_nul fmt_02x_no_nul by (auto simp: hex_row_def)
    then have line: "c_string b2 = ?line" by (rule c_string_holds [OF b2(2)])
    have rest: "cur + of_nat n = cur + of_nat ?k + of_nat (n - ?k)"
      using k(1) by (simp flip: of_nat_add add: ac_simps)
    have "dump_rows mem (cur + of_nat n) (Suc row) max_row (cur + of_nat ?k) b2
        (fprintf_stderr (?line @ newline) d) =
      Ret () (fprintf_stderr (hex_dump (Suc row * COLUMNS)
        (mem_bytes mem (cur + of_nat ?k) (n - ?k))) (fprintf_stderr (?line @ newline) d))"
      unfolding rest
    proof (rule less.IH)
      show "n - ?k < n" using k by simp
      show "length b2 = 301" using b2(2) by (simp add: holds_def)
      show "user_range (cur + of_nat ?k) (n - ?k)" using less.prems(2) k(1) by (rule user_range_add)
      show "n - ?k = 0 \<or> Suc row * COLUMNS + (n - ?k) < 2 ^ 63"
        using less.prems(3) False by (auto simp: min_def)
      show "max_row = Suc row + (n - ?k + (COLUMNS - 1)) div COLUMNS"
        using less.prems(4) False by (auto simp: COLUMNS_def min_def)
    qed
    moreover have "hex_dump (row * COLUMNS) (mem_bytes mem cur n) = ?line @ newline @
        hex_dump (Suc row * COLUMNS) (mem_bytes mem (cur + of_nat ?k) (n - ?k))"
      by (rule hex_dump_first_row) (use False in simp)
    ultimately show ?thesis
      using lt b1(1) b2(1) line
      by (subst dump_rows.simps) (simp add: ROW_BUF_SIZE_def fprintf_stderr_def)
  qed
qed

subsection \<open>Properties of the dump\<close>

lemma user_range_bound:
  assumes "user_range p n"
  shows "n < 2 ^ 63"
proof -
  have "uint p + int n < 2 ^ 63" using assms by (simp add: user_range_def)
  then have "int n < 2 ^ 63" using uint_ge_0 [of p] by linarith
  then show ?thesis by simp
qed

lemma sint_range_length:
  assumes "user_range p n"
  shows "sint (p + of_nat n - p) = int n"
proof -
  have "sint (word_of_int (int n) :: u64) = int n"
    using user_range_bound [OF assms] by (intro sint_word_of_int_64) auto
  then show ?thesis by simp
qed

lemma debug_dump_ptr_eq:
  assumes "debug_level d < level" and "0 < n" and "user_range p n"
  shows "debug_dump_ptr mem level p (p + of_nat n) d =
    Ret () (fprintf_stderr (hex_dump 0 (mem_bytes mem p n)) d)"
proof -
  have "0 < uint (p + of_nat n)"
    using uint_user_add [OF assms(3), of n] assms(2) uint_ge_0 [of p] by linarith
  then have "p + of_nat n \<noteq> 0" by auto
  moreover have "p \<noteq> 0"
    using assms(3) by (simp add: user_range_def)
  ultimately show ?thesis
    using assms sint_range_length [OF assms(3)] user_range_bound [OF assms(3)]
      dump_rows_correct [of "replicate 301 (CHR 0x00)" p n 0 "(n + (COLUMNS - 1)) div COLUMNS" mem d]
    by (simp add: debug_dump_ptr_def Let_def ROW_BUF_SIZE_def)
qed

text \<open>
  Claim C12. Where the dump is not suppressed, it writes, for any range of user memory, exactly
  the reference text: every byte of the range once and in order, sixteen to a row, each row with
  its offset. The row buffer is never overrun and no row is cut off.
\<close>

theorem debug_dump_ptr_correct:
  assumes "debug_level d < level" and "0 < n" and "user_range p n"
  shows "debug_dump_ptr mem level p (p + of_nat n) d =
    Ret () (fprintf_stderr (hex_dump 0 (mem_bytes mem p n)) d)"
  using assms by (rule debug_dump_ptr_eq)

theorem debug_dump_ptr_correct_witness:
  "debug_dump_ptr (\<lambda>a. ucast a) 2 4096 (4096 + of_nat 40) debug_initial =
     Ret () (fprintf_stderr (hex_dump 0 (mem_bytes (\<lambda>a. ucast a) 4096 40)) debug_initial)"
  by (rule debug_dump_ptr_correct) (simp_all add: debug_initial_def user_range_def)

lemma hex_dump_not_empty: "0 < n \<Longrightarrow> hex_dump k (mem_bytes mem p n) \<noteq> []"
  by (subst hex_dump.simps) (auto dest: arg_cong [of _ _ length])

lemma debug_impl_writes_iff:
  "stderr_text (debug_impl func line l msg d) \<noteq> stderr_text d \<longleftrightarrow> l \<le> debug_level d \<or> l = 1000"
  by (simp add: stderr_text_debug_impl)

text \<open>
  The guard of the dump is the opposite of the guard of the log: at a level from
  \<open>NONE\<close> to \<open>FLOOD\<close> the log writes its message exactly when the dump writes nothing, whatever
  there is to dump.
\<close>

theorem debug_dump_guard_inverted:
  assumes "m \<noteq> DEBUG_ERROR" and "0 < n" and "user_range p n"
  shows "stderr_text (debug_impl func line (debug_code m) msg d) \<noteq> stderr_text d \<longleftrightarrow>
    debug_dump_ptr mem (debug_code m) p (p + of_nat n) d = Ret () d"
proof (cases "debug_code m \<le> debug_level d")
  case True
  then show ?thesis by (simp add: debug_impl_writes_iff debug_dump_ptr_def)
next
  case False
  have "debug_code m \<noteq> 1000" using assms(1) by (cases m) simp_all
  moreover have "fprintf_stderr (hex_dump 0 (mem_bytes mem p n)) d \<noteq> d"
    using hex_dump_not_empty [OF assms(2)]
    by (auto simp: fprintf_stderr_def dest: arg_cong [of _ _ stderr_text])
  ultimately show ?thesis
    using False assms(2,3) by (simp add: debug_impl_writes_iff debug_dump_ptr_eq)
qed

theorem debug_dump_guard_inverted_witness:
  "stderr_text (debug_impl ''f'' 1 (debug_code DEBUG_WARN) ''m'' debug_initial) \<noteq>
     stderr_text debug_initial \<longleftrightarrow>
   debug_dump_ptr (\<lambda>a. ucast a) (debug_code DEBUG_WARN) 4096 (4096 + of_nat 40) debug_initial =
     Ret () debug_initial"
  by (rule debug_dump_guard_inverted) (simp_all add: user_range_def)

end
