(* ===== verification/Machine.thy ===== *)
theory Machine
  imports Prelude
begin

unbundle bit_operations_syntax

text \<open>
  The machine the back ends run on: a heap of allocated objects and the trace of the calls that
  leave the program (system calls, allocator calls, application callbacks). The operating system
  is a parameter: a record of functions that give the result of each call from the whole trace
  before it and the arguments, so that any behaviour that depends on the past is covered. The
  laws of the POSIX calls that the code relies on are stated in \<open>posix_ok\<close>.
\<close>

section \<open>Heap and trace\<close>

record ('e, 'c) mach =
  trace :: "'e list"
  heap :: "ptr \<Rightarrow> 'c option"
  brk :: ptr

text \<open>Addresses are handed out in increasing order and not reused, as in CompCert's memory.\<close>

definition emit :: "'e \<Rightarrow> ('e, 'c, 'z) mach_scheme \<Rightarrow> ('e, 'c, 'z) mach_scheme" where
  "emit e s = s\<lparr>trace := trace s @ [e]\<rparr>"

definition new_cell :: "'c \<Rightarrow> ('e, 'c, 'z) mach_scheme \<Rightarrow> ('e, 'c, 'z) mach_scheme" where
  "new_cell c s = s\<lparr>heap := (heap s)(Suc (brk s) \<mapsto> c), brk := Suc (brk s)\<rparr>"

definition load_cell ::
    "ptr \<Rightarrow> ('e, 'c, 'z) mach_scheme \<Rightarrow> ('c, ('e, 'c, 'z) mach_scheme) outcome" where
  "load_cell p s =
     (if p = NULL then Fault Null_Deref
      else case heap s p of None \<Rightarrow> Fault Use_After_Free | Some c \<Rightarrow> Ret c s)"

definition store_cell ::
    "ptr \<Rightarrow> 'c \<Rightarrow> ('e, 'c, 'z) mach_scheme \<Rightarrow> (unit, ('e, 'c, 'z) mach_scheme) outcome" where
  "store_cell p c s =
     (if p = NULL then Fault Null_Deref
      else case heap s p of None \<Rightarrow> Fault Use_After_Free
         | Some _ \<Rightarrow> Ret () (s\<lparr>heap := (heap s)(p \<mapsto> c)\<rparr>))"

definition drop_cell ::
    "ptr \<Rightarrow> ('e, 'c, 'z) mach_scheme \<Rightarrow> (unit, ('e, 'c, 'z) mach_scheme) outcome" where
  "drop_cell p s =
     (case heap s p of None \<Rightarrow> Fault Bad_Free
      | Some _ \<Rightarrow> Ret () (s\<lparr>heap := (heap s)(p := None)\<rparr>))"

definition heap_bounded :: "('e, 'c, 'z) mach_scheme \<Rightarrow> bool" where
  "heap_bounded s \<longleftrightarrow> (\<forall>p. heap s p \<noteq> None \<longrightarrow> 0 < p \<and> p \<le> brk s)"

lemma emit_frame [simp]:
  "trace (emit e s) = trace s @ [e]" "heap (emit e s) = heap s" "brk (emit e s) = brk s"
  "mach.more (emit e s) = mach.more s"
  by (simp_all add: emit_def)

lemma new_cell_frame [simp]:
  "trace (new_cell c s) = trace s" "heap (new_cell c s) = (heap s)(Suc (brk s) \<mapsto> c)"
  "brk (new_cell c s) = Suc (brk s)" "mach.more (new_cell c s) = mach.more s"
  by (simp_all add: new_cell_def)

lemma heap_bounded_emit [simp]: "heap_bounded (emit e s) = heap_bounded s"
  by (simp add: heap_bounded_def)

lemma heap_bounded_new_cell: "heap_bounded s \<Longrightarrow> heap_bounded (new_cell c s)"
  by (auto simp: heap_bounded_def intro: le_SucI)

lemma heap_bounded_fresh: "heap_bounded s \<Longrightarrow> heap s (Suc (brk s)) = None"
  by (metis Suc_n_not_le_n heap_bounded_def)

lemma heap_bounded_NULL: "heap_bounded s \<Longrightarrow> heap s NULL = None"
  by (metis heap_bounded_def less_irrefl)

lemma load_cell_Some [simp]:
  "p \<noteq> NULL \<Longrightarrow> heap s p = Some c \<Longrightarrow> load_cell p s = Ret c s"
  by (simp add: load_cell_def)

lemma load_cell_NULL [simp]: "load_cell NULL s = Fault Null_Deref"
  by (simp add: load_cell_def)

lemma load_cell_None [simp]:
  "p \<noteq> NULL \<Longrightarrow> heap s p = None \<Longrightarrow> load_cell p s = Fault Use_After_Free"
  by (simp add: load_cell_def)

lemma store_cell_Some [simp]:
  "p \<noteq> NULL \<Longrightarrow> heap s p = Some c \<Longrightarrow>
     store_cell p c' s = Ret () (s\<lparr>heap := (heap s)(p \<mapsto> c')\<rparr>)"
  by (simp add: store_cell_def)

lemma drop_cell_Some [simp]:
  "heap s p = Some c \<Longrightarrow> drop_cell p s = Ret () (s\<lparr>heap := (heap s)(p := None)\<rparr>)"
  by (simp add: drop_cell_def)

lemma drop_cell_None [simp]: "heap s p = None \<Longrightarrow> drop_cell p s = Fault Bad_Free"
  by (simp add: drop_cell_def)

section \<open>Socket addresses\<close>

text \<open>
  An IPv4 address as the code fills it in; \<open>sin_addr\<close> is \<open>None\<close> while it has no determinate
  value. \<open>htons\<close> swaps the bytes of the port on the little-endian hosts of the toolchain.
\<close>

record sockaddr_in =
  sin_port :: u16
  sin_addr :: "u32 option"

definition htons :: "u16 \<Rightarrow> u16" where
  "htons p = push_bit 8 p OR drop_bit 8 p"

definition INADDR_ANY :: u32 where
  "INADDR_ANY = 0"

section \<open>POSIX calls\<close>

text \<open>The value of a descriptor that is no socket, as \<open>src/util/proactor_net.h\<close> has it.\<close>

definition INVALID_SOCKET :: int where
  "INVALID_SOCKET = - 1"

datatype 'x posix_ev =
    EvPerror string
  | EvClose int
  | EvRead int nat "byte list option"
  | EvWrite int "byte list" int
  | EvPipe "(int \<times> int) option"
  | EvSocket int
  | EvBind int sockaddr_in int
  | EvListen int int int
  | EvConnect int sockaddr_in int
  | EvAccept int int
  | EvMalloc nat ptr
  | EvFree ptr
  | EvExt 'x

record 'x posix =
  os_read :: "'x posix_ev list \<Rightarrow> int \<Rightarrow> nat \<Rightarrow> byte list option"
  os_write :: "'x posix_ev list \<Rightarrow> int \<Rightarrow> byte list \<Rightarrow> int"
  os_pipe :: "'x posix_ev list \<Rightarrow> (int \<times> int) option"
  os_socket :: "'x posix_ev list \<Rightarrow> int"
  os_bind :: "'x posix_ev list \<Rightarrow> int \<Rightarrow> sockaddr_in \<Rightarrow> int"
  os_listen :: "'x posix_ev list \<Rightarrow> int \<Rightarrow> int \<Rightarrow> int"
  os_connect :: "'x posix_ev list \<Rightarrow> int \<Rightarrow> sockaddr_in \<Rightarrow> int"
  os_accept :: "'x posix_ev list \<Rightarrow> int \<Rightarrow> int"
  os_inet_pton :: "string \<Rightarrow> u32 option"
  os_malloc :: "'x posix_ev list \<Rightarrow> nat \<Rightarrow> bool"

text \<open>
  The documented bounds of \<open>read\<close> and \<open>write\<close>: neither transfers more than it was asked for,
  and a failed \<open>write\<close> returns -1.
\<close>

definition posix_ok :: "('x, 'y) posix_scheme \<Rightarrow> bool" where
  "posix_ok os \<longleftrightarrow>
     (\<forall>h fd n bs. os_read os h fd n = Some bs \<longrightarrow> length bs \<le> n) \<and>
     (\<forall>h fd bs. - 1 \<le> os_write os h fd bs \<and> os_write os h fd bs \<le> int (length bs))"

text \<open>The value of \<open>errno\<close> for a call interrupted by a signal.\<close>

definition EINTR :: int where
  "EINTR = 4"

text \<open>
  \<open>perror\<close> followed by \<open>exit(EXIT_FAILURE)\<close>: the function \<open>handle_error\<close> that the epoll and the
  IOCP back end both define, and the check of a result that calls it.
\<close>

definition handle_error ::
    "string \<Rightarrow> ('x posix_ev, 'c, 'z) mach_scheme \<Rightarrow>
     ('a, ('x posix_ev, 'c, 'z) mach_scheme) outcome" where
  "handle_error msg s = Exit 1 (emit (EvPerror msg) s)"

definition check ::
    "bool \<Rightarrow> string \<Rightarrow> ('x posix_ev, 'c, 'z) mach_scheme \<Rightarrow>
     (unit, ('x posix_ev, 'c, 'z) mach_scheme) outcome" where
  "check failed msg s = (if failed then handle_error msg s else Ret () s)"

definition sys_close ::
    "int \<Rightarrow> ('x posix_ev, 'c, 'z) mach_scheme \<Rightarrow>
     (unit, ('x posix_ev, 'c, 'z) mach_scheme) outcome" where
  "sys_close fd s = Ret () (emit (EvClose fd) s)"

text \<open>
  \<open>read(fd, buf, n)\<close> into a buffer of \<open>n\<close> bytes: the returned value and the bytes received. A
  kernel that stored more than \<open>n\<close> bytes would overrun the buffer.
\<close>

definition sys_read ::
    "('x, 'y) posix_scheme \<Rightarrow> int \<Rightarrow> nat \<Rightarrow> ('x posix_ev, 'c, 'z) mach_scheme \<Rightarrow>
     (int \<times> byte list, ('x posix_ev, 'c, 'z) mach_scheme) outcome" where
  "sys_read os fd n s =
     (let r = os_read os (trace s) fd n; s = emit (EvRead fd n r) s in
      case r of
        None \<Rightarrow> Ret (- 1, []) s
      | Some bs \<Rightarrow>
          if length bs \<le> n then Ret (int (length bs), bs) s else Fault Out_Of_Bounds)"

definition sys_write ::
    "('x, 'y) posix_scheme \<Rightarrow> int \<Rightarrow> byte list \<Rightarrow> ('x posix_ev, 'c, 'z) mach_scheme \<Rightarrow>
     (int, ('x posix_ev, 'c, 'z) mach_scheme) outcome" where
  "sys_write os fd bs s =
     (let r = os_write os (trace s) fd bs in Ret r (emit (EvWrite fd bs r) s))"

definition sys_socket ::
    "('x, 'y) posix_scheme \<Rightarrow> ('x posix_ev, 'c, 'z) mach_scheme \<Rightarrow>
     (int, ('x posix_ev, 'c, 'z) mach_scheme) outcome" where
  "sys_socket os s = (let fd = os_socket os (trace s) in Ret fd (emit (EvSocket fd) s))"

definition sys_bind ::
    "('x, 'y) posix_scheme \<Rightarrow> int \<Rightarrow> sockaddr_in \<Rightarrow> ('x posix_ev, 'c, 'z) mach_scheme \<Rightarrow>
     (int, ('x posix_ev, 'c, 'z) mach_scheme) outcome" where
  "sys_bind os fd a s = (let r = os_bind os (trace s) fd a in Ret r (emit (EvBind fd a r) s))"

definition sys_listen ::
    "('x, 'y) posix_scheme \<Rightarrow> int \<Rightarrow> int \<Rightarrow> ('x posix_ev, 'c, 'z) mach_scheme \<Rightarrow>
     (int, ('x posix_ev, 'c, 'z) mach_scheme) outcome" where
  "sys_listen os fd backlog s =
     (let r = os_listen os (trace s) fd backlog in Ret r (emit (EvListen fd backlog r) s))"

definition sys_connect ::
    "('x, 'y) posix_scheme \<Rightarrow> int \<Rightarrow> sockaddr_in \<Rightarrow> ('x posix_ev, 'c, 'z) mach_scheme \<Rightarrow>
     (int, ('x posix_ev, 'c, 'z) mach_scheme) outcome" where
  "sys_connect os fd a s =
     (let r = os_connect os (trace s) fd a in Ret r (emit (EvConnect fd a r) s))"

definition sys_accept ::
    "('x, 'y) posix_scheme \<Rightarrow> int \<Rightarrow> ('x posix_ev, 'c, 'z) mach_scheme \<Rightarrow>
     (int, ('x posix_ev, 'c, 'z) mach_scheme) outcome" where
  "sys_accept os fd s = (let r = os_accept os (trace s) fd in Ret r (emit (EvAccept fd r) s))"

text \<open>\<open>pipe(fds)\<close>: on failure the array keeps its contents.\<close>

definition sys_pipe ::
    "('x, 'y) posix_scheme \<Rightarrow> int \<times> int \<Rightarrow> ('x posix_ev, 'c, 'z) mach_scheme \<Rightarrow>
     (int \<times> (int \<times> int), ('x posix_ev, 'c, 'z) mach_scheme) outcome" where
  "sys_pipe os fds s =
     (let r = os_pipe os (trace s) in
      Ret (case r of None \<Rightarrow> (- 1, fds) | Some fds' \<Rightarrow> (0, fds')) (emit (EvPipe r) s))"

text \<open>The allocator. A fresh block has the contents \<open>c\<close> given by the caller of \<open>sys_malloc\<close>.\<close>

definition sys_malloc ::
    "('x, 'y) posix_scheme \<Rightarrow> nat \<Rightarrow> 'c \<Rightarrow> ('x posix_ev, 'c, 'z) mach_scheme \<Rightarrow>
     (ptr, ('x posix_ev, 'c, 'z) mach_scheme) outcome" where
  "sys_malloc os n c s =
     (if os_malloc os (trace s) n
      then Ret (Suc (brk s)) (emit (EvMalloc n (Suc (brk s))) (new_cell c s))
      else Ret NULL (emit (EvMalloc n NULL) s))"

definition sys_free ::
    "ptr \<Rightarrow> ('x posix_ev, 'c, 'z) mach_scheme \<Rightarrow>
     (unit, ('x posix_ev, 'c, 'z) mach_scheme) outcome" where
  "sys_free p s = (if p = NULL then Ret () s else drop_cell p (emit (EvFree p) s))"

lemmas sys_defs = sys_close_def sys_read_def sys_write_def sys_socket_def sys_bind_def
  sys_listen_def sys_connect_def sys_accept_def sys_pipe_def Let_def
lemmas error_defs = check_def handle_error_def

lemma posix_okD:
  assumes "posix_ok os"
  shows "os_read os h fd n = Some bs \<Longrightarrow> length bs \<le> n"
    and "- 1 \<le> os_write os h fd xs" and "os_write os h fd xs \<le> int (length xs)"
  using assms by (simp_all add: posix_ok_def)

text \<open>
  The bytes that reached a peer: of each successful \<open>write\<close> on a descriptor other than \<open>w\<close> (the
  write end of the wake pipe), the part that the kernel accepted, in the order of the calls.
\<close>

fun accepted_by :: "int \<Rightarrow> 'x posix_ev \<Rightarrow> byte list" where
  "accepted_by w (EvWrite fd bs r) = (if fd \<noteq> w then take (nat r) bs else [])"
| "accepted_by w _ = []"

definition sent_stream :: "int \<Rightarrow> 'x posix_ev list \<Rightarrow> byte list" where
  "sent_stream w tr = concat (map (accepted_by w) tr)"

lemma sent_stream_simps [simp]:
  "sent_stream w [] = []"
  "sent_stream w (xs @ ys) = sent_stream w xs @ sent_stream w ys"
  "sent_stream w (e # xs) = accepted_by w e @ sent_stream w xs"
  by (simp_all add: sent_stream_def)

section \<open>Calls that fail\<close>

text \<open>
  The name of the call that an event records, if the call failed; \<open>ext\<close> says so for the calls
  that a back end adds. A run of calls ends in a failure if all but its last one succeeded, and
  the last one failed and was reported under its name.
\<close>

fun failed_call :: "('x \<Rightarrow> string option) \<Rightarrow> 'x posix_ev \<Rightarrow> string option" where
  "failed_call ext (EvSocket fd) = (if fd = - 1 then Some ''socket'' else None)"
| "failed_call ext (EvBind fd a r) = (if r = - 1 then Some ''bind'' else None)"
| "failed_call ext (EvListen fd n r) = (if r = - 1 then Some ''listen'' else None)"
| "failed_call ext (EvConnect fd a r) = (if r = - 1 then Some ''connect'' else None)"
| "failed_call ext (EvPipe p) = (if p = None then Some ''pipe'' else None)"
| "failed_call ext (EvExt x) = ext x"
| "failed_call ext e = None"

definition ends_in_failure ::
    "('x \<Rightarrow> string option) \<Rightarrow> 'x posix_ev list \<Rightarrow> 'x posix_ev list \<Rightarrow> bool" where
  "ends_in_failure ext h h' \<longleftrightarrow>
     (\<exists>es e msg. h' = h @ es @ [e, EvPerror msg] \<and> failed_call ext e = Some msg \<and>
        list_all (\<lambda>e. failed_call ext e = None) es)"

lemma ends_in_failureI:
  "h' = h @ es @ [e, EvPerror msg] \<Longrightarrow> failed_call ext e = Some msg \<Longrightarrow>
     list_all (\<lambda>e. failed_call ext e = None) es \<Longrightarrow> ends_in_failure ext h h'"
  by (auto simp: ends_in_failure_def)

text \<open>The shapes in which the set-up functions reach a failure.\<close>

lemma ends_in_failure_run:
  "failed_call ext e = Some msg \<Longrightarrow> ends_in_failure ext h (h @ [e, EvPerror msg])"
  "failed_call ext a = None \<Longrightarrow> failed_call ext e = Some msg \<Longrightarrow>
     ends_in_failure ext h (h @ [a, e, EvPerror msg])"
  "failed_call ext a = None \<Longrightarrow> failed_call ext b = None \<Longrightarrow> failed_call ext e = Some msg \<Longrightarrow>
     ends_in_failure ext h (h @ [a, b, e, EvPerror msg])"
  "failed_call ext a = None \<Longrightarrow> failed_call ext b = None \<Longrightarrow> failed_call ext c = None \<Longrightarrow>
     failed_call ext e = Some msg \<Longrightarrow> ends_in_failure ext h (h @ [a, b, c, e, EvPerror msg])"
  by (rule ends_in_failureI [where es = "[]"] ends_in_failureI [where es = "[a]"]
      ends_in_failureI [where es = "[a, b]"] ends_in_failureI [where es = "[a, b, c]"]; simp)+

end
