(* ===== verification/Interfaces.thy ===== *)
theory Interfaces
  imports Machine
begin

text \<open>
  The contracts that the back ends share, as locales: the run loop that a stop flag ends, the
  three callback slots with their setters, and the single slot for an outgoing message. Each
  locale names the operations as parameters and the laws the provider promises as assumptions;
  the consequences for the users are proved here once. The back ends interpret them on their own
  operations.
\<close>

section \<open>A loop that runs until a flag is set\<close>

text \<open>
  \<open>run k\<close> makes at most \<open>k\<close> tests of the flag; \<open>Out_Of_Fuel\<close> means that the loop was still
  running then.
\<close>

locale stop_loop =
  fixes stopped :: "'s \<Rightarrow> bool"
    and iteration :: "'s \<Rightarrow> (unit, 's) outcome"
    and run :: "nat \<Rightarrow> 's \<Rightarrow> (unit, 's) outcome"
  assumes run_0: "run 0 s = Out_Of_Fuel"
    and run_Suc: "run (Suc k) s =
      (if stopped s then Ret () s else and_then (iteration s) (\<lambda>_. run k))"
begin

lemma run_when_stopped: "stopped s \<Longrightarrow> run (Suc k) s = Ret () s"
  by (simp add: run_Suc)

lemma run_one: 
  "\<not> stopped s \<Longrightarrow> iteration s = Ret () t \<Longrightarrow> run (Suc k) s = run k t"
  by (simp add: run_Suc)

lemma run_returns_stopped: "run k s = Ret () t \<Longrightarrow> stopped t"
proof (induction k arbitrary: s)
  case 0
  then show ?case by (simp add: run_0)
next
  case (Suc k)
  then show ?case by (auto simp: run_Suc and_then_eq_Ret_iff split: if_splits)
qed

lemma run_more_fuel:
  assumes "run k s \<noteq> Out_Of_Fuel"
  shows "run (k + m) s = run k s"
  using assms
proof (induction k arbitrary: s)
  case 0
  then show ?case by (simp add: run_0)
next
  case (Suc k)
  then show ?case by (cases "iteration s") (auto simp: run_Suc)
qed

lemma run_fuel_unique:
  assumes "run j s \<noteq> Out_Of_Fuel" and "run k s \<noteq> Out_Of_Fuel"
  shows "run j s = run k s"
  using run_more_fuel [OF assms(1), of "k - j"] run_more_fuel [OF assms(2), of "j - k"]
  by (cases "j \<le> k") simp_all

lemma run_invariant:
  assumes "\<And>s. I s \<Longrightarrow> \<not> stopped s \<Longrightarrow> wp (iteration s) (\<lambda>_. I) X" and "I s"
  shows "wp (run k s) (\<lambda>_ t. I t \<and> stopped t) X"
  using assms(2)
proof (induction k arbitrary: s)
  case 0
  then show ?case by (simp add: run_0)
next
  case (Suc k)
  show ?case
  proof (cases "stopped s")
    case True
    then show ?thesis using Suc.prems by (simp add: run_Suc)
  next
    case False
    then show ?thesis
      using assms(1) [OF Suc.prems False] Suc.IH by (auto simp: run_Suc intro: wp_mono)
  qed
qed

lemma run_terminates:
  fixes rank :: "'s \<Rightarrow> nat"
  assumes "\<And>s. J s \<Longrightarrow> \<not> stopped s \<Longrightarrow> iteration s \<noteq> Out_Of_Fuel"
    and "\<And>s t. J s \<Longrightarrow> \<not> stopped s \<Longrightarrow> iteration s = Ret () t \<Longrightarrow>
      J t \<and> (stopped t \<or> rank t < rank s)"
    and "J s"
  shows "run (Suc (Suc (rank s))) s \<noteq> Out_Of_Fuel"
  using assms(3)
proof (induction "rank s" arbitrary: s rule: less_induct)
  case less
  show ?case
  proof (cases "stopped s \<or> (\<forall>t. iteration s \<noteq> Ret () t)")
    case True
    then show ?thesis
      using assms(1) less.prems by (cases "iteration s") (auto simp: run_Suc)
  next
    case False
    then obtain t where t: "iteration s = Ret () t" and ns: "\<not> stopped s" by auto
    with assms(2) less.prems have J: "J t" and "stopped t \<or> rank t < rank s" by auto
    from this(2) show ?thesis
    proof
      assume "stopped t"
      then show ?thesis using t ns by (simp add: run_Suc)
    next
      assume lt: "rank t < rank s"
      then have "run (Suc (Suc (rank t))) t \<noteq> Out_Of_Fuel" using J by (rule less.hyps)
      then have "run (Suc (rank s)) t \<noteq> Out_Of_Fuel"
        using lt run_more_fuel [of "Suc (Suc (rank t))" t "rank s - Suc (rank t)"] by simp
      then show ?thesis using t ns by (simp add: run_Suc [of "Suc (rank s)"])
    qed
  qed
qed

end

section \<open>Callback slots\<close>

text \<open>
  A callback pointer and the user data that goes with it; the pointer is the address of the
  function, 0 if there is none.
\<close>

type_synonym callback = "ptr \<times> ptr"

datatype slot = Receive_Slot | Sent_Slot | Accept_Slot

locale callback_slots =
  fixes set_cb :: "slot \<Rightarrow> callback \<Rightarrow> 's \<Rightarrow> 's"
    and get_cb :: "slot \<Rightarrow> 's \<Rightarrow> callback"
    and others :: "'s \<Rightarrow> 'r"
  assumes get_set: "get_cb i (set_cb j c s) = (if i = j then c else get_cb i s)"
    and others_set: "others (set_cb j c s) = others s"
begin

lemma fold_set:
  "get_cb i (fold (\<lambda>(j, c). set_cb j c) cs s) =
     (case map_of (rev cs) i of None \<Rightarrow> get_cb i s | Some c \<Rightarrow> c)"
proof (induction cs rule: rev_induct)
  case (snoc x xs)
  then show ?case by (cases x) (auto simp: get_set)
qed simp

lemma others_fold_set: "others (fold (\<lambda>(j, c). set_cb j c) cs s) = others s"
  by (induction cs rule: rev_induct) (auto simp: others_set)

end

section \<open>The slot for an outgoing message\<close>

text \<open>
  \<open>pending\<close> is what is left to be written of the message in the slot; \<open>delivered\<close> is the stream
  of bytes the kernel has accepted so far.
\<close>

datatype slot_op = Send_Op "byte list" | Writable_Op int

primrec slot_step ::
    "(byte list \<Rightarrow> 's \<Rightarrow> (int, 's) outcome) \<Rightarrow> (int \<Rightarrow> 's \<Rightarrow> (unit, 's) outcome) \<Rightarrow>
     slot_op \<Rightarrow> 's \<Rightarrow> (byte list, 's) outcome" where
  "slot_step send writable (Send_Op d) s =
     and_then (send d s) (\<lambda>r. Ret (if r = 0 then d else []))"
| "slot_step send writable (Writable_Op fd) s = and_then (writable fd s) (\<lambda>_. Ret [])"

text \<open>Any interleaving of sends and write events; the result is the data of the accepted sends.\<close>

primrec slot_run ::
    "(byte list \<Rightarrow> 's \<Rightarrow> (int, 's) outcome) \<Rightarrow> (int \<Rightarrow> 's \<Rightarrow> (unit, 's) outcome) \<Rightarrow>
     slot_op list \<Rightarrow> 's \<Rightarrow> (byte list, 's) outcome" where
  "slot_run send writable [] s = Ret [] s"
| "slot_run send writable (x # xs) s =
     and_then (slot_step send writable x s) (\<lambda>d s.
     and_then (slot_run send writable xs s) (\<lambda>ds. Ret (d @ ds)))"

fun slot_op_ok :: "int \<Rightarrow> slot_op \<Rightarrow> bool" where
  "slot_op_ok w (Send_Op d) = (length d < 2 ^ 64)"
| "slot_op_ok w (Writable_Op fd) = (fd \<noteq> w)"

definition outstanding :: "byte list option \<Rightarrow> byte list" where
  "outstanding p = (case p of None \<Rightarrow> [] | Some bs \<Rightarrow> bs)"

text \<open>
  The specification of the slot: an outbox holds at most one message. It takes a message if it
  is empty and answers -1 otherwise; the peer accepts some bytes of the message, and when it has
  accepted all of them the outbox is empty again; or the peer refuses for now.
\<close>

record outbox =
  ob_pending :: "byte list option"
  ob_sent :: "byte list"

datatype outbox_event = Offer "byte list" | Accept nat | Refuse

primrec outbox_step :: "outbox_event \<Rightarrow> outbox \<Rightarrow> int \<times> outbox" where
  "outbox_step (Offer d) b =
     (case ob_pending b of None \<Rightarrow> (0, b\<lparr>ob_pending := Some d\<rparr>) | Some _ \<Rightarrow> (- 1, b))"
| "outbox_step (Accept k) b =
     (case ob_pending b of
        None \<Rightarrow> (0, b)
      | Some bs \<Rightarrow> (0, \<lparr>ob_pending = (if length bs \<le> k then None else Some (drop k bs)),
                        ob_sent = ob_sent b @ take k bs\<rparr>))"
| "outbox_step Refuse b = (0, b)"

text \<open>A run of the outbox, with the answer to every event.\<close>

primrec outbox_run :: "outbox_event list \<Rightarrow> outbox \<Rightarrow> int list \<times> outbox" where
  "outbox_run [] b = ([], b)"
| "outbox_run (e # es) b =
     (let (r, b') = outbox_step e b; (rs, b'') = outbox_run es b' in (r # rs, b''))"

text \<open>The events of the outbox that may stand for an operation of the module.\<close>

fun event_of :: "slot_op \<Rightarrow> outbox_event \<Rightarrow> bool" where
  "event_of (Send_Op d) e = (e = Offer d)"
| "event_of (Writable_Op fd) (Offer d) = False"
| "event_of (Writable_Op fd) _ = True"

text \<open>The same operations on the module, with the values they return; a write event has none.\<close>

primrec slot_codes ::
    "(byte list \<Rightarrow> 's \<Rightarrow> (int, 's) outcome) \<Rightarrow> (int \<Rightarrow> 's \<Rightarrow> (unit, 's) outcome) \<Rightarrow>
     slot_op list \<Rightarrow> 's \<Rightarrow> (int list, 's) outcome" where
  "slot_codes send writable [] s = Ret [] s"
| "slot_codes send writable (x # xs) s =
     and_then (case x of
         Send_Op d \<Rightarrow> send d s
       | Writable_Op fd \<Rightarrow> and_then (writable fd s) (\<lambda>_. Ret 0)) (\<lambda>r s.
     and_then (slot_codes send writable xs s) (\<lambda>rs. Ret (r # rs)))"

locale send_slot =
  fixes invar :: "'s \<Rightarrow> bool"
    and pending :: "'s \<Rightarrow> byte list option"
    and delivered :: "'s \<Rightarrow> byte list"
    and send :: "byte list \<Rightarrow> 's \<Rightarrow> (int, 's) outcome"
    and writable :: "int \<Rightarrow> 's \<Rightarrow> (unit, 's) outcome"
    and wake_fd :: int
  assumes send_busy: "invar s \<Longrightarrow> pending s = Some bs \<Longrightarrow> send d s = Ret (- 1) s"
    and send_free: "invar s \<Longrightarrow> pending s = None \<Longrightarrow> length d < 2 ^ 64 \<Longrightarrow>
      wp (send d s) (\<lambda>r t. r = 0 \<and> invar t \<and> pending t = Some d \<and> delivered t = delivered s)
        (\<lambda>_ _. True)"
    and writable_idle: "invar s \<Longrightarrow> pending s = None \<Longrightarrow> writable fd s = Ret () s"
    and writable_step: "invar s \<Longrightarrow> pending s = Some bs \<Longrightarrow> fd \<noteq> wake_fd \<Longrightarrow>
      wp (writable fd s)
        (\<lambda>_ t. invar t \<and> (\<exists>k \<le> length bs. delivered t = delivered s @ take k bs \<and>
           ((k < length bs \<or> k = 0) \<and> pending t = Some (drop k bs) \<or>
             k = length bs \<and> pending t = None)))
        (\<lambda>_ _. True)"
begin

definition total :: "'s \<Rightarrow> byte list" where
  "total s = delivered s @ outstanding (pending s)"

lemma send_total:
  assumes "invar s" and "length d < 2 ^ 64"
  shows "wp (send d s)
    (\<lambda>r t. invar t \<and> total t = total s @ (if r = 0 then d else [])) (\<lambda>_ _. True)"
proof (cases "pending s")
  case None
  show ?thesis
    by (rule wp_mono [OF send_free [OF assms(1) None assms(2)]])
      (auto simp: total_def outstanding_def None)
next
  case (Some bs)
  then show ?thesis using send_busy [OF assms(1) Some] assms(1) by simp
qed

lemma writable_total:
  assumes "invar s" and "fd \<noteq> wake_fd"
  shows "wp (writable fd s) (\<lambda>_ t. invar t \<and> total t = total s) (\<lambda>_ _. True)"
proof (cases "pending s")
  case None
  then show ?thesis using writable_idle [OF assms(1) None] assms(1) by simp
next
  case (Some bs)
  show ?thesis
    by (rule wp_mono [OF writable_step [OF assms(1) Some assms(2)]])
      (auto simp: total_def outstanding_def Some)
qed

text \<open>Nothing is lost, duplicated or reordered, whatever the interleaving.\<close>

lemma run_total:
  assumes "invar s" and "list_all (slot_op_ok wake_fd) ops"
  shows "wp (slot_run send writable ops s)
    (\<lambda>ds t. invar t \<and> total t = total s @ ds) (\<lambda>_ _. True)"
  using assms
proof (induction ops arbitrary: s)
  case Nil
  then show ?case by simp
next
  case (Cons x ops)
  have step: "wp (slot_step send writable x s)
      (\<lambda>d t. invar t \<and> total t = total s @ d) (\<lambda>_ _. True)"
    using Cons.prems send_total [of s] writable_total [of s] by (cases x) auto
  show ?case
    unfolding slot_run.simps
  proof (rule wp_seq [OF step])
    fix d t assume "invar t \<and> total t = total s @ d"
    then show "wp (and_then (slot_run send writable ops t) (\<lambda>ds. Ret (d @ ds)))
        (\<lambda>ds t. invar t \<and> total t = total s @ ds) (\<lambda>_ _. True)"
      using Cons.prems(2) by (intro wp_seq [OF Cons.IH]) auto
  qed
qed

text \<open>The module refines the outbox.\<close>

definition box :: "'s \<Rightarrow> outbox" where
  "box s = \<lparr>ob_pending = pending s, ob_sent = delivered s\<rparr>"

lemma send_refines:
  assumes "invar s" and "length d < 2 ^ 64"
  shows "wp (send d s) (\<lambda>r t. invar t \<and> outbox_step (Offer d) (box s) = (r, box t))
    (\<lambda>_ _. True)"
proof (cases "pending s")
  case None
  show ?thesis
    by (rule wp_mono [OF send_free [OF assms(1) None assms(2)]]) (simp_all add: box_def None)
next
  case (Some bs)
  then show ?thesis using send_busy [OF assms(1) Some] assms(1) by (simp add: box_def)
qed

lemma writable_refines:
  assumes "invar s" and "fd \<noteq> wake_fd"
  shows "wp (writable fd s)
    (\<lambda>_ t. invar t \<and> (\<exists>e. event_of (Writable_Op fd) e \<and> outbox_step e (box s) = (0, box t)))
    (\<lambda>_ _. True)"
proof (cases "pending s")
  case None
  then show ?thesis
    using writable_idle [OF assms(1) None] assms(1)
    by (auto simp: box_def intro!: exI [of _ Refuse])
next
  case (Some bs)
  show ?thesis
  proof (rule wp_mono [OF writable_step [OF assms(1) Some assms(2)]])
    fix a t
    assume "invar t \<and> (\<exists>k\<le>length bs. delivered t = delivered s @ take k bs \<and>
      ((k < length bs \<or> k = 0) \<and> pending t = Some (drop k bs) \<or>
        k = length bs \<and> pending t = None))"
    then obtain k where inv: "invar t" and del: "delivered t = delivered s @ take k bs"
      and k: "(k < length bs \<or> k = 0) \<and> pending t = Some (drop k bs) \<or>
        k = length bs \<and> pending t = None" by auto
    have "outbox_step (if k = 0 \<and> pending t \<noteq> None then Refuse else Accept k) (box s) =
        (0, box t)"
      using k del by (auto simp: box_def Some)
    moreover have "event_of (Writable_Op fd)
        (if k = 0 \<and> pending t \<noteq> None then Refuse else Accept k)" by simp
    ultimately show "invar t \<and>
        (\<exists>e. event_of (Writable_Op fd) e \<and> outbox_step e (box s) = (0, box t))"
      using inv by blast
  qed simp
qed

lemma run_refines:
  assumes "invar s" and "list_all (slot_op_ok wake_fd) ops"
  shows "wp (slot_codes send writable ops s)
    (\<lambda>rs t. invar t \<and> (\<exists>es. list_all2 event_of ops es \<and> outbox_run es (box s) = (rs, box t)))
    (\<lambda>_ _. True)"
  using assms
proof (induction ops arbitrary: s)
  case Nil
  then show ?case by simp
next
  case (Cons x ops)
  have step: "wp (case x of Send_Op d \<Rightarrow> send d s
       | Writable_Op fd \<Rightarrow> and_then (writable fd s) (\<lambda>_. Ret 0))
      (\<lambda>r t. invar t \<and> (\<exists>e. event_of x e \<and> outbox_step e (box s) = (r, box t))) (\<lambda>_ _. True)"
    using Cons.prems send_refines [of s] writable_refines [of s] by (cases x) simp_all
  show ?case
    unfolding slot_codes.simps
  proof (rule wp_seq [OF step])
    fix r t assume "invar t \<and> (\<exists>e. event_of x e \<and> outbox_step e (box s) = (r, box t))"
    then obtain e where t: "invar t" and e: "event_of x e" "outbox_step e (box s) = (r, box t)"
      by blast
    have "wp (slot_codes send writable ops t) (\<lambda>rs u. invar u \<and>
        (\<exists>es. list_all2 event_of (x # ops) es \<and> outbox_run es (box s) = (r # rs, box u)))
        (\<lambda>_ _. True)"
    proof (rule wp_mono [OF Cons.IH [OF t]])
      fix rs u assume "invar u \<and>
        (\<exists>es. list_all2 event_of ops es \<and> outbox_run es (box t) = (rs, box u))"
      then obtain es where "invar u" "list_all2 event_of ops es"
        "outbox_run es (box t) = (rs, box u)" by blast
      then show "invar u \<and> (\<exists>es. list_all2 event_of (x # ops) es \<and>
          outbox_run es (box s) = (r # rs, box u))"
        using e by (intro conjI exI [of _ "e # es"]) simp_all
    qed (use Cons.prems in simp_all)
    then show "wp (and_then (slot_codes send writable ops t) (\<lambda>rs. Ret (r # rs)))
        (\<lambda>rs u. invar u \<and> (\<exists>es. list_all2 event_of (x # ops) es \<and>
          outbox_run es (box s) = (rs, box u))) (\<lambda>_ _. True)"
      by simp
  qed
qed

end

locale eager_send_slot = send_slot +
  fixes eager :: bool
  assumes eager_step: "eager \<Longrightarrow> invar s \<Longrightarrow> pending s = Some bs \<Longrightarrow> fd \<noteq> wake_fd \<Longrightarrow>
      wp (writable fd s)
        (\<lambda>_ t. pending t = None \<or> (\<exists>bs'. pending t = Some bs' \<and> length bs' < length bs))
        (\<lambda>_ _. True)"
begin

lemma drains:
  assumes "eager" and "invar s" and "\<forall>fd \<in> set fds. fd \<noteq> wake_fd"
    and "\<forall>bs. pending s = Some bs \<longrightarrow> length bs < length fds"
  shows "wp (for_each writable fds s)
    (\<lambda>_ t. invar t \<and> pending t = None \<and> delivered t = total s) (\<lambda>_ _. True)"
  using assms
proof (induction fds arbitrary: s)
  case Nil
  then have "pending s = None" by (cases "pending s") auto
  then show ?case using Nil by (simp add: total_def outstanding_def)
next
  case (Cons fd fds)
  let ?P = "\<lambda>t. invar t \<and> total t = total s \<and>
    (\<forall>bs'. pending t = Some bs' \<longrightarrow> length bs' < length fds)"
  have step: "wp (writable fd s) (\<lambda>_. ?P) (\<lambda>_ _. True)"
  proof (cases "pending s")
    case None
    then show ?thesis using writable_idle [OF Cons.prems(2) None] Cons.prems(2) by simp
  next
    case (Some bs)
    have "wp (writable fd s) (\<lambda>_ t. (invar t \<and> total t = total s) \<and>
        (pending t = None \<or> (\<exists>bs'. pending t = Some bs' \<and> length bs' < length bs)))
        (\<lambda>_ _. True \<and> True)"
      using Cons.prems Some by (intro wp_conj writable_total eager_step) auto
    then show ?thesis
      by (rule wp_mono) (use Cons.prems(4) Some in auto)
  qed
  show ?case
    unfolding for_each.simps
  proof (rule wp_seq [OF step])
    fix a t assume t: "?P t"
    then show "wp (for_each writable fds t)
        (\<lambda>_ t. invar t \<and> pending t = None \<and> delivered t = total s) (\<lambda>_ _. True)"
      using Cons.IH [of t] Cons.prems(1,3) by simp
  qed
qed

end

text \<open>
  A peer whose acceptance of bytes is a function of the connection and of the message determines
  the run: which event of the outbox an operation stands for is then known in advance.
\<close>

fun op_event :: "(int \<Rightarrow> byte list \<Rightarrow> int) \<Rightarrow> slot_op \<Rightarrow> outbox \<Rightarrow> outbox_event" where
  "op_event peer (Send_Op d) b = Offer d"
| "op_event peer (Writable_Op fd) b =
     (case ob_pending b of
        None \<Rightarrow> Refuse
      | Some bs \<Rightarrow>
          if 0 < peer fd bs \<or> bs = [] \<and> peer fd bs = 0 then Accept (nat (peer fd bs))
          else Refuse)"

primrec outbox_exec ::
    "(int \<Rightarrow> byte list \<Rightarrow> int) \<Rightarrow> slot_op list \<Rightarrow> outbox \<Rightarrow> int list \<times> outbox" where
  "outbox_exec peer [] b = ([], b)"
| "outbox_exec peer (x # xs) b =
     (let (r, b') = outbox_step (op_event peer x b) b; (rs, b'') = outbox_exec peer xs b'
      in (r # rs, b''))"

locale steady_send_slot = send_slot +
  fixes steady :: bool
    and peer :: "int \<Rightarrow> byte list \<Rightarrow> int"
  assumes peer_bound: "steady \<Longrightarrow> invar s \<Longrightarrow> peer fd bs \<le> int (length bs)"
    and steady_step: "steady \<Longrightarrow> invar s \<Longrightarrow> pending s = Some bs \<Longrightarrow> fd \<noteq> wake_fd \<Longrightarrow>
      wp (writable fd s)
        (\<lambda>_ t. invar t \<and> delivered t = delivered s @ take (nat (peer fd bs)) bs \<and>
           pending t = (if peer fd bs = int (length bs) then None
                        else Some (drop (nat (peer fd bs)) bs)))
        (\<lambda>_ _. True)"
begin

lemma steady_refines:
  assumes "steady" and "invar s" and "fd \<noteq> wake_fd"
  shows "wp (writable fd s)
    (\<lambda>_ t. invar t \<and> outbox_step (op_event peer (Writable_Op fd) (box s)) (box s) = (0, box t))
    (\<lambda>_ _. True)"
proof (cases "pending s")
  case None
  then show ?thesis using writable_idle [OF assms(2) None] assms(2) by (simp add: box_def)
next
  case (Some bs)
  show ?thesis
    by (rule wp_mono [OF steady_step [OF assms(1,2) Some assms(3)]])
      (use peer_bound [OF assms(1,2), of fd bs] in \<open>auto simp: box_def Some nat_le_iff\<close>)
qed

lemma run_determined:
  assumes "steady" and "invar s" and "list_all (slot_op_ok wake_fd) ops"
  shows "wp (slot_codes send writable ops s)
    (\<lambda>rs t. invar t \<and> outbox_exec peer ops (box s) = (rs, box t)) (\<lambda>_ _. True)"
  using assms(2,3)
proof (induction ops arbitrary: s)
  case Nil
  then show ?case by simp
next
  case (Cons x ops)
  have step: "wp (case x of Send_Op d \<Rightarrow> send d s
       | Writable_Op fd \<Rightarrow> and_then (writable fd s) (\<lambda>_. Ret 0))
      (\<lambda>r t. invar t \<and> outbox_step (op_event peer x (box s)) (box s) = (r, box t))
      (\<lambda>_ _. True)"
    using Cons.prems send_refines [of s] steady_refines [OF assms(1), of s]
    by (cases x) (simp_all del: op_event.simps(2) outbox_step.simps)
  show ?case
    unfolding slot_codes.simps
  proof (rule wp_seq [OF step])
    fix r t
    assume t: "invar t \<and> outbox_step (op_event peer x (box s)) (box s) = (r, box t)"
    show "wp (and_then (slot_codes send writable ops t) (\<lambda>rs. Ret (r # rs)))
        (\<lambda>rs u. invar u \<and> outbox_exec peer (x # ops) (box s) = (rs, box u)) (\<lambda>_ _. True)"
      by (rule wp_seq [OF Cons.IH]) (use t Cons.prems in simp_all)
  qed
qed

end

end
