(* ===== verification/Send_Request.thy ===== *)
theory Send_Request
  imports Machine
begin

text \<open>
  The heap objects of an outgoing message: the request structure and the block with its data.
  \<open>SendRequest\<close> is the structure of \<open>src/util/proactor_net_epoll.c\<close>; the kqueue back end uses a
  \<open>send_request_t\<close> with the same members. The lemmas are about the one shape the heap may have
  while such a request is (or is not) in flight, and are shared by both back ends.
\<close>

section \<open>Objects\<close>

text \<open>The member \<open>user_data\<close> is never assigned: \<open>None\<close> is its indeterminate value.\<close>

record SendRequest =
  sr_data :: ptr
  sr_length :: size_t
  sr_offset :: size_t
  sr_user_data :: "ptr option"

text \<open>A block fresh from \<open>malloc\<close>, a block of bytes, a request.\<close>

datatype send_cell =
    Raw_Cell nat
  | Bytes_Cell "byte list"
  | Request_Cell SendRequest

definition sizeof_SendRequest :: nat where
  "sizeof_SendRequest = 32"

definition blank_request :: SendRequest where
  "blank_request = \<lparr>sr_data = NULL, sr_length = 0, sr_offset = 0, sr_user_data = None\<rparr>"

section \<open>Typed accesses\<close>

definition load_request ::
    "ptr \<Rightarrow> ('e, send_cell, 'z) mach_scheme \<Rightarrow>
     (SendRequest, ('e, send_cell, 'z) mach_scheme) outcome" where
  "load_request p s =
     and_then (load_cell p s) (\<lambda>c s.
       case c of Request_Cell r \<Rightarrow> Ret r s | _ \<Rightarrow> Fault Wrong_Object)"

text \<open>The first member assigned turns the fresh block into a request.\<close>

definition update_request ::
    "ptr \<Rightarrow> (SendRequest \<Rightarrow> SendRequest) \<Rightarrow> ('e, send_cell, 'z) mach_scheme \<Rightarrow>
     (unit, ('e, send_cell, 'z) mach_scheme) outcome" where
  "update_request p f s =
     and_then (load_cell p s) (\<lambda>c s.
       case c of
         Request_Cell r \<Rightarrow> store_cell p (Request_Cell (f r)) s
       | Raw_Cell n \<Rightarrow>
           if sizeof_SendRequest \<le> n then store_cell p (Request_Cell (f blank_request)) s
           else Fault Out_Of_Bounds
       | Bytes_Cell bs \<Rightarrow> Fault Wrong_Object)"

text \<open>The \<open>n\<close> bytes from offset \<open>off\<close> of a block, as an argument of \<open>write\<close>.\<close>

definition read_block ::
    "ptr \<Rightarrow> nat \<Rightarrow> nat \<Rightarrow> ('e, send_cell, 'z) mach_scheme \<Rightarrow>
     (byte list, ('e, send_cell, 'z) mach_scheme) outcome" where
  "read_block p off n s =
     and_then (load_cell p s) (\<lambda>c s.
       case c of
         Bytes_Cell bs \<Rightarrow>
           if off + n \<le> length bs then Ret (take n (drop off bs)) s else Fault Out_Of_Bounds
       | _ \<Rightarrow> Fault Wrong_Object)"

text \<open>\<open>memcpy(p, src, n)\<close> into a fresh block; \<open>src\<close> is the whole array the caller passed.\<close>

definition memcpy_to ::
    "ptr \<Rightarrow> byte list \<Rightarrow> nat \<Rightarrow> ('e, send_cell, 'z) mach_scheme \<Rightarrow>
     (unit, ('e, send_cell, 'z) mach_scheme) outcome" where
  "memcpy_to p src n s =
     and_then (load_cell p s) (\<lambda>c s.
       case c of
         Raw_Cell k \<Rightarrow>
           if n \<le> k \<and> n \<le> length src then store_cell p (Bytes_Cell (take n src)) s
           else Fault Out_Of_Bounds
       | _ \<Rightarrow> Fault Wrong_Object)"

lemmas request_defs = load_request_def update_request_def read_block_def memcpy_to_def

text \<open>What the accesses leave alone, whether or not they are valid.\<close>

lemma wlp_load_request: "(\<And>r. Q r s) \<Longrightarrow> wlp (load_request p s) Q"
  by (simp add: load_request_def load_cell_def split: option.split send_cell.split)

lemma wlp_update_request:
  "(\<And>h. Q () (s\<lparr>heap := h\<rparr>)) \<Longrightarrow> wlp (update_request p f s) Q"
  by (simp add: update_request_def load_cell_def store_cell_def
      split: option.split send_cell.split)

lemma wlp_read_block: "(\<And>bs. Q bs s) \<Longrightarrow> wlp (read_block p off n s) Q"
  by (simp add: read_block_def load_cell_def split: option.split send_cell.split)

lemma wlp_memcpy_to: "(\<And>h. Q () (s\<lparr>heap := h\<rparr>)) \<Longrightarrow> wlp (memcpy_to p d n s) Q"
  by (simp add: memcpy_to_def load_cell_def store_cell_def split: option.split send_cell.split)

lemma wlp_sys_free:
  "Q () s \<Longrightarrow> (\<And>h. Q () ((emit (EvFree p) s)\<lparr>heap := h\<rparr>)) \<Longrightarrow> wlp (sys_free p s) Q"
  by (simp add: sys_free_def drop_cell_def split: option.split)

lemma wlp_load_seq:
  "(\<And>r. wlp (k r s) R) \<Longrightarrow> wlp (and_then (load_request p s) k) R"
  by (simp add: wlp_load_request)

lemma wlp_update_seq:
  "(\<And>h. wlp (k () (s\<lparr>heap := h\<rparr>)) R) \<Longrightarrow> wlp (and_then (update_request p f s) k) R"
  by (simp add: wlp_update_request)

lemma wlp_read_seq:
  "(\<And>bs. wlp (k bs s) R) \<Longrightarrow> wlp (and_then (read_block p off n s) k) R"
  by (simp add: wlp_read_block)

lemmas wlp_request_seqs = wlp_load_seq wlp_update_seq wlp_read_seq

lemmas wlp_request_intros = wlp_load_request wlp_update_request wlp_read_block wlp_memcpy_to
  wlp_sys_free

section \<open>The shape of the heap\<close>

text \<open>
  No request: nothing is allocated. A request: the request and its data block are allocated, and
  nothing else; the block has the recorded length and the offset is within it.
\<close>

definition request_in :: "ptr \<Rightarrow> (ptr \<Rightarrow> send_cell option) \<Rightarrow> SendRequest \<Rightarrow> byte list \<Rightarrow> bool" where
  "request_in cur h r bs \<longleftrightarrow>
     cur \<noteq> NULL \<and> sr_data r \<noteq> NULL \<and> sr_data r \<noteq> cur \<and>
     h = [cur \<mapsto> Request_Cell r, sr_data r \<mapsto> Bytes_Cell bs] \<and>
     unat (sr_length r) = length bs \<and> sr_offset r \<le> sr_length r"

definition slot_shape :: "ptr \<Rightarrow> (ptr \<Rightarrow> send_cell option) \<Rightarrow> bool" where
  "slot_shape cur h \<longleftrightarrow> cur = NULL \<and> h = Map.empty \<or> (\<exists>r bs. request_in cur h r bs)"

definition slot_pending :: "ptr \<Rightarrow> (ptr \<Rightarrow> send_cell option) \<Rightarrow> byte list option" where
  "slot_pending cur h =
     (if cur = NULL then None
      else case h cur of
        Some (Request_Cell r) \<Rightarrow>
          (case h (sr_data r) of
             Some (Bytes_Cell bs) \<Rightarrow> Some (drop (unat (sr_offset r)) bs)
           | _ \<Rightarrow> None)
      | _ \<Rightarrow> None)"

lemma slot_shape_empty [simp]: "slot_shape NULL h \<longleftrightarrow> h = Map.empty"
  by (auto simp: slot_shape_def request_in_def)

lemma slot_pending_NULL [simp]: "slot_pending NULL h = None"
  by (simp add: slot_pending_def)

lemma slot_shape_request: "cur \<noteq> NULL \<Longrightarrow> slot_shape cur h \<longleftrightarrow> (\<exists>r bs. request_in cur h r bs)"
  by (simp add: slot_shape_def)

lemma request_inD:
  assumes "request_in cur h r bs"
  shows "cur \<noteq> NULL" "sr_data r \<noteq> NULL" "sr_data r \<noteq> cur" "cur \<noteq> sr_data r"
    "h cur = Some (Request_Cell r)" "h (sr_data r) = Some (Bytes_Cell bs)"
    "unat (sr_length r) = length bs" "unat (sr_offset r) \<le> length bs"
    "sr_offset r \<le> sr_length r"
    "unat (sr_length r - sr_offset r) = length bs - unat (sr_offset r)"
  using assms by (auto simp: request_in_def word_le_nat_alt unat_sub)

lemma slot_pending_request:
  "request_in cur h r bs \<Longrightarrow> slot_pending cur h = Some (drop (unat (sr_offset r)) bs)"
  by (auto simp: slot_pending_def request_inD)

lemma slot_pending_None_iff: "slot_shape cur h \<Longrightarrow> slot_pending cur h = None \<longleftrightarrow> cur = NULL"
  using slot_pending_request by (fastforce simp: slot_shape_def)

text \<open>The offset moves on by what \<open>write\<close> has accepted, without wrap-around.\<close>

lemma offset_advance:
  assumes "request_in cur h r bs" and "0 \<le> n" and "n \<le> int (length bs - unat (sr_offset r))"
  shows "unat (sr_offset r + word_of_int n) = unat (sr_offset r) + nat n"
proof -
  have "unat (sr_offset r) + nat n \<le> length bs"
    using assms(3) request_inD(8) [OF assms(1)] by linarith
  also have "length bs < 2 ^ 64"
    using request_inD(7) [OF assms(1)] unsigned_less [of "sr_length r", where ?'a = nat] by simp
  finally have lt: "unat (sr_offset r) + nat n < 2 ^ 64" .
  have "(word_of_int n :: size_t) = of_nat (nat n)"
    using assms(2) by (metis int_nat_eq of_int_of_nat_eq)
  moreover have "unat (of_nat (nat n) :: size_t) = nat n"
    using lt by (simp add: unat_of_nat)
  ultimately show ?thesis
    using lt by (simp add: unat_word_ariths)
qed

lemma request_in_advance:
  assumes "request_in cur h r bs" and "0 \<le> n" and "n \<le> int (length bs - unat (sr_offset r))"
  shows "request_in cur (h(cur \<mapsto> Request_Cell (r\<lparr>sr_offset := sr_offset r + word_of_int n\<rparr>)))
    (r\<lparr>sr_offset := sr_offset r + word_of_int n\<rparr>) bs"
proof -
  have "unat (sr_offset r + word_of_int n) \<le> length bs"
    using offset_advance [OF assms] assms(2,3) request_inD(8) [OF assms(1)] by linarith
  then show ?thesis
    using assms(1) by (auto simp: request_in_def word_le_nat_alt fun_upd_twist)
qed

lemma request_in_cleared:
  "request_in cur h r bs \<Longrightarrow> h(sr_data r := None, cur := None) = Map.empty"
  by (auto simp: request_in_def)

lemma request_in_new:
  assumes "cur \<noteq> NULL" "d \<noteq> NULL" "d \<noteq> cur" "unat n \<le> length src"
  shows "request_in cur
    [cur \<mapsto> Request_Cell \<lparr>sr_data = d, sr_length = n, sr_offset = 0, sr_user_data = u\<rparr>,
     d \<mapsto> Bytes_Cell (take (unat n) src)]
    \<lparr>sr_data = d, sr_length = n, sr_offset = 0, sr_user_data = u\<rparr> (take (unat n) src)"
  using assms by (simp add: request_in_def)

end
