(* ===== verification/Message_Slot.thy ===== *)
theory Message_Slot
  imports Interfaces Send_Request
begin

text \<open>
  The write handler that the epoll and the kqueue back end share word for word, over any state
  with a heap and a trace: \<open>cur\<close> is the static pointer to the current request, \<open>clear\<close> sets it to
  null, and \<open>complete\<close> calls the callback for a completed message. The locale \<open>message_slot\<close> is
  what the proof needs of a back end; both back ends are instances of it.
\<close>

section \<open>The handler\<close>

definition write_slot ::
    "('x, 'y) posix_scheme \<Rightarrow> (('x posix_ev, send_cell, 'z) mach_scheme \<Rightarrow> ptr) \<Rightarrow>
     (('x posix_ev, send_cell, 'z) mach_scheme \<Rightarrow> ('x posix_ev, send_cell, 'z) mach_scheme) \<Rightarrow>
     (int \<Rightarrow> ('x posix_ev, send_cell, 'z) mach_scheme \<Rightarrow>
       (unit, ('x posix_ev, send_cell, 'z) mach_scheme) outcome) \<Rightarrow>
     int \<Rightarrow> ('x posix_ev, send_cell, 'z) mach_scheme \<Rightarrow>
     (unit, ('x posix_ev, send_cell, 'z) mach_scheme) outcome" where
  "write_slot os cur clear complete fd s =
     (if cur s \<noteq> NULL
      then
        and_then (load_request (cur s) s) (\<lambda>r s.
        and_then (read_block (sr_data r) (unat (sr_offset r))
            (unat (sr_length r - sr_offset r)) s) (\<lambda>bs s.
        and_then (sys_write os fd bs s) (\<lambda>bytes_sent s.
        if bytes_sent < 0 then Ret () (emit (EvPerror ''write'') s)
        else
          and_then (update_request (cur s)
              (\<lambda>r. r\<lparr>sr_offset := sr_offset r + word_of_int bytes_sent\<rparr>) s) (\<lambda>_ s.
          and_then (load_request (cur s) s) (\<lambda>r s.
          if sr_offset r \<ge> sr_length r
          then
            and_then (complete fd s) (\<lambda>_ s.
            and_then (load_request (cur s) s) (\<lambda>r s.
            and_then (sys_free (sr_data r) s) (\<lambda>_ s.
            and_then (sys_free (cur s) s) (\<lambda>_ s.
            Ret () (clear s)))))
          else Ret () s)))))
      else Ret () s)"

section \<open>Its invariant and view\<close>

text \<open>\<open>good\<close> is what else holds of the state and its environment.\<close>

definition slot_inv ::
    "(('e, send_cell, 'z) mach_scheme \<Rightarrow> bool) \<Rightarrow> (('e, send_cell, 'z) mach_scheme \<Rightarrow> ptr) \<Rightarrow>
     ('e, send_cell, 'z) mach_scheme \<Rightarrow> bool" where
  "slot_inv good cur s \<longleftrightarrow> good s \<and> heap_bounded s \<and> slot_shape (cur s) (heap s)"

text \<open>
  What an application callback may not do behind the back of the module: touch a message in
  flight, or write to a peer.
\<close>

definition slot_keeps ::
    "int \<Rightarrow> (('x posix_ev, send_cell, 'z) mach_scheme \<Rightarrow> ptr) \<Rightarrow>
     ('x posix_ev, send_cell, 'z) mach_scheme \<Rightarrow> ('x posix_ev, send_cell, 'z) mach_scheme \<Rightarrow>
     bool" where
  "slot_keeps w cur s t \<longleftrightarrow>
     (cur s \<noteq> NULL \<longrightarrow> cur t = cur s \<and> heap t = heap s) \<and>
     sent_stream w (trace t) = sent_stream w (trace s)"

definition slot_out ::
    "(('e, send_cell, 'z) mach_scheme \<Rightarrow> ptr) \<Rightarrow> ('e, send_cell, 'z) mach_scheme \<Rightarrow>
     byte list option" where
  "slot_out cur s = slot_pending (cur s) (heap s)"

lemma slot_out_None_iff: "slot_inv good cur s \<Longrightarrow> slot_out cur s = None \<longleftrightarrow> cur s = NULL"
  by (simp add: slot_out_def slot_inv_def slot_pending_None_iff)

lemma slot_out_SomeE:
  assumes "slot_inv good cur s" and "slot_out cur s = Some p"
  obtains r bs where "request_in (cur s) (heap s) r bs" and "p = drop (unat (sr_offset r)) bs"
proof -
  have "cur s \<noteq> NULL"
    using assms slot_out_None_iff by fastforce
  with assms(1) obtain r bs where "request_in (cur s) (heap s) r bs"
    by (auto simp: slot_inv_def slot_shape_request)
  then show thesis
    using that assms(2) slot_pending_request by (simp add: slot_out_def)
qed

text \<open>A kernel whose answers to writes do not depend on what has happened before.\<close>

definition steady_writes :: "(int \<Rightarrow> byte list \<Rightarrow> int) \<Rightarrow> ('x, 'y) posix_scheme \<Rightarrow> bool" where
  "steady_writes peer os \<longleftrightarrow> (\<forall>h fd bs. os_write os h fd bs = peer fd bs)"

lemma steady_peer_bound:
  "steady_writes peer os \<Longrightarrow> posix_ok os \<Longrightarrow> peer fd bs \<le> int (length bs)"
  using posix_okD(3) [of os "[]" fd bs] by (simp add: steady_writes_def)

section \<open>The handler keeps the invariant and advances the message\<close>

locale message_slot =
  fixes os :: "('x, 'y) posix_scheme"
    and good :: "('x posix_ev, send_cell, 'z) mach_scheme \<Rightarrow> bool"
    and cur :: "('x posix_ev, send_cell, 'z) mach_scheme \<Rightarrow> ptr"
    and clear ::
      "('x posix_ev, send_cell, 'z) mach_scheme \<Rightarrow> ('x posix_ev, send_cell, 'z) mach_scheme"
    and complete :: "int \<Rightarrow> ('x posix_ev, send_cell, 'z) mach_scheme \<Rightarrow>
      (unit, ('x posix_ev, send_cell, 'z) mach_scheme) outcome"
    and w :: int
  assumes good_posix: "good s \<Longrightarrow> posix_ok os"
    and good_emit: "good (emit e s) = good s"
    and good_heap: "good (s\<lparr>heap := h\<rparr>) = good s"
    and good_clear: "good (clear s) = good s"
    and cur_emit: "cur (emit e s) = cur s"
    and cur_heap: "cur (s\<lparr>heap := h\<rparr>) = cur s"
    and cur_clear: "cur (clear s) = NULL"
    and clear_mach: "trace (clear s) = trace s" "heap (clear s) = heap s" "brk (clear s) = brk s"
    and complete_inv: "slot_inv good cur s \<Longrightarrow>
      wp (complete fd s) (\<lambda>_ t. slot_inv good cur t \<and> slot_keeps w cur s t) (\<lambda>_ _. True)"
begin

lemmas frames [simp] = good_emit good_heap good_clear cur_emit cur_heap cur_clear clear_mach

lemma inv_emit [simp]: "slot_inv good cur (emit e s) = slot_inv good cur s"
  by (simp add: slot_inv_def)

lemma write_idle: "cur s = NULL \<Longrightarrow> write_slot os cur clear complete fd s = Ret () s"
  by (simp add: write_slot_def)

text \<open>Releasing the message in the slot after its last byte.\<close>

lemma release:
  assumes "slot_inv good cur t" and "request_in (cur t) (heap t) r bs"
  shows "wp
    (and_then (load_request (cur t) t) (\<lambda>r s.
     and_then (sys_free (sr_data r) s) (\<lambda>_ s.
     and_then (sys_free (cur s) s) (\<lambda>_ s.
     Ret () (clear s)))))
    (\<lambda>_ u. slot_inv good cur u \<and> slot_out cur u = None \<and>
       sent_stream w (trace u) = sent_stream w (trace t)) X"
proof -
  have "(heap t)(sr_data r := None, cur t := None) = Map.empty"
    using assms(2) by (rule request_in_cleared)
  moreover note request_inD [OF assms(2), simp]
  ultimately show ?thesis
    using assms(1)
    by (simp add: load_request_def sys_free_def slot_inv_def slot_out_def heap_bounded_def)
qed

lemma write_pending:
  fixes fd :: int
  assumes inv: "slot_inv good cur s" and pend: "slot_out cur s = Some p"
  defines "n \<equiv> os_write os (trace s) fd p"
  shows "wp (write_slot os cur clear complete fd s)
    (\<lambda>_ t. slot_inv good cur t \<and>
       sent_stream w (trace t) = sent_stream w (trace s) @ (if fd = w then [] else take (nat n) p) \<and>
       slot_out cur t = (if n = int (length p) then None else Some (drop (nat n) p)))
    (\<lambda>_ _. True)"
proof -
  obtain r bs where req: "request_in (cur s) (heap s) r bs"
    and p_def: "p = drop (unat (sr_offset r)) bs"
    using inv pend by (rule slot_out_SomeE)
  note req_simps [simp] = request_inD [OF req]
  let ?s1 = "emit (EvWrite fd p n) s"
  have n: "- 1 \<le> n" "n \<le> int (length p)"
    unfolding n_def using posix_okD [OF good_posix, of s] inv by (simp_all add: slot_inv_def)
  have wr: "os_write os (trace s) fd (drop (unat (sr_offset r)) bs) = n"
    by (simp add: n_def p_def)
  show ?thesis
  proof (cases "n < 0")
    case True
    then have "wp (write_slot os cur clear complete fd s)
      (\<lambda>_ t. t = emit (EvPerror ''write'') ?s1) (\<lambda>_ _. True)"
      by (simp add: write_slot_def request_defs sys_defs p_def wr)
    then show ?thesis
      by (rule wp_mono) (use inv pend True in \<open>auto simp: slot_out_def\<close>)
  next
    case False
    let ?r = "r\<lparr>sr_offset := sr_offset r + word_of_int n\<rparr>"
    let ?s2 = "?s1\<lparr>heap := (heap s)(cur s \<mapsto> Request_Cell ?r)\<rparr>"
    have k: "nat n \<le> length p" "n \<le> int (length bs - unat (sr_offset r))" "0 \<le> n"
      using n(2) False by (simp_all add: p_def nat_le_iff)
    have req2: "request_in (cur s) (heap ?s2) ?r bs"
      using request_in_advance [OF req k(3,2)] by simp
    have inv2: "slot_inv good cur ?s2"
      using inv req2 by (auto simp: slot_inv_def heap_bounded_def slot_shape_def)
    have off: "unat (sr_offset ?r) = unat (sr_offset r) + nat n"
      using offset_advance [OF req k(3,2)] by simp
    have full: "sr_length ?r \<le> sr_offset ?r \<longleftrightarrow> nat n = length p"
      using off k(1) by (simp add: word_le_nat_alt p_def) arith
    have pend2: "slot_out cur ?s2 = Some (drop (nat n) p)"
      using slot_pending_request [OF req2] off by (simp add: slot_out_def p_def ac_simps)
    let ?rel = "\<lambda>s. and_then (load_request (cur s) s) (\<lambda>r s.
      and_then (sys_free (sr_data r) s) (\<lambda>_ s.
      and_then (sys_free (cur s) s) (\<lambda>_ s.
      Ret () (clear s))))"
    have run: "write_slot os cur clear complete fd s =
        (if nat n = length p then and_then (complete fd ?s2) (\<lambda>_. ?rel) else Ret () ?s2)"
      using False full
      by (simp add: write_slot_def request_defs sys_defs p_def wr)
    have stream: "sent_stream w (trace ?s2) =
        sent_stream w (trace s) @ (if fd = w then [] else take (nat n) p)"
      by simp
    show ?thesis
    proof (cases "nat n = length p")
      case True
      have "wp (and_then (complete fd ?s2) (\<lambda>_. ?rel)) (\<lambda>_ u. slot_inv good cur u \<and>
          slot_out cur u = None \<and>
          sent_stream w (trace u) = sent_stream w (trace ?s2)) (\<lambda>_ _. True)"
      proof (rule wp_seq [OF complete_inv [OF inv2]])
        fix a t assume t: "slot_inv good cur t \<and> slot_keeps w cur ?s2 t"
        then have "request_in (cur t) (heap t) ?r bs"
          using req2 by (simp add: slot_keeps_def)
        from release [OF _ this] t
        show "wp (?rel t) (\<lambda>_ u. slot_inv good cur u \<and> slot_out cur u = None \<and>
            sent_stream w (trace u) = sent_stream w (trace ?s2)) (\<lambda>_ _. True)"
          by (simp add: slot_keeps_def)
      qed
      then show ?thesis
        unfolding run if_P [OF True]
        by (rule wp_mono) (use stream True False in auto)
    next
      case ne: False
      then show ?thesis
        using run inv2 pend2 stream k(1) by auto
    qed
  qed
qed

text \<open>The laws of a slot, as the contract \<open>send_slot\<close> has them.\<close>

lemma write_law:
  assumes inv: "slot_inv good cur s" and pend: "slot_out cur s = Some p" and fd: "fd \<noteq> w"
  shows "wp (write_slot os cur clear complete fd s)
    (\<lambda>_ t. slot_inv good cur t \<and> (\<exists>k \<le> length p.
       sent_stream w (trace t) = sent_stream w (trace s) @ take k p \<and>
       ((k < length p \<or> k = 0) \<and> slot_out cur t = Some (drop k p) \<or>
         k = length p \<and> slot_out cur t = None)))
    (\<lambda>_ _. True)"
proof -
  have "os_write os (trace s) fd p \<le> int (length p)"
    using posix_okD(3) [OF good_posix, of s] inv by (simp add: slot_inv_def)
  then show ?thesis
    by (intro wp_mono [OF write_pending [OF inv pend]])
      (use fd in \<open>auto simp: nat_le_iff intro!: exI [of _ "nat (os_write os (trace s) fd p)"]\<close>)
qed

lemma write_eager:
  assumes inv: "slot_inv good cur s" and pend: "slot_out cur s = Some p"
    and eager: "0 \<le> os_write os (trace s) fd p" "p \<noteq> [] \<Longrightarrow> 0 < os_write os (trace s) fd p"
  shows "wp (write_slot os cur clear complete fd s)
    (\<lambda>_ t. slot_out cur t = None \<or> (\<exists>p'. slot_out cur t = Some p' \<and> length p' < length p))
    (\<lambda>_ _. True)"
proof -
  have "os_write os (trace s) fd p \<le> int (length p)"
    using posix_okD(3) [OF good_posix, of s] inv by (simp add: slot_inv_def)
  then show ?thesis
    by (intro wp_mono [OF write_pending [OF inv pend]]) (use eager in \<open>cases "p = []"; auto\<close>)
qed

lemma write_steady:
  assumes inv: "slot_inv good cur s" and pend: "slot_out cur s = Some p" and fd: "fd \<noteq> w"
    and steady: "steady_writes peer os"
  shows "wp (write_slot os cur clear complete fd s)
    (\<lambda>_ t. slot_inv good cur t \<and>
       sent_stream w (trace t) = sent_stream w (trace s) @ take (nat (peer fd p)) p \<and>
       slot_out cur t =
         (if peer fd p = int (length p) then None else Some (drop (nat (peer fd p)) p)))
    (\<lambda>_ _. True)"
proof -
  have "os_write os (trace s) fd p = peer fd p" using steady by (simp add: steady_writes_def)
  from write_pending [OF inv pend, of fd, unfolded this] fd show ?thesis by simp
qed

end

end
