(* ===== verification/Epoll.thy ===== *)
theory Epoll
  imports Interfaces Send_Request
begin

unbundle bit_operations_syntax

text \<open>
  The epoll back end \<open>src/util/proactor_net_epoll.c\<close>: its static variables as a record over the
  machine, and every function of the file. The application's callbacks are a parameter \<open>app\<close>: the
  code behind a callback pointer, run on the whole state, so that it may call back into the API.
  \<open>Epoll_Props\<close> has the proofs.
\<close>

section \<open>System calls of the back end\<close>

datatype epoll_op = EPOLL_CTL_ADD | EPOLL_CTL_MOD | EPOLL_CTL_DEL

definition EPOLLIN :: u32 where
  "EPOLLIN = 1"

definition EPOLLOUT :: u32 where
  "EPOLLOUT = 4"

definition BUFFER_SIZE :: nat where
  "BUFFER_SIZE = 8192"

definition MAX_EVENTS :: nat where
  "MAX_EVENTS = 64"

text \<open>The constant of the system headers; nothing depends on its value.\<close>

definition SOMAXCONN :: int where
  "SOMAXCONN = 4096"

text \<open>The result of \<open>epoll_wait\<close>: -1 and the value of \<open>errno\<close>, or the ready descriptors.\<close>

datatype wait_result = Wait_Error int | Wait_Events "(int \<times> u32) list"

text \<open>
  The calls beyond POSIX: those of epoll, and the callbacks. A callback event has the called
  function pointer, the arguments, and the user data last. \<open>AppSent\<close> is not a call: it records
  that an application has sent a message, and the answer it got (see \<open>do_call\<close>).
\<close>

datatype ep_x =
    EvEpollCreate int
  | EvEpollCtl int epoll_op int u32 int
  | EvEpollWait int nat wait_result
  | CbReceive ptr int "byte list" ptr
  | CbSent ptr int ptr
  | CbAccept ptr int int ptr
  | AppSent int "byte list" int

type_synonym ep_trace = "ep_x posix_ev list"

record epoll_os = "ep_x posix" +
  os_epoll_create1 :: "ep_trace \<Rightarrow> int"
  os_epoll_ctl :: "ep_trace \<Rightarrow> int \<Rightarrow> epoll_op \<Rightarrow> int \<Rightarrow> u32 \<Rightarrow> int"
  os_epoll_wait :: "ep_trace \<Rightarrow> int \<Rightarrow> nat \<Rightarrow> wait_result"

text \<open>What the documentation promises of \<open>epoll_wait\<close>: it never reports more than it was asked for.\<close>

definition epoll_ok :: "epoll_os \<Rightarrow> bool" where
  "epoll_ok os \<longleftrightarrow> posix_ok os \<and>
     (\<forall>h epfd n evs. os_epoll_wait os h epfd n = Wait_Events evs \<longrightarrow> length evs \<le> n)"

section \<open>State\<close>

record ep_state = "(ep_x posix_ev, send_cell) mach" +
  epoll_fd :: int
  server_socket :: int
  client_socket :: int
  wakeup_fds :: "int \<times> int"
  stop :: int
  receive_callback :: ptr
  send_complete_callback :: ptr
  accept_callback :: ptr
  receive_callback_user_data :: ptr
  send_complete_callback_user_data :: ptr
  accept_callback_user_data :: ptr
  current_send_request :: ptr

text \<open>The initial values; statics without an initialiser are zero.\<close>

definition ep_initial :: ep_state where
  "ep_initial = \<lparr>trace = [], heap = Map.empty, brk = 0,
     epoll_fd = 0, server_socket = - 1, client_socket = - 1, wakeup_fds = (0, 0), stop = 0,
     receive_callback = NULL, send_complete_callback = NULL, accept_callback = NULL,
     receive_callback_user_data = NULL, send_complete_callback_user_data = NULL,
     accept_callback_user_data = NULL, current_send_request = NULL\<rparr>"

type_synonym 'a ep_run = "ep_state \<Rightarrow> ('a, ep_state) outcome"
type_synonym ep_app = "ep_x \<Rightarrow> unit ep_run"

definition sys_epoll_create1 :: "epoll_os \<Rightarrow> int ep_run" where
  "sys_epoll_create1 os s =
     (let fd = os_epoll_create1 os (trace s) in Ret fd (emit (EvExt (EvEpollCreate fd)) s))"

definition sys_epoll_ctl :: "epoll_os \<Rightarrow> int \<Rightarrow> epoll_op \<Rightarrow> int \<Rightarrow> u32 \<Rightarrow> int ep_run" where
  "sys_epoll_ctl os epfd oper fd events s =
     (let r = os_epoll_ctl os (trace s) epfd oper fd events in
      Ret r (emit (EvExt (EvEpollCtl epfd oper fd events r)) s))"

definition sys_epoll_wait :: "epoll_os \<Rightarrow> int \<Rightarrow> nat \<Rightarrow> wait_result ep_run" where
  "sys_epoll_wait os epfd n s =
     (let r = os_epoll_wait os (trace s) epfd n in
      Ret r (emit (EvExt (EvEpollWait epfd n r)) s))"

text \<open>Calling through a callback pointer: the call is recorded, then the application runs.\<close>

definition call_app :: "ep_app \<Rightarrow> ep_x \<Rightarrow> unit ep_run" where
  "call_app app cb s = app cb (emit (EvExt cb) s)"

section \<open>Setting up and tearing down\<close>

definition proactor_tcp_epoll_init :: "epoll_os \<Rightarrow> int ep_run" where
  "proactor_tcp_epoll_init os s =
     and_then (sys_epoll_create1 os s) (\<lambda>fd s.
     let s = s\<lparr>epoll_fd := fd\<rparr> in
     and_then (check (epoll_fd s = - 1) ''epoll_create1'' s) (\<lambda>_ s.
     and_then (sys_pipe os (wakeup_fds s) s) (\<lambda>(rc, fds) s.
     let s = s\<lparr>wakeup_fds := fds\<rparr> in
     and_then (check (rc = - 1) ''pipe'' s) (\<lambda>_ s.
     and_then (sys_epoll_ctl os (epoll_fd s) EPOLL_CTL_ADD (fst (wakeup_fds s)) EPOLLIN s)
       (\<lambda>rc s.
     and_then (check (rc = - 1) ''epoll_ctl'' s) (\<lambda>_ s.
     Ret 0 s))))))"

definition proactor_tcp_epoll_cleanup :: "unit ep_run" where
  "proactor_tcp_epoll_cleanup s =
     and_then (if server_socket s \<noteq> - 1 then sys_close (server_socket s) s else Ret () s) (\<lambda>_ s.
     and_then (if client_socket s \<noteq> - 1 then sys_close (client_socket s) s else Ret () s) (\<lambda>_ s.
     and_then
       (if fst (wakeup_fds s) \<noteq> - 1
        then and_then (sys_close (fst (wakeup_fds s)) s) (\<lambda>_ s. sys_close (snd (wakeup_fds s)) s)
        else Ret () s) (\<lambda>_ s.
     and_then (sys_close (epoll_fd s) s) (\<lambda>_ s.
     if current_send_request s \<noteq> NULL
     then and_then (load_request (current_send_request s) s) (\<lambda>r s.
          and_then (sys_free (sr_data r) s) (\<lambda>_ s.
          sys_free (current_send_request s) s))
     else Ret () s))))"

definition proactor_tcp_epoll_start_server :: "epoll_os \<Rightarrow> u16 \<Rightarrow> int ep_run" where
  "proactor_tcp_epoll_start_server os port s =
     and_then (sys_socket os s) (\<lambda>fd s.
     let s = s\<lparr>server_socket := fd\<rparr> in
     and_then (check (server_socket s = - 1) ''socket'' s) (\<lambda>_ s.
     let server_addr = \<lparr>sin_port = htons port, sin_addr = Some INADDR_ANY\<rparr> in
     and_then (sys_bind os (server_socket s) server_addr s) (\<lambda>rc s.
     and_then (check (rc = - 1) ''bind'' s) (\<lambda>_ s.
     and_then (sys_listen os (server_socket s) SOMAXCONN s) (\<lambda>rc s.
     and_then (check (rc = - 1) ''listen'' s) (\<lambda>_ s.
     and_then (sys_epoll_ctl os (epoll_fd s) EPOLL_CTL_ADD (server_socket s) EPOLLIN s) (\<lambda>rc s.
     and_then (check (rc = - 1) ''epoll_ctl'' s) (\<lambda>_ s.
     Ret 0 s))))))))"

text \<open>The result of \<open>inet_pton\<close> is not looked at: on failure the address is indeterminate.\<close>

definition proactor_tcp_epoll_connect :: "epoll_os \<Rightarrow> string \<Rightarrow> u16 \<Rightarrow> int ep_run" where
  "proactor_tcp_epoll_connect os address port s =
     and_then (sys_socket os s) (\<lambda>fd s.
     let s = s\<lparr>client_socket := fd\<rparr> in
     and_then (check (client_socket s = - 1) ''socket'' s) (\<lambda>_ s.
     let server_addr = \<lparr>sin_port = htons port, sin_addr = os_inet_pton os address\<rparr> in
     and_then (sys_connect os (client_socket s) server_addr s) (\<lambda>rc s.
     and_then (check (rc = - 1) ''connect'' s) (\<lambda>_ s.
     and_then (sys_epoll_ctl os (epoll_fd s) EPOLL_CTL_ADD (client_socket s)
         (EPOLLIN OR EPOLLOUT) s) (\<lambda>rc s.
     and_then (check (rc = - 1) ''epoll_ctl'' s) (\<lambda>_ s.
     Ret 0 s))))))"

section \<open>Event handlers\<close>

definition handle_data_event :: "epoll_os \<Rightarrow> ep_app \<Rightarrow> int \<Rightarrow> unit ep_run" where
  "handle_data_event os app fd s =
     and_then (sys_read os fd BUFFER_SIZE s) (\<lambda>(bytes_read, buffer) s.
     if bytes_read \<le> 0
     then let s = (if bytes_read < 0 then emit (EvPerror ''read'') s else s) in
          and_then (sys_close fd s) (\<lambda>_ s.
          and_then (sys_epoll_ctl os (epoll_fd s) EPOLL_CTL_DEL fd (EPOLLIN OR EPOLLOUT) s)
            (\<lambda>rc s.
          check (rc = - 1) ''epoll_ctl'' s))
     else if receive_callback s \<noteq> NULL
     then call_app app (CbReceive (receive_callback s) fd buffer (receive_callback_user_data s)) s
     else Ret () s)"

definition handle_write_event :: "epoll_os \<Rightarrow> ep_app \<Rightarrow> int \<Rightarrow> unit ep_run" where
  "handle_write_event os app fd s =
     (if current_send_request s \<noteq> NULL
      then
        and_then (load_request (current_send_request s) s) (\<lambda>r s.
        and_then (read_block (sr_data r) (unat (sr_offset r))
            (unat (sr_length r - sr_offset r)) s) (\<lambda>bs s.
        and_then (sys_write os fd bs s) (\<lambda>bytes_sent s.
        if bytes_sent < 0 then Ret () (emit (EvPerror ''write'') s)
        else
          and_then (update_request (current_send_request s)
              (\<lambda>r. r\<lparr>sr_offset := sr_offset r + word_of_int bytes_sent\<rparr>) s) (\<lambda>_ s.
          and_then (load_request (current_send_request s) s) (\<lambda>r s.
          if sr_offset r \<ge> sr_length r
          then
            and_then
              (if send_complete_callback s \<noteq> NULL
               then call_app app (CbSent (send_complete_callback s) fd
                      (send_complete_callback_user_data s)) s
               else Ret () s) (\<lambda>_ s.
            and_then (load_request (current_send_request s) s) (\<lambda>r s.
            and_then (sys_free (sr_data r) s) (\<lambda>_ s.
            and_then (sys_free (current_send_request s) s) (\<lambda>_ s.
            Ret () (s\<lparr>current_send_request := NULL\<rparr>)))))
          else Ret () s)))))
      else Ret () s)"

text \<open>The local variable \<open>client_socket\<close> hides the static one, which keeps its value.\<close>

definition handle_accept_event :: "epoll_os \<Rightarrow> ep_app \<Rightarrow> int \<Rightarrow> unit ep_run" where
  "handle_accept_event os app fd s =
     and_then (sys_accept os fd s) (\<lambda>client_socket s.
     if client_socket = - 1 then Ret () (emit (EvPerror ''accept'') s)
     else
       and_then
         (if accept_callback s \<noteq> NULL
          then call_app app (CbAccept (accept_callback s) fd client_socket
                 (accept_callback_user_data s)) s
          else Ret () s) (\<lambda>_ s.
       and_then (sys_epoll_ctl os (epoll_fd s) EPOLL_CTL_ADD client_socket
           (EPOLLIN OR EPOLLOUT) s) (\<lambda>rc s.
       check (rc = - 1) ''epoll_ctl'' s)))"

section \<open>The run loop\<close>

definition proactor_tcp_epoll_wake :: "epoll_os \<Rightarrow> unit ep_run" where
  "proactor_tcp_epoll_wake os s =
     and_then (sys_write os (snd (wakeup_fds s)) [1] s) (\<lambda>rc s.
     check (rc = - 1) ''write'' s)"

text \<open>The body of the loop over the reported events.\<close>

definition dispatch_event :: "epoll_os \<Rightarrow> ep_app \<Rightarrow> int \<times> u32 \<Rightarrow> unit ep_run" where
  "dispatch_event os app = (\<lambda>(fd, events) s.
     if fd = fst (wakeup_fds s)
     then and_then (sys_read os (fst (wakeup_fds s)) 1 s) (\<lambda>_ s. Ret () s)
     else if fd = server_socket s then handle_accept_event os app fd s
     else if events AND EPOLLIN \<noteq> 0 then handle_data_event os app fd s
     else if events AND EPOLLOUT \<noteq> 0 then handle_write_event os app fd s
     else Ret () s)"

text \<open>One round of the loop; the array \<open>events\<close> has \<open>MAX_EVENTS\<close> elements.\<close>

definition run_iteration :: "epoll_os \<Rightarrow> ep_app \<Rightarrow> unit ep_run" where
  "run_iteration os app s =
     and_then (sys_epoll_wait os (epoll_fd s) MAX_EVENTS s) (\<lambda>r s.
     case r of
       Wait_Error errno \<Rightarrow>
         if errno = EINTR then Ret () s else handle_error ''epoll_wait'' s
     | Wait_Events events \<Rightarrow>
         if length events \<le> MAX_EVENTS then for_each (dispatch_event os app) events s
         else Fault Out_Of_Bounds)"

primrec proactor_tcp_epoll_run :: "epoll_os \<Rightarrow> ep_app \<Rightarrow> nat \<Rightarrow> unit ep_run" where
  "proactor_tcp_epoll_run os app 0 s = Out_Of_Fuel"
| "proactor_tcp_epoll_run os app (Suc k) s =
     (if stop s = 0
      then and_then (run_iteration os app s) (\<lambda>_. proactor_tcp_epoll_run os app k)
      else Ret () s)"

definition proactor_tcp_epoll_stop :: "epoll_os \<Rightarrow> unit ep_run" where
  "proactor_tcp_epoll_stop os s = proactor_tcp_epoll_wake os (s\<lparr>stop := 1\<rparr>)"

section \<open>Callbacks and sending\<close>

definition proactor_tcp_epoll_set_receive_callback ::
    "ptr \<Rightarrow> ptr \<Rightarrow> ep_state \<Rightarrow> ep_state" where
  "proactor_tcp_epoll_set_receive_callback cb user_data s =
     s\<lparr>receive_callback := cb, receive_callback_user_data := user_data\<rparr>"

definition proactor_tcp_epoll_set_send_complete_callback ::
    "ptr \<Rightarrow> ptr \<Rightarrow> ep_state \<Rightarrow> ep_state" where
  "proactor_tcp_epoll_set_send_complete_callback cb user_data s =
     s\<lparr>send_complete_callback := cb, send_complete_callback_user_data := user_data\<rparr>"

definition proactor_tcp_epoll_set_accept_callback ::
    "ptr \<Rightarrow> ptr \<Rightarrow> ep_state \<Rightarrow> ep_state" where
  "proactor_tcp_epoll_set_accept_callback cb user_data s =
     s\<lparr>accept_callback := cb, accept_callback_user_data := user_data\<rparr>"

definition proactor_tcp_epoll_send ::
    "epoll_os \<Rightarrow> int \<Rightarrow> byte list \<Rightarrow> size_t \<Rightarrow> int ep_run" where
  "proactor_tcp_epoll_send os socket data len s =
     (if current_send_request s \<noteq> NULL then Ret (- 1) s
      else
        and_then (sys_malloc os sizeof_SendRequest (Raw_Cell sizeof_SendRequest) s) (\<lambda>p s.
        let s = s\<lparr>current_send_request := p\<rparr> in
        and_then (check (current_send_request s = NULL) ''malloc'' s) (\<lambda>_ s.
        and_then (sys_malloc os (unat len) (Raw_Cell (unat len)) s) (\<lambda>d s.
        and_then (update_request (current_send_request s) (\<lambda>r. r\<lparr>sr_data := d\<rparr>) s) (\<lambda>_ s.
        and_then (load_request (current_send_request s) s) (\<lambda>r s.
        and_then (check (sr_data r = NULL) ''malloc'' s) (\<lambda>_ s.
        and_then (memcpy_to (sr_data r) data (unat len) s) (\<lambda>_ s.
        and_then (update_request (current_send_request s) (\<lambda>r. r\<lparr>sr_length := len\<rparr>) s) (\<lambda>_ s.
        and_then (update_request (current_send_request s) (\<lambda>r. r\<lparr>sr_offset := 0\<rparr>) s) (\<lambda>_ s.
        and_then (sys_epoll_ctl os (epoll_fd s) EPOLL_CTL_MOD socket EPOLLOUT s) (\<lambda>rc s.
        and_then (check (rc = - 1) ''epoll_ctl'' s) (\<lambda>_ s.
        Ret 0 s))))))))))))"

section \<open>Applications that act through the API\<close>

text \<open>
  The statics of the file are private to it, so an application can change them through the API
  only. Such an application is a script: which calls a callback makes, given the whole history
  and the callback with its arguments. A message to send comes with its length.
\<close>

datatype ep_call =
    Call_Send int "byte list"
  | Call_Stop
  | Call_Wake
  | Call_Set slot ptr ptr
  | Call_Connect string u16
  | Call_Start_Server u16

fun ep_set_cb :: "slot \<Rightarrow> callback \<Rightarrow> ep_state \<Rightarrow> ep_state" where
  "ep_set_cb Receive_Slot (cb, ud) = proactor_tcp_epoll_set_receive_callback cb ud"
| "ep_set_cb Sent_Slot (cb, ud) = proactor_tcp_epoll_set_send_complete_callback cb ud"
| "ep_set_cb Accept_Slot (cb, ud) = proactor_tcp_epoll_set_accept_callback cb ud"

primrec ep_get_cb :: "slot \<Rightarrow> ep_state \<Rightarrow> callback" where
  "ep_get_cb Receive_Slot s = (receive_callback s, receive_callback_user_data s)"
| "ep_get_cb Sent_Slot s = (send_complete_callback s, send_complete_callback_user_data s)"
| "ep_get_cb Accept_Slot s = (accept_callback s, accept_callback_user_data s)"

definition ep_send :: "epoll_os \<Rightarrow> int \<Rightarrow> byte list \<Rightarrow> int ep_run" where
  "ep_send os socket d = proactor_tcp_epoll_send os socket d (of_nat (length d))"

fun do_call :: "epoll_os \<Rightarrow> ep_call \<Rightarrow> unit ep_run" where
  "do_call os (Call_Send fd d) s = and_then (ep_send os fd d s) (\<lambda>r s.
     Ret () (emit (EvExt (AppSent fd d r)) s))"
| "do_call os Call_Stop s = proactor_tcp_epoll_stop os s"
| "do_call os Call_Wake s = proactor_tcp_epoll_wake os s"
| "do_call os (Call_Set i cb ud) s = Ret () (ep_set_cb i (cb, ud) s)"
| "do_call os (Call_Connect a p) s =
     and_then (proactor_tcp_epoll_connect os a p s) (\<lambda>_. Ret ())"
| "do_call os (Call_Start_Server p) s =
     and_then (proactor_tcp_epoll_start_server os p s) (\<lambda>_. Ret ())"

type_synonym ep_script = "ep_trace \<Rightarrow> ep_x \<Rightarrow> ep_call list"

definition api_app :: "epoll_os \<Rightarrow> ep_script \<Rightarrow> ep_app" where
  "api_app os script cb s = for_each (do_call os) (script (trace s) cb) s"

end
