(* ===== verification/Epoll_Props.thy ===== *)
theory Epoll_Props
  imports Epoll Message_Slot
begin

unbundle bit_operations_syntax

text \<open>
  Properties of the epoll back end: the invariant of the message slot and its preservation by
  every operation and handler, the interpretations of the shared contracts, and the theorems on
  memory safety, delivery, the run loop and the handlers.
\<close>

section \<open>Frame lemmas\<close>

lemma ep_emit [simp]:
  "epoll_fd (emit e s) = epoll_fd s" "server_socket (emit e s) = server_socket s"
  "client_socket (emit e s) = client_socket s" "wakeup_fds (emit e s) = wakeup_fds s"
  "stop (emit e s) = stop s" "receive_callback (emit e s) = receive_callback s"
  "send_complete_callback (emit e s) = send_complete_callback s"
  "accept_callback (emit e s) = accept_callback s"
  "receive_callback_user_data (emit e s) = receive_callback_user_data s"
  "send_complete_callback_user_data (emit e s) = send_complete_callback_user_data s"
  "accept_callback_user_data (emit e s) = accept_callback_user_data s"
  "current_send_request (emit e s) = current_send_request s"
  by (simp_all add: emit_def)

lemma ep_new_cell [simp]:
  "epoll_fd (new_cell c s) = epoll_fd s" "server_socket (new_cell c s) = server_socket s"
  "client_socket (new_cell c s) = client_socket s" "wakeup_fds (new_cell c s) = wakeup_fds s"
  "stop (new_cell c s) = stop s" "receive_callback (new_cell c s) = receive_callback s"
  "send_complete_callback (new_cell c s) = send_complete_callback s"
  "accept_callback (new_cell c s) = accept_callback s"
  "receive_callback_user_data (new_cell c s) = receive_callback_user_data s"
  "send_complete_callback_user_data (new_cell c s) = send_complete_callback_user_data s"
  "accept_callback_user_data (new_cell c s) = accept_callback_user_data s"
  "current_send_request (new_cell c s) = current_send_request s"
  by (simp_all add: new_cell_def)

lemmas ep_sys_defs = sys_defs error_defs sys_epoll_create1_def sys_epoll_ctl_def
  sys_epoll_wait_def

section \<open>The invariant\<close>

text \<open>
  Under the laws of the system calls: allocated addresses are below the next one, the heap has
  the shape of the message slot, and \<open>w\<close> is the write end of the wake pipe.
\<close>

definition ep_inv :: "epoll_os \<Rightarrow> int \<Rightarrow> ep_state \<Rightarrow> bool" where
  "ep_inv os w s \<longleftrightarrow>
     epoll_ok os \<and> heap_bounded s \<and> slot_shape (current_send_request s) (heap s) \<and>
     snd (wakeup_fds s) = w"

text \<open>
  What an application callback may not do behind the back of the module: touch a message in
  flight, or write to a peer.
\<close>

definition keeps_slot :: "int \<Rightarrow> ep_state \<Rightarrow> ep_state \<Rightarrow> bool" where
  "keeps_slot w s t \<longleftrightarrow>
     (current_send_request s \<noteq> NULL \<longrightarrow>
        current_send_request t = current_send_request s \<and> heap t = heap s) \<and>
     sent_stream w (trace t) = sent_stream w (trace s)"

definition ep_pending :: "ep_state \<Rightarrow> byte list option" where
  "ep_pending s = slot_pending (current_send_request s) (heap s)"

definition ep_delivered :: "int \<Rightarrow> ep_state \<Rightarrow> byte list" where
  "ep_delivered w s = sent_stream w (trace s)"

lemma ep_inv_initial: "epoll_ok os \<Longrightarrow> ep_inv os 0 ep_initial"
  by (simp add: ep_inv_def ep_initial_def heap_bounded_def)

lemma ep_inv_emit [simp]: "ep_inv os w (emit e s) = ep_inv os w s"
  by (simp add: ep_inv_def)

lemma ep_inv_upd [simp]:
  "ep_inv os w (s\<lparr>server_socket := x\<rparr>) = ep_inv os w s"
  "ep_inv os w (s\<lparr>client_socket := x\<rparr>) = ep_inv os w s"
  "ep_inv os w (s\<lparr>epoll_fd := x\<rparr>) = ep_inv os w s"
  "ep_inv os w (s\<lparr>stop := x\<rparr>) = ep_inv os w s"
  "ep_inv os w (s\<lparr>receive_callback := p, receive_callback_user_data := q\<rparr>) = ep_inv os w s"
  "ep_inv os w (s\<lparr>send_complete_callback := p, send_complete_callback_user_data := q\<rparr>) =
     ep_inv os w s"
  "ep_inv os w (s\<lparr>accept_callback := p, accept_callback_user_data := q\<rparr>) = ep_inv os w s"
  by (simp_all add: ep_inv_def heap_bounded_def)

lemma keeps_slot_refl [simp]: "keeps_slot w s s"
  by (simp add: keeps_slot_def)

lemma keeps_slot_trans: "keeps_slot w s t \<Longrightarrow> keeps_slot w t u \<Longrightarrow> keeps_slot w s u"
  by (auto simp: keeps_slot_def)

lemma ep_invD:
  assumes "ep_inv os w s"
  shows "posix_ok os" "epoll_ok os" "heap_bounded s" "slot_shape (current_send_request s) (heap s)"
    "snd (wakeup_fds s) = w"
  using assms by (simp_all add: ep_inv_def epoll_ok_def)

lemma ep_inv_request:
  assumes "ep_inv os w s" and "current_send_request s \<noteq> NULL"
  obtains r bs where "request_in (current_send_request s) (heap s) r bs"
  using assms by (auto simp: ep_inv_def slot_shape_request)

lemma ep_pending_None_iff:
  "ep_inv os w s \<Longrightarrow> ep_pending s = None \<longleftrightarrow> current_send_request s = NULL"
  by (simp add: ep_pending_def ep_inv_def slot_pending_None_iff)

section \<open>Sending\<close>

lemma send_busy_ep:
  "current_send_request s \<noteq> NULL \<Longrightarrow> proactor_tcp_epoll_send os fd d len s = Ret (- 1) s"
  by (simp add: proactor_tcp_epoll_send_def)

text \<open>The outcome of a send into a free slot, in one step.\<close>

lemma send_free_ep:
  assumes inv: "ep_inv os w s" and free: "current_send_request s = NULL"
    and len: "unat len \<le> length d"
  shows "wp (proactor_tcp_epoll_send os fd d len s)
    (\<lambda>r t. r = 0 \<and> ep_inv os w t \<and> ep_pending t = Some (take (unat len) d) \<and>
       sent_stream w (trace t) = sent_stream w (trace s) \<and>
       t = s\<lparr>trace := trace t, heap := heap t, brk := brk t,
             current_send_request := current_send_request t\<rparr>)
    (\<lambda>_ _. True)"
proof -
  let ?p = "Suc (brk s)" and ?d = "Suc (Suc (brk s))"
  let ?r = "\<lparr>sr_data = ?d, sr_length = len, sr_offset = 0, sr_user_data = None\<rparr>"
  let ?h = "[?d \<mapsto> Bytes_Cell (take (unat len) d), ?p \<mapsto> Request_Cell ?r]"
  have heap: "heap s = Map.empty"
    using inv free by (simp add: ep_inv_def)
  have "request_in ?p ?h ?r (take (unat len) d)"
    using request_in_new [of ?p ?d len d None] len by (simp add: fun_upd_twist)
  then have shape: "slot_shape ?p ?h" "slot_pending ?p ?h = Some (take (unat len) d)"
    using slot_pending_request by (fastforce simp: slot_shape_def)+
  then show ?thesis
    using inv heap len
    by (simp add: proactor_tcp_epoll_send_def free sys_malloc_def ep_sys_defs request_defs
      sizeof_SendRequest_def blank_request_def ep_inv_def ep_pending_def heap_bounded_def
      emit_def new_cell_def)
qed

section \<open>API calls keep the invariant\<close>

lemma ep_send_inv:
  assumes "ep_inv os w s"
  shows "wp (ep_send os fd d s) (\<lambda>_ t. ep_inv os w t \<and> keeps_slot w s t) (\<lambda>_ _. True)"
proof (cases "current_send_request s = NULL")
  case True
  have "unat (of_nat (length d) :: size_t) \<le> length d"
    by (simp add: unat_of_nat)
  then show ?thesis
    unfolding ep_send_def
    by (rule wp_mono [OF send_free_ep [OF assms True]]) (auto simp: keeps_slot_def True)
next
  case False
  then show ?thesis using assms by (simp add: ep_send_def send_busy_ep)
qed

lemma wake_inv:
  "ep_inv os w s \<Longrightarrow>
     wp (proactor_tcp_epoll_wake os s) (\<lambda>_ t. ep_inv os w t \<and> keeps_slot w s t) (\<lambda>_ _. True)"
  by (simp add: proactor_tcp_epoll_wake_def ep_sys_defs keeps_slot_def ep_invD)

lemma stop_inv:
  assumes "ep_inv os w s"
  shows "wp (proactor_tcp_epoll_stop os s) (\<lambda>_ t. ep_inv os w t \<and> keeps_slot w s t)
    (\<lambda>_ _. True)"
  using wake_inv [of os w "s\<lparr>stop := 1\<rparr>"] assms
  by (simp add: proactor_tcp_epoll_stop_def keeps_slot_def)

lemma connect_inv:
  "ep_inv os w s \<Longrightarrow>
     wp (proactor_tcp_epoll_connect os a p s) (\<lambda>_ t. ep_inv os w t \<and> keeps_slot w s t)
       (\<lambda>_ _. True)"
  by (simp add: proactor_tcp_epoll_connect_def ep_sys_defs keeps_slot_def)

lemma start_server_inv:
  "ep_inv os w s \<Longrightarrow>
     wp (proactor_tcp_epoll_start_server os p s) (\<lambda>_ t. ep_inv os w t \<and> keeps_slot w s t)
       (\<lambda>_ _. True)"
  by (simp add: proactor_tcp_epoll_start_server_def ep_sys_defs keeps_slot_def)

lemmas ep_setter_defs = proactor_tcp_epoll_set_receive_callback_def
  proactor_tcp_epoll_set_send_complete_callback_def
  proactor_tcp_epoll_set_accept_callback_def

lemma set_cb_inv:
  "ep_inv os w s \<Longrightarrow> ep_inv os w (ep_set_cb i c s) \<and> keeps_slot w s (ep_set_cb i c s)"
  by (cases i; cases c)
    (simp_all add: ep_setter_defs keeps_slot_def)

lemma keeps_slot_emit [simp]:
  "accepted_by w e = [] \<Longrightarrow> keeps_slot w s (emit e t) = keeps_slot w s t"
  by (simp add: keeps_slot_def)

lemma do_call_inv:
  assumes "ep_inv os w s"
  shows "wp (do_call os c s) (\<lambda>_ t. ep_inv os w t \<and> keeps_slot w s t) (\<lambda>_ _. True)"
  using assms ep_send_inv wake_inv stop_inv connect_inv start_server_inv set_cb_inv
  by (cases c) simp_all

lemma api_app_inv:
  assumes "ep_inv os w s"
  shows "wp (api_app os script cb s) (\<lambda>_ t. ep_inv os w t \<and> keeps_slot w s t) (\<lambda>_ _. True)"
  unfolding api_app_def
proof (rule wp_for_each)
  fix c t assume "ep_inv os w t \<and> keeps_slot w s t"
  then show "wp (do_call os c t) (\<lambda>_ u. ep_inv os w u \<and> keeps_slot w s u) (\<lambda>_ _. True)"
    using do_call_inv [of os w t c] by (auto elim!: wp_mono intro: keeps_slot_trans)
qed (use assms in simp)

section \<open>The shared write handler\<close>

definition ep_good :: "epoll_os \<Rightarrow> int \<Rightarrow> ep_state \<Rightarrow> bool" where
  "ep_good os w s \<longleftrightarrow> epoll_ok os \<and> snd (wakeup_fds s) = w"

definition ep_complete :: "ep_app \<Rightarrow> int \<Rightarrow> unit ep_run" where
  "ep_complete app fd s =
     (if send_complete_callback s \<noteq> NULL
      then call_app app (CbSent (send_complete_callback s) fd
             (send_complete_callback_user_data s)) s
      else Ret () s)"

lemma ep_inv_slot: "ep_inv os w = slot_inv (ep_good os w) current_send_request"
  by (auto simp: fun_eq_iff ep_inv_def slot_inv_def ep_good_def)

lemma keeps_slot_slot: "keeps_slot w = slot_keeps w current_send_request"
  by (simp add: fun_eq_iff keeps_slot_def slot_keeps_def)

lemma ep_pending_slot: "ep_pending = slot_out current_send_request"
  by (simp add: fun_eq_iff ep_pending_def slot_out_def)

lemma handle_write_event_slot:
  "handle_write_event os app = write_slot os current_send_request
     (\<lambda>s. s\<lparr>current_send_request := NULL\<rparr>) (ep_complete app)"
  by (intro ext) (unfold handle_write_event_def write_slot_def ep_complete_def, rule refl)

section \<open>The contract between the back end and the application\<close>

locale ep_application =
  fixes os :: epoll_os and w :: int and app :: ep_app
  assumes app_inv: "ep_inv os w s \<Longrightarrow>
    wp (app cb s) (\<lambda>_ t. ep_inv os w t \<and> keeps_slot w s t) (\<lambda>_ _. True)"
begin

lemma call_app_inv:
  "ep_inv os w s \<Longrightarrow>
     wp (call_app app cb s) (\<lambda>_ t. ep_inv os w t \<and> keeps_slot w s t) (\<lambda>_ _. True)"
  using app_inv [of "emit (EvExt cb) s" cb] by (simp add: call_app_def keeps_slot_def)

text \<open>The send-complete callback, as the write handler calls it.\<close>

lemma complete_inv:
  "ep_inv os w s \<Longrightarrow>
     wp (ep_complete app fd s) (\<lambda>_ t. ep_inv os w t \<and> keeps_slot w s t) (\<lambda>_ _. True)"
  using call_app_inv by (simp add: ep_complete_def)

end

text \<open>So the back end is an instance of the shared write handler.\<close>

sublocale ep_application \<subseteq> ep_write: message_slot os "ep_good os w" current_send_request
    "\<lambda>s. s\<lparr>current_send_request := NULL\<rparr>" "ep_complete app" w
  by unfold_locales
    (use complete_inv in \<open>simp_all add: ep_good_def epoll_ok_def ep_inv_slot keeps_slot_slot\<close>)

context ep_application
begin

lemma write_event_idle:
  "current_send_request s = NULL \<Longrightarrow> handle_write_event os app fd s = Ret () s"
  by (simp add: handle_write_event_slot ep_write.write_idle)

lemmas write_event_pending = ep_write.write_pending [folded ep_inv_slot ep_pending_slot
    handle_write_event_slot]
lemmas write_event_law = ep_write.write_law [folded ep_inv_slot ep_pending_slot
    handle_write_event_slot]
lemmas write_event_eager = ep_write.write_eager [folded ep_inv_slot ep_pending_slot
    handle_write_event_slot]
lemmas write_event_steady = ep_write.write_steady [folded ep_inv_slot ep_pending_slot
    handle_write_event_slot]

lemma data_event_inv:
  assumes "ep_inv os w s"
  shows "wp (handle_data_event os app fd s)
    (\<lambda>_ t. ep_inv os w t \<and> keeps_slot w s t) (\<lambda>_ _. True)"
proof -
  let ?r = "os_read os (trace s) fd BUFFER_SIZE"
  have "ep_inv os w (emit (EvRead fd BUFFER_SIZE ?r) s)" using assms by simp
  from call_app_inv [OF this] show ?thesis
    using assms posix_okD(1) [OF ep_invD(1) [OF assms], of "trace s" fd BUFFER_SIZE]
    by (auto simp: handle_data_event_def ep_sys_defs keeps_slot_def split: option.split)
qed

lemma accept_event_inv:
  assumes "ep_inv os w s"
  shows "wp (handle_accept_event os app fd s)
    (\<lambda>_ t. ep_inv os w t \<and> keeps_slot w s t) (\<lambda>_ _. True)"
proof -
  let ?s = "emit (EvAccept fd (os_accept os (trace s) fd)) s"
  have inv: "ep_inv os w ?s" using assms by simp
  then show ?thesis
    using assms
    by (auto simp: handle_accept_event_def ep_sys_defs keeps_slot_def
        elim!: wp_mono intro!: wp_mono [OF call_app_inv [OF inv]])
qed

lemma write_event_inv:
  assumes "ep_inv os w s"
  shows "wp (handle_write_event os app fd s) (\<lambda>_ t. ep_inv os w t) (\<lambda>_ _. True)"
proof (cases "ep_pending s")
  case None
  then show ?thesis using assms by (simp add: write_event_idle ep_pending_None_iff)
next
  case (Some p)
  show ?thesis by (rule wp_mono [OF write_event_pending [OF assms Some]]) auto
qed

lemma dispatch_inv:
  assumes "ep_inv os w s"
  shows "wp (dispatch_event os app ev s) (\<lambda>_ t. ep_inv os w t) (\<lambda>_ _. True)"
proof -
  obtain fd events where ev: "ev = (fd, events)" by (cases ev)
  have wake: "wp (sys_read os (fst (wakeup_fds s)) 1 s) (\<lambda>_ t. ep_inv os w t) (\<lambda>_ _. True)"
    using assms posix_okD(1) [OF ep_invD(1) [OF assms]]
    by (auto simp: sys_defs split: option.split)
  have "wp (handle_accept_event os app fd s) (\<lambda>_ t. ep_inv os w t) (\<lambda>_ _. True)"
    "wp (handle_data_event os app fd s) (\<lambda>_ t. ep_inv os w t) (\<lambda>_ _. True)"
    using accept_event_inv [OF assms, of fd] data_event_inv [OF assms, of fd]
    by (auto elim!: wp_mono)
  then show ?thesis
    using wake write_event_inv [OF assms, of fd] assms
    by (auto simp: dispatch_event_def ev)
qed

lemma dispatch_input_keeps:
  assumes inv: "ep_inv os w s" and input: "snd ev AND EPOLLIN \<noteq> 0"
  shows "wp (dispatch_event os app ev s) (\<lambda>_ t. ep_inv os w t \<and> keeps_slot w s t) (\<lambda>_ _. True)"
proof -
  obtain fd events where ev: "ev = (fd, events)" by (cases ev)
  have "wp (sys_read os (fst (wakeup_fds s)) 1 s) (\<lambda>_ t. ep_inv os w t \<and> keeps_slot w s t)
      (\<lambda>_ _. True)"
    using inv posix_okD(1) [OF ep_invD(1) [OF inv]]
    by (auto simp: sys_defs keeps_slot_def split: option.split)
  then show ?thesis
    using accept_event_inv [OF inv, of fd] data_event_inv [OF inv, of fd] input
    by (auto simp: dispatch_event_def ev)
qed

lemma iteration_input_keeps:
  assumes inv: "ep_inv os w s"
    and input: "\<And>h epfd n evs ev. os_epoll_wait os h epfd n = Wait_Events evs \<Longrightarrow> ev \<in> set evs \<Longrightarrow>
      snd ev AND EPOLLIN \<noteq> 0"
  shows "wp (run_iteration os app s) (\<lambda>_ t. ep_inv os w t \<and> keeps_slot w s t) (\<lambda>_ _. True)"
proof -
  let ?r = "os_epoll_wait os (trace s) (epoll_fd s) MAX_EVENTS"
  let ?s = "emit (EvExt (EvEpollWait (epoll_fd s) MAX_EVENTS ?r)) s"
  have "wp (for_each (dispatch_event os app) evs ?s)
      (\<lambda>_ t. ep_inv os w t \<and> keeps_slot w s t) (\<lambda>_ _. True)"
    if evs: "?r = Wait_Events evs" for evs
  proof (rule wp_for_each)
    fix ev t assume "ev \<in> set evs" and t: "ep_inv os w t \<and> keeps_slot w s t"
    then have "snd ev AND EPOLLIN \<noteq> 0" using input evs by blast
    then show "wp (dispatch_event os app ev t)
        (\<lambda>_ u. ep_inv os w u \<and> keeps_slot w s u) (\<lambda>_ _. True)"
      using dispatch_input_keeps [of t ev] t by (auto elim!: wp_mono intro: keeps_slot_trans)
  qed (use inv in \<open>simp add: keeps_slot_def\<close>)
  moreover have "?r = Wait_Events evs \<Longrightarrow> length evs \<le> MAX_EVENTS" for evs
    using ep_invD(2) [OF inv] by (simp add: epoll_ok_def)
  ultimately show ?thesis
    using inv by (auto simp: run_iteration_def ep_sys_defs keeps_slot_def split: wait_result.split)
qed

lemma iteration_inv:
  assumes "ep_inv os w s"
  shows "wp (run_iteration os app s) (\<lambda>_ t. ep_inv os w t) (\<lambda>_ _. True)"
proof -
  let ?r = "os_epoll_wait os (trace s) (epoll_fd s) MAX_EVENTS"
  let ?s = "emit (EvExt (EvEpollWait (epoll_fd s) MAX_EVENTS ?r)) s"
  have "wp (for_each (dispatch_event os app) evs ?s) (\<lambda>_ t. ep_inv os w t) (\<lambda>_ _. True)" for evs
    by (rule wp_for_each) (use assms dispatch_inv in auto)
  moreover have "?r = Wait_Events evs \<Longrightarrow> length evs \<le> MAX_EVENTS" for evs
    using ep_invD(2) [OF assms] by (simp add: epoll_ok_def)
  ultimately show ?thesis
    using assms by (auto simp: run_iteration_def ep_sys_defs split: wait_result.split)
qed

end

interpretation ep_api: ep_application os w "api_app os script" for os w script
  by unfold_locales (rule api_app_inv)

interpretation ep_loop: stop_loop "\<lambda>s. stop s \<noteq> 0" "run_iteration os app"
    "proactor_tcp_epoll_run os app" for os app
  by unfold_locales simp_all

section \<open>The contracts of the message slot and of the callback slots\<close>

text \<open>Peers that accept at least one byte of every write.\<close>

definition os_eager :: "epoll_os \<Rightarrow> bool" where
  "os_eager os \<longleftrightarrow>
     (\<forall>h fd bs. 0 \<le> os_write os h fd bs \<and> (bs \<noteq> [] \<longrightarrow> 0 < os_write os h fd bs))"

lemma ep_send_free:
  assumes "ep_inv os w s" and "ep_pending s = None" and "length d < 2 ^ 64"
  shows "wp (ep_send os fd d s)
    (\<lambda>r t. r = 0 \<and> ep_inv os w t \<and> ep_pending t = Some d \<and> ep_delivered w t = ep_delivered w s)
    (\<lambda>_ _. True)"
proof -
  have len: "unat (of_nat (length d) :: size_t) = length d"
    using assms(3) by (simp add: unat_of_nat)
  have "current_send_request s = NULL"
    using ep_pending_None_iff [OF assms(1)] assms(2) by simp
  from send_free_ep [OF assms(1) this, of "of_nat (length d)" d] show ?thesis
    unfolding ep_send_def len ep_delivered_def by (rule wp_mono) auto
qed

interpretation ep_slot: eager_send_slot "ep_inv os w" ep_pending "ep_delivered w"
    "ep_send os sock" "handle_write_event os (api_app os script)" w "os_eager os"
  for os w sock script
proof unfold_locales
  fix s bs and d :: "byte list" assume "ep_inv os w s" and "ep_pending s = Some bs"
  then show "ep_send os sock d s = Ret (- 1) s"
    using ep_pending_None_iff by (fastforce simp: ep_send_def send_busy_ep)
next
  fix s and d :: "byte list"
  assume "ep_inv os w s" and "ep_pending s = None" and "length d < 2 ^ 64"
  then show "wp (ep_send os sock d s)
      (\<lambda>r t. r = 0 \<and> ep_inv os w t \<and> ep_pending t = Some d \<and>
        ep_delivered w t = ep_delivered w s) (\<lambda>_ _. True)"
    by (rule ep_send_free)
next
  fix s fd assume "ep_inv os w s" and "ep_pending s = None"
  then show "handle_write_event os (api_app os script) fd s = Ret () s"
    by (simp add: ep_api.write_event_idle ep_pending_None_iff)
next
  fix s bs fd assume "ep_inv os w s" and "ep_pending s = Some bs" and "fd \<noteq> w"
  then show "wp (handle_write_event os (api_app os script) fd s)
      (\<lambda>_ t. ep_inv os w t \<and> (\<exists>k \<le> length bs.
        ep_delivered w t = ep_delivered w s @ take k bs \<and>
        ((k < length bs \<or> k = 0) \<and> ep_pending t = Some (drop k bs) \<or>
          k = length bs \<and> ep_pending t = None)))
      (\<lambda>_ _. True)"
    unfolding ep_delivered_def by (rule ep_api.write_event_law)
next
  fix s bs fd
  assume "os_eager os" and "ep_inv os w s" and "ep_pending s = Some bs"
  then show "wp (handle_write_event os (api_app os script) fd s)
      (\<lambda>_ t. ep_pending t = None \<or> (\<exists>bs'. ep_pending t = Some bs' \<and> length bs' < length bs))
      (\<lambda>_ _. True)"
    by (intro ep_api.write_event_eager) (simp_all add: os_eager_def)
qed

interpretation ep_steady: steady_send_slot "ep_inv os w" ep_pending "ep_delivered w"
    "ep_send os sock" "handle_write_event os (api_app os script)" w "steady_writes peer os" peer
  for os w sock script peer
proof unfold_locales
  fix s fd bs assume "steady_writes peer os" and "ep_inv os w s"
  then show "peer fd bs \<le> int (length bs)" by (blast intro: steady_peer_bound dest: ep_invD(1))
next
  fix s bs fd
  assume "steady_writes peer os" and "ep_inv os w s" and "ep_pending s = Some bs" and "fd \<noteq> w"
  then show "wp (handle_write_event os (api_app os script) fd s)
      (\<lambda>_ t. ep_inv os w t \<and>
        ep_delivered w t = ep_delivered w s @ take (nat (peer fd bs)) bs \<and>
        ep_pending t = (if peer fd bs = int (length bs) then None
          else Some (drop (nat (peer fd bs)) bs)))
      (\<lambda>_ _. True)"
    unfolding ep_delivered_def by (intro ep_api.write_event_steady)
qed

lemma ep_get_set: "ep_get_cb i (ep_set_cb j c s) = (if i = j then c else ep_get_cb i s)"
  by (cases i; cases j; cases c) (simp_all add: ep_setter_defs)

definition ep_others ::
    "ep_state \<Rightarrow> ep_trace \<times> (ptr \<Rightarrow> send_cell option) \<times> int \<times> int \<times> int \<times> (int \<times> int) \<times> int \<times> ptr" where
  "ep_others s = (trace s, heap s, epoll_fd s, server_socket s, client_socket s, wakeup_fds s,
     stop s, current_send_request s)"

lemma ep_others_set: "ep_others (ep_set_cb j c s) = ep_others s"
  by (cases j; cases c) (simp_all add: ep_setter_defs ep_others_def)

interpretation ep_callbacks: callback_slots ep_set_cb ep_get_cb ep_others
  by unfold_locales (simp_all add: ep_get_set ep_others_set)

section \<open>Reachable states\<close>

text \<open>
  What the process can do after a successful initialisation: the application makes API calls, or
  the run loop makes a round (in which callbacks may make API calls, too).
\<close>

inductive ep_reachable :: "epoll_os \<Rightarrow> ep_script \<Rightarrow> ep_state \<Rightarrow> bool" for os script where
  ep_start: "proactor_tcp_epoll_init os ep_initial = Ret 0 s \<Longrightarrow> ep_reachable os script s"
| ep_api_call: "ep_reachable os script s \<Longrightarrow> do_call os c s = Ret () t \<Longrightarrow>
    ep_reachable os script t"
| ep_round: "ep_reachable os script s \<Longrightarrow> run_iteration os (api_app os script) s = Ret () t \<Longrightarrow>
    ep_reachable os script t"

lemma init_inv:
  assumes "epoll_ok os" and "proactor_tcp_epoll_init os ep_initial = Ret r s"
  shows "ep_inv os (snd (wakeup_fds s)) s"
  using assms
  by (auto simp: proactor_tcp_epoll_init_def ep_sys_defs ep_inv_def ep_initial_def
      heap_bounded_def split: if_splits option.splits)

lemma ep_reachable_inv:
  assumes "ep_reachable os script s" and "epoll_ok os"
  shows "ep_inv os (snd (wakeup_fds s)) s"
  using assms
proof (induction rule: ep_reachable.induct)
  case (ep_start s)
  then show ?case using init_inv by blast
next
  case (ep_api_call s c t)
  then have "ep_inv os (snd (wakeup_fds s)) t"
    using do_call_inv [of os "snd (wakeup_fds s)" s c] by simp
  then show ?case by (simp add: ep_inv_def)
next
  case (ep_round s t)
  then have "ep_inv os (snd (wakeup_fds s)) t"
    using ep_api.iteration_inv [of os "snd (wakeup_fds s)" s script] by simp
  then show ?case by (simp add: ep_inv_def)
qed

section \<open>Cleaning up\<close>

definition cleanup_closes :: "ep_state \<Rightarrow> int list" where
  "cleanup_closes s =
     (if server_socket s \<noteq> - 1 then [server_socket s] else []) @
     (if client_socket s \<noteq> - 1 then [client_socket s] else []) @
     (if fst (wakeup_fds s) \<noteq> - 1 then [fst (wakeup_fds s), snd (wakeup_fds s)] else []) @
     [epoll_fd s]"

definition emits :: "ep_x posix_ev list \<Rightarrow> ep_state \<Rightarrow> ep_state" where
  "emits es s = s\<lparr>trace := trace s @ es\<rparr>"

lemma cleanup_idle:
  "current_send_request s = NULL \<Longrightarrow>
     proactor_tcp_epoll_cleanup s = Ret () (emits (map EvClose (cleanup_closes s)) s)"
  by (simp add: proactor_tcp_epoll_cleanup_def cleanup_closes_def sys_close_def emits_def emit_def)

lemma cleanup_request:
  assumes "request_in (current_send_request s) (heap s) r bs"
  shows "proactor_tcp_epoll_cleanup s = Ret ()
    (emits (map EvClose (cleanup_closes s) @ [EvFree (sr_data r), EvFree (current_send_request s)])
      s\<lparr>heap := Map.empty\<rparr>)"
proof -
  have "(heap s)(sr_data r := None, current_send_request s := None) = Map.empty"
    using assms by (rule request_in_cleared)
  moreover note request_inD [OF assms, simp]
  ultimately show ?thesis
    by (simp add: proactor_tcp_epoll_cleanup_def cleanup_closes_def sys_close_def emits_def
        emit_def load_request_def sys_free_def)
qed

lemma cleanup_returns:
  assumes "ep_inv os w s"
  shows "\<exists>t. proactor_tcp_epoll_cleanup s = Ret () t \<and> heap t = Map.empty \<and>
    current_send_request t = current_send_request s"
proof (cases "current_send_request s = NULL")
  case True
  then show ?thesis
    using assms by (simp add: cleanup_idle emits_def ep_inv_def)
next
  case False
  with assms obtain r bs where "request_in (current_send_request s) (heap s) r bs"
    by (rule ep_inv_request)
  then show ?thesis by (simp add: cleanup_request emits_def)
qed

end
