(* ===== verification/Epoll_Streams.thy ===== *)
theory Epoll_Streams
  imports Epoll_Props
begin

unbundle bit_operations_syntax

text \<open>
  What the epoll back end does as seen on the trace: which descriptors the kernel watches for
  what, what an API call and an event handler can change, the streams of bytes read from and
  handed over for each connection, and the effect of the stop flag on the run loop.
\<close>

section \<open>What the kernel watches\<close>

text \<open>
  The interest in a descriptor, read off the trace: the event mask of the last \<open>epoll_ctl\<close> that
  added or modified it and succeeded. Deleting or closing the descriptor ends it.
\<close>

fun interest_step :: "int \<Rightarrow> int \<Rightarrow> ep_x posix_ev \<Rightarrow> u32 option \<Rightarrow> u32 option" where
  "interest_step epfd fd (EvExt (EvEpollCtl e oper f ev r)) i =
     (if e = epfd \<and> f = fd \<and> r \<noteq> - 1
      then (case oper of EPOLL_CTL_DEL \<Rightarrow> None | _ \<Rightarrow> Some ev) else i)"
| "interest_step epfd fd (EvClose f) i = (if f = fd then None else i)"
| "interest_step epfd fd _ i = i"

definition interest :: "ep_trace \<Rightarrow> int \<Rightarrow> int \<Rightarrow> u32 option" where
  "interest h epfd fd = fold (interest_step epfd fd) h None"

lemma interest_snoc [simp]:
  "interest (h @ es) epfd fd = fold (interest_step epfd fd) es (interest h epfd fd)"
  by (simp add: interest_def)

text \<open>A descriptor is closed if its last mention as opened or closed is a \<open>close\<close>.\<close>

fun closed_step :: "int \<Rightarrow> ep_x posix_ev \<Rightarrow> bool \<Rightarrow> bool" where
  "closed_step fd (EvClose f) c = (f = fd \<or> c)"
| "closed_step fd (EvSocket f) c = (f \<noteq> fd \<and> c)"
| "closed_step fd (EvAccept _ f) c = (f \<noteq> fd \<and> c)"
| "closed_step fd (EvPipe p) c =
     (c \<and> (case p of None \<Rightarrow> True | Some (a, b) \<Rightarrow> a \<noteq> fd \<and> b \<noteq> fd))"
| "closed_step fd (EvExt (EvEpollCreate f)) c = (f \<noteq> fd \<and> c)"
| "closed_step fd _ c = c"

definition fd_closed :: "ep_trace \<Rightarrow> int \<Rightarrow> bool" where
  "fd_closed h fd = fold (closed_step fd) h False"

lemma fd_closed_after_close: "fd_closed (h @ [EvClose fd]) fd"
  by (simp add: fd_closed_def)

text \<open>The documented error EBADF: \<open>epoll_ctl\<close> fails for a descriptor that is not open.\<close>

definition closed_fd_rejected :: "epoll_os \<Rightarrow> bool" where
  "closed_fd_rejected os \<longleftrightarrow>
     (\<forall>h epfd oper fd ev. fd_closed h fd \<longrightarrow> os_epoll_ctl os h epfd oper fd ev = - 1)"

section \<open>What a step can change\<close>

text \<open>
  The events an API call may add to the trace: no reads, accepts, waits or callbacks. A handler
  that does not read may accept, release memory and call the other callbacks.
\<close>

fun api_event :: "ep_x posix_ev \<Rightarrow> bool" where
  "api_event (EvRead _ _ _) = False"
| "api_event (EvAccept _ _) = False"
| "api_event (EvClose _) = False"
| "api_event (EvFree _) = False"
| "api_event (EvExt (EvEpollWait _ _ _)) = False"
| "api_event (EvExt (CbReceive _ _ _ _)) = False"
| "api_event (EvExt (CbSent _ _ _)) = False"
| "api_event (EvExt (CbAccept _ _ _ _)) = False"
| "api_event _ = True"

fun no_input_event :: "ep_x posix_ev \<Rightarrow> bool" where
  "no_input_event (EvRead _ _ _) = False"
| "no_input_event (EvExt (CbReceive _ _ _ _)) = False"
| "no_input_event _ = True"

lemma api_event_no_input: "api_event e \<Longrightarrow> no_input_event e"
  by (cases e rule: api_event.cases) simp_all

text \<open>
  An application is held to a set \<open>A\<close> of API calls. A step by such an application adds only
  events \<open>P\<close>, keeps the descriptors of the module and does not reset the stop flag; it keeps the
  receive callback and the listening socket if no call in \<open>A\<close> changes them.
\<close>

fun clears_receive :: "ep_call \<Rightarrow> bool" where
  "clears_receive (Call_Set Receive_Slot cb _) = (cb = NULL)"
| "clears_receive _ = False"

fun starts_server :: "ep_call \<Rightarrow> bool" where
  "starts_server (Call_Start_Server _) = True"
| "starts_server _ = False"

definition uses :: "(ep_call \<Rightarrow> bool) \<Rightarrow> ep_script \<Rightarrow> bool" where
  "uses A script \<longleftrightarrow> (\<forall>h cb. list_all A (script h cb))"

definition ep_step ::
    "(ep_x posix_ev \<Rightarrow> bool) \<Rightarrow> (ep_call \<Rightarrow> bool) \<Rightarrow> ep_state \<Rightarrow> ep_state \<Rightarrow> bool" where
  "ep_step P A s t \<longleftrightarrow>
     epoll_fd t = epoll_fd s \<and> wakeup_fds t = wakeup_fds s \<and> (stop s \<noteq> 0 \<longrightarrow> stop t \<noteq> 0) \<and>
     ((\<forall>c. A c \<longrightarrow> \<not> clears_receive c) \<longrightarrow> receive_callback s \<noteq> NULL \<longrightarrow>
        receive_callback t \<noteq> NULL) \<and>
     ((\<forall>c. A c \<longrightarrow> \<not> starts_server c) \<longrightarrow> server_socket t = server_socket s) \<and>
     (\<exists>es. trace t = trace s @ es \<and> list_all P es)"

lemma ep_step_refl [simp]: "ep_step P A s s"
  by (simp add: ep_step_def)

lemma ep_step_trans: "ep_step P A s t \<Longrightarrow> ep_step P A t u \<Longrightarrow> ep_step P A s u"
  by (auto simp: ep_step_def)

lemma ep_step_mono:
  "ep_step P A s t \<Longrightarrow> (\<And>e. P e \<Longrightarrow> Q e) \<Longrightarrow> ep_step Q A s t"
  by (auto simp: ep_step_def list_all_iff)

lemma ep_step_emit: "ep_step P A (emit e s) t \<Longrightarrow> P e \<Longrightarrow> ep_step P A s t"
  by (auto simp: ep_step_def)

lemma do_call_step:
  assumes "A c"
  shows "wlp (do_call os c s) (\<lambda>_ t. ep_step api_event A s t)"
proof (cases c)
  case (Call_Send fd d)
  show ?thesis
    by (auto simp: Call_Send ep_send_def proactor_tcp_epoll_send_def sys_malloc_def ep_sys_defs
        ep_step_def intro!: wlp_request_intros)
next
  case (Call_Set i cb ud)
  then show ?thesis
    using assms by (cases i) (fastforce simp: ep_setter_defs ep_step_def)+
next
  case (Call_Start_Server p)
  then have "\<not> (\<forall>c. A c \<longrightarrow> \<not> starts_server c)" using assms by auto
  then show ?thesis
    by (simp add: Call_Start_Server proactor_tcp_epoll_start_server_def ep_sys_defs ep_step_def)
      blast
qed (simp_all add: proactor_tcp_epoll_stop_def proactor_tcp_epoll_wake_def
    proactor_tcp_epoll_connect_def ep_sys_defs ep_step_def)

lemma do_calls_step:
  assumes "list_all A cs"
  shows "wlp (for_each (do_call os) cs s) (\<lambda>_ t. ep_step api_event A s t)"
proof (rule wlp_for_each)
  fix c t assume c: "c \<in> set cs" and t: "ep_step api_event A s t"
  show "wlp (do_call os c t) (\<lambda>_ u. ep_step api_event A s u)"
    by (rule wlp_mono [OF do_call_step [of A c]])
      (use assms c t in \<open>auto simp: list_all_iff intro: ep_step_trans\<close>)
qed simp

text \<open>A call of \<open>stop\<close> among the calls leaves the flag set.\<close>

lemma do_calls_stop:
  assumes "Call_Stop \<in> set cs"
  shows "wlp (for_each (do_call os) cs s) (\<lambda>_ t. stop t \<noteq> 0)"
proof -
  from assms obtain xs ys where cs: "cs = xs @ Call_Stop # ys" by (auto dest: split_list)
  have rest: "wlp (for_each (do_call os) ys u) (\<lambda>_ v. stop v \<noteq> 0)" if "stop u \<noteq> 0" for u
    by (rule wlp_mono [OF do_calls_step [of "\<lambda>_. True"]]) (use that in \<open>auto simp: ep_step_def list_all_iff\<close>)
  have "wlp (for_each (do_call os) (Call_Stop # ys) t) (\<lambda>_ v. stop v \<noteq> 0)" for t
    using rest by (simp add: proactor_tcp_epoll_stop_def proactor_tcp_epoll_wake_def ep_sys_defs)
  moreover have "wlp (for_each (do_call os) xs s) (\<lambda>_ _. True)"
    by (rule wlp_mono [OF do_calls_step [of "\<lambda>_. True"]]) (auto simp: list_all_iff)
  ultimately show ?thesis
    unfolding cs for_each_append by (auto intro: wlp_seq)
qed

section \<open>What a handler can change\<close>

lemma call_app_step:
  assumes "uses A script"
  shows "wlp (call_app (api_app os script) cb s)
    (\<lambda>_ t. ep_step api_event A (emit (EvExt cb) s) t)"
  using assms unfolding call_app_def api_app_def
  by (intro do_calls_step) (simp add: uses_def)

lemma call_app_no_input:
  assumes "uses A script" and "no_input_event (EvExt cb)"
  shows "wlp (call_app (api_app os script) cb s) (\<lambda>_ t. ep_step no_input_event A s t)"
proof (rule wlp_mono [OF call_app_step])
  fix a t assume "ep_step api_event A (emit (EvExt cb) s) t"
  then have "ep_step no_input_event A (emit (EvExt cb) s) t"
    by (rule ep_step_mono) (rule api_event_no_input)
  then show "ep_step no_input_event A s t" using assms(2) by (rule ep_step_emit)
qed (rule assms(1))

text \<open>Releasing the message: nothing but the heap and the slot changes.\<close>

lemma release_no_input:
  "wlp
    (and_then (load_request (current_send_request t) t) (\<lambda>r s.
     and_then (sys_free (sr_data r) s) (\<lambda>_ s.
     and_then (sys_free (current_send_request s) s) (\<lambda>_ s.
     Ret () (s\<lparr>current_send_request := NULL\<rparr>)))))
    (\<lambda>_ u. ep_step no_input_event A t u)"
  by (auto simp: ep_step_def intro!: wlp_request_intros)

lemma completion_no_input:
  assumes "uses A script" and t: "ep_step no_input_event A s t"
  shows "wlp
    (and_then
      (if send_complete_callback t \<noteq> NULL
       then call_app (api_app os script) (CbSent (send_complete_callback t) fd
              (send_complete_callback_user_data t)) t
       else Ret () t) (\<lambda>_ s.
     and_then (load_request (current_send_request s) s) (\<lambda>r s.
     and_then (sys_free (sr_data r) s) (\<lambda>_ s.
     and_then (sys_free (current_send_request s) s) (\<lambda>_ s.
     Ret () (s\<lparr>current_send_request := NULL\<rparr>))))))
    (\<lambda>_ u. ep_step no_input_event A s u)"
proof (rule wlp_seq [where Q = "\<lambda>_ u. ep_step no_input_event A s u"])
  show "wlp (if send_complete_callback t \<noteq> NULL
     then call_app (api_app os script) (CbSent (send_complete_callback t) fd
            (send_complete_callback_user_data t)) t
     else Ret () t) (\<lambda>_ u. ep_step no_input_event A s u)"
    using t by (auto intro!: wlp_mono [OF call_app_no_input [OF assms(1)]] intro: ep_step_trans)
next
  fix a u assume "ep_step no_input_event A s u"
  then show "wlp
    (and_then (load_request (current_send_request u) u) (\<lambda>r s.
     and_then (sys_free (sr_data r) s) (\<lambda>_ s.
     and_then (sys_free (current_send_request s) s) (\<lambda>_ s.
     Ret () (s\<lparr>current_send_request := NULL\<rparr>)))))
    (\<lambda>_ v. ep_step no_input_event A s v)"
    by (intro wlp_mono [OF release_no_input [of u A]]) (rule ep_step_trans)
qed

lemma write_event_no_input:
  assumes "uses A script"
  shows "wlp (handle_write_event os (api_app os script) fd s)
    (\<lambda>_ t. ep_step no_input_event A s t)"
proof (cases "current_send_request s = NULL")
  case True
  then show ?thesis by (simp add: handle_write_event_def)
next
  case False
  have adv: "ep_step no_input_event A s ((emit (EvWrite fd bs n) s)\<lparr>heap := h\<rparr>)" for bs n h
    by (simp add: ep_step_def)
  show ?thesis
    unfolding handle_write_event_def sys_write_def Let_def and_then.simps if_P [OF False]
    by (intro wlp_request_seqs wlp_ifI completion_no_input [OF assms] adv)
      (simp_all add: ep_step_def)
qed

text \<open>A write event writes all of the pending bytes, to its own descriptor.\<close>

lemma write_event_writes:
  assumes req: "request_in (current_send_request s) (heap s) r bs"
  shows "wlp (handle_write_event os (api_app os script) fd s)
    (\<lambda>_ t. \<exists>n es. trace t = trace s @ EvWrite fd (drop (unat (sr_offset r)) bs) n # es)"
proof -
  let ?p = "drop (unat (sr_offset r)) bs"
  let ?n = "os_write os (trace s) fd ?p"
  let ?s = "emit (EvWrite fd ?p ?n) s"
  have any: "uses (\<lambda>_. True) script" by (simp add: uses_def list_all_iff)
  note req_simps [simp] = request_inD [OF req]
  have adv: "ep_step no_input_event (\<lambda>_. True) ?s (?s\<lparr>heap := h\<rparr>)" for h
    by (simp add: ep_step_def)
  have pre: "load_request (current_send_request s) s = Ret r s"
    "read_block (sr_data r) (unat (sr_offset r)) (unat (sr_length r - sr_offset r)) s = Ret ?p s"
    by (simp_all add: load_request_def read_block_def)
  have "wlp (handle_write_event os (api_app os script) fd s)
      (\<lambda>_ t. ep_step no_input_event (\<lambda>_. True) ?s t)"
    unfolding handle_write_event_def if_P [OF req_simps(1)] pre and_then.simps sys_write_def Let_def
    by (intro wlp_request_seqs wlp_ifI completion_no_input [OF any] adv)
      (simp_all add: ep_step_def)
  then show ?thesis
    by (rule wlp_mono) (auto simp: ep_step_def)
qed

lemma send_interest:
  assumes "current_send_request s = NULL"
  shows "wlp (ep_send os fd d s) (\<lambda>_ t. interest (trace t) (epoll_fd t) fd = Some EPOLLOUT)"
  using assms
  by (auto simp: ep_send_def proactor_tcp_epoll_send_def sys_malloc_def ep_sys_defs
      intro!: wlp_request_intros)

lemma accept_event_no_input:
  assumes "uses A script"
  shows "wlp (handle_accept_event os (api_app os script) fd s)
    (\<lambda>_ t. ep_step no_input_event A s t)"
proof -
  let ?c = "os_accept os (trace s) fd"
  let ?s = "emit (EvAccept fd ?c) s"
  let ?cb = "\<lambda>s. if accept_callback s \<noteq> NULL
    then call_app (api_app os script) (CbAccept (accept_callback s) fd ?c
           (accept_callback_user_data s)) s
    else Ret () s"
  have step: "ep_step no_input_event A s ?s" by (simp add: ep_step_def)
  have cb: "wlp (?cb ?s) (\<lambda>_ t. ep_step no_input_event A s t)"
    using step by (auto intro!: wlp_mono [OF call_app_no_input [OF assms]] intro: ep_step_trans)
  have watch: "wlp (and_then (sys_epoll_ctl os (epoll_fd t) EPOLL_CTL_ADD ?c
        (EPOLLIN OR EPOLLOUT) t) (\<lambda>rc s. check (rc = - 1) ''epoll_ctl'' s))
      (\<lambda>_ u. ep_step no_input_event A s u)" if "ep_step no_input_event A s t" for t
    using that by (auto simp: ep_sys_defs ep_step_def)
  show ?thesis
    unfolding handle_accept_event_def sys_accept_def Let_def and_then.simps
    using step by (intro wlp_ifI wlp_seq [OF cb] watch) (simp_all add: ep_step_def)
qed

section \<open>The input streams\<close>

text \<open>The bytes read from a descriptor, and the bytes handed to the receive callback for it.\<close>

fun read_by :: "int \<Rightarrow> ep_x posix_ev \<Rightarrow> byte list" where
  "read_by fd (EvRead f _ r) = (if f = fd then outstanding r else [])"
| "read_by fd _ = []"

fun handed_by :: "int \<Rightarrow> ep_x posix_ev \<Rightarrow> byte list" where
  "handed_by fd (EvExt (CbReceive _ f bs _)) = (if f = fd then bs else [])"
| "handed_by fd _ = []"

definition read_stream :: "int \<Rightarrow> ep_trace \<Rightarrow> byte list" where
  "read_stream fd tr = concat (map (read_by fd) tr)"

definition handed_stream :: "int \<Rightarrow> ep_trace \<Rightarrow> byte list" where
  "handed_stream fd tr = concat (map (handed_by fd) tr)"

text \<open>The number of chunks handed over, on all connections.\<close>

fun is_chunk :: "ep_x posix_ev \<Rightarrow> bool" where
  "is_chunk (EvExt (CbReceive _ _ _ _)) = True"
| "is_chunk _ = False"

definition chunks :: "ep_trace \<Rightarrow> nat" where
  "chunks tr = length (filter is_chunk tr)"

lemma stream_simps [simp]:
  "read_stream fd [] = []" "handed_stream fd [] = []" "chunks [] = 0"
  "read_stream fd (xs @ ys) = read_stream fd xs @ read_stream fd ys"
  "handed_stream fd (xs @ ys) = handed_stream fd xs @ handed_stream fd ys"
  "chunks (xs @ ys) = chunks xs + chunks ys"
  "read_stream fd (e # es) = read_by fd e @ read_stream fd es"
  "handed_stream fd (e # es) = handed_by fd e @ handed_stream fd es"
  "chunks (e # es) = (if is_chunk e then Suc (chunks es) else chunks es)"
  by (simp_all add: read_stream_def handed_stream_def chunks_def)

lemma no_input_event_streams:
  "no_input_event e \<Longrightarrow> read_by fd e = [] \<and> handed_by fd e = [] \<and> \<not> is_chunk e"
  by (cases e rule: no_input_event.cases) simp_all

lemma no_input_streams:
  "list_all no_input_event es \<Longrightarrow>
     read_stream fd es = [] \<and> handed_stream fd es = [] \<and> chunks es = 0"
  by (induction es) (simp_all add: no_input_event_streams)

text \<open>
  A step after which the module has handed over exactly what it has read, connection by
  connection. The read end of the wake pipe is not a connection.
\<close>

definition input_step :: "ep_state \<Rightarrow> ep_state \<Rightarrow> bool" where
  "input_step s t \<longleftrightarrow>
     wakeup_fds t = wakeup_fds s \<and> server_socket t = server_socket s \<and>
     receive_callback t \<noteq> NULL \<and>
     (stop s \<noteq> 0 \<longrightarrow> stop t \<noteq> 0) \<and>
     (\<exists>es. trace t = trace s @ es \<and>
        (\<forall>fd. fd \<noteq> fst (wakeup_fds s) \<longrightarrow> handed_stream fd es = read_stream fd es))"

lemma input_step_refl: "receive_callback s \<noteq> NULL \<Longrightarrow> input_step s s"
  by (simp add: input_step_def)

lemma input_step_trans: "input_step s t \<Longrightarrow> input_step t u \<Longrightarrow> input_step s u"
  by (fastforce simp: input_step_def)

lemma no_input_step_input:
  assumes "ep_step no_input_event A s t" and "\<And>c. A c \<Longrightarrow> \<not> clears_receive c \<and> \<not> starts_server c"
    and "receive_callback s \<noteq> NULL"
  shows "input_step s t"
  using assms no_input_streams by (fastforce simp: ep_step_def input_step_def)

text \<open>Calls that leave the receive callback and the listening socket in place.\<close>

definition steady_call :: "ep_call \<Rightarrow> bool" where
  "steady_call c \<longleftrightarrow> \<not> clears_receive c \<and> \<not> starts_server c"

lemma ep_step_input:
  assumes "ep_step no_input_event steady_call s t" and "receive_callback s \<noteq> NULL"
  shows "input_step s t"
  by (rule no_input_step_input [OF assms(1) _ assms(2)]) (simp add: steady_call_def)

lemma data_event_input:
  assumes app: "uses steady_call script" and cb: "receive_callback s \<noteq> NULL"
  shows "wlp (handle_data_event os (api_app os script) fd s) (\<lambda>_ t. input_step s t)"
proof -
  let ?r = "os_read os (trace s) fd BUFFER_SIZE"
  let ?s = "emit (EvRead fd BUFFER_SIZE ?r) s"
  show ?thesis
  proof (cases "outstanding ?r = []")
    case True
    then show ?thesis
      using cb by (auto simp: handle_data_event_def ep_sys_defs input_step_def outstanding_def
          split: option.split)
  next
    case False
    then obtain bs where r: "?r = Some bs" "bs \<noteq> []"
      by (auto simp: outstanding_def split: option.splits)
    let ?cb = "CbReceive (receive_callback s) fd bs (receive_callback_user_data s)"
    have "wlp (call_app (api_app os script) ?cb ?s) (\<lambda>_ t. input_step s t)"
    proof (rule wlp_mono [OF call_app_step [OF app]])
      fix a t assume "ep_step api_event steady_call (emit (EvExt ?cb) ?s) t"
      then have "ep_step no_input_event steady_call (emit (EvExt ?cb) ?s) t"
        by (rule ep_step_mono) (rule api_event_no_input)
      then have "input_step (emit (EvExt ?cb) ?s) t"
        by (rule ep_step_input) (simp add: cb)
      then show "input_step s t"
        by (auto simp: input_step_def r outstanding_def)
    qed
    then show ?thesis
      using r cb by (simp add: handle_data_event_def sys_read_def)
  qed
qed

lemma dispatch_input:
  assumes app: "uses steady_call script" and cb: "receive_callback s \<noteq> NULL"
  shows "wlp (dispatch_event os (api_app os script) ev s) (\<lambda>_ t. input_step s t)"
proof -
  obtain fd events where ev: "ev = (fd, events)" by (cases ev)
  have wake: "wlp (sys_read os (fst (wakeup_fds s)) 1 s) (\<lambda>_ t. input_step s t)"
    using cb by (auto simp: sys_defs input_step_def split: option.split)
  moreover have "wlp (handle_accept_event os (api_app os script) fd s) (\<lambda>_ t. input_step s t)"
    "wlp (handle_write_event os (api_app os script) fd s) (\<lambda>_ t. input_step s t)"
    using accept_event_no_input [OF app] write_event_no_input [OF app] ep_step_input [OF _ cb]
    by (blast intro: wlp_mono)+
  ultimately show ?thesis
    using data_event_input [OF assms, of os fd] input_step_refl [OF cb]
    by (auto simp: dispatch_event_def ev)
qed

lemma dispatches_input:
  assumes app: "uses steady_call script" and "receive_callback s \<noteq> NULL"
  shows "wlp (for_each (dispatch_event os (api_app os script)) evs s) (\<lambda>_ t. input_step s t)"
proof (rule wlp_for_each)
  fix ev t assume t: "input_step s t"
  then have "receive_callback t \<noteq> NULL" by (simp add: input_step_def)
  then show "wlp (dispatch_event os (api_app os script) ev t) (\<lambda>_ u. input_step s u)"
    by (intro wlp_mono [OF dispatch_input [OF app]] input_step_trans [OF t])
qed (rule input_step_refl [OF assms(2)])

lemma iteration_input:
  assumes app: "uses steady_call script" and cb: "receive_callback s \<noteq> NULL"
  shows "wlp (run_iteration os (api_app os script) s) (\<lambda>_ t. input_step s t)"
proof -
  let ?s = "emit (EvExt (EvEpollWait (epoll_fd s) MAX_EVENTS
    (os_epoll_wait os (trace s) (epoll_fd s) MAX_EVENTS))) s"
  have step: "input_step s ?s" using cb by (simp add: input_step_def)
  have "wlp (for_each (dispatch_event os (api_app os script)) evs ?s) (\<lambda>_ t. input_step s t)"
    for evs
    by (rule wlp_mono [OF dispatches_input [OF app]]) (use cb step input_step_trans in auto)
  then show ?thesis
    using step by (auto simp: run_iteration_def ep_sys_defs split: wait_result.split)
qed

section \<open>The loop after some rounds\<close>

text \<open>
  The loop of \<open>proactor_tcp_epoll_run\<close> looked at after at most \<open>k\<close> rounds: the flag is tested before
  each round, as the loop does, and a loop that has ended stays where it is.
\<close>

primrec ep_rounds :: "epoll_os \<Rightarrow> ep_app \<Rightarrow> nat \<Rightarrow> unit ep_run" where
  "ep_rounds os app 0 s = Ret () s"
| "ep_rounds os app (Suc k) s =
     (if stop s = 0 then and_then (run_iteration os app s) (\<lambda>_. ep_rounds os app k) else Ret () s)"

lemma run_after_rounds:
  "proactor_tcp_epoll_run os app (k + Suc j) s =
     and_then (ep_rounds os app k s) (\<lambda>_. proactor_tcp_epoll_run os app (Suc j))"
proof (induction k arbitrary: s)
  case (Suc k)
  show ?case
  proof (cases "stop s = 0")
    case True
    then show ?thesis
      using Suc.IH by (cases "run_iteration os app s") simp_all
  qed simp
qed simp

lemma wp_rounds:
  assumes "\<And>s. I s \<Longrightarrow> wp (run_iteration os app s) (\<lambda>_. I) X" and "I s"
  shows "wp (ep_rounds os app k s) (\<lambda>_. I) X"
  using assms(2)
proof (induction k arbitrary: s)
  case (Suc k)
  then show ?case using assms(1) [OF Suc.prems] by (auto elim: wp_mono)
qed simp

lemma wlp_rounds:
  assumes "\<And>s. I s \<Longrightarrow> wlp (run_iteration os app s) (\<lambda>_. I)" and "I s"
  shows "wlp (ep_rounds os app k s) (\<lambda>_. I)"
  using assms(2)
proof (induction k arbitrary: s)
  case (Suc k)
  then show ?case using assms(1) [OF Suc.prems] by (auto elim: wlp_mono)
qed simp

lemma rounds_input:
  assumes app: "uses steady_call script" and "receive_callback s \<noteq> NULL"
  shows "wlp (ep_rounds os (api_app os script) k s) (\<lambda>_ t. input_step s t)"
proof (rule wlp_rounds)
  fix t assume t: "input_step s t"
  then have "receive_callback t \<noteq> NULL" by (simp add: input_step_def)
  then show "wlp (run_iteration os (api_app os script) t) (\<lambda>_ u. input_step s u)"
    by (intro wlp_mono [OF iteration_input [OF app]] input_step_trans [OF t])
qed (rule input_step_refl [OF assms(2)])

lemma rounds_inv:
  assumes "ep_inv os w s"
  shows "wp (ep_rounds os (api_app os script) k s) (\<lambda>_ t. ep_inv os w t) (\<lambda>_ _. True)"
  by (rule wp_rounds) (use assms ep_api.iteration_inv in auto)

section \<open>Stopping\<close>

text \<open>An application that stops the loop when it is handed the \<open>n\<close>-th chunk.\<close>

definition stops_after :: "nat \<Rightarrow> ep_script \<Rightarrow> bool" where
  "stops_after n script \<longleftrightarrow>
     (\<forall>h cb fd bs ud. n \<le> chunks h \<longrightarrow> Call_Stop \<in> set (script h (CbReceive cb fd bs ud)))"

lemma input_step_chunks: "input_step s t \<Longrightarrow> chunks (trace s) \<le> chunks (trace t)"
  by (auto simp: input_step_def)

lemma data_event_progress:
  assumes app: "uses steady_call script" and cb: "receive_callback s \<noteq> NULL"
    and r: "os_read os (trace s) fd BUFFER_SIZE = Some bs" "bs \<noteq> []"
    and stops: "stops_after n script"
  shows "wlp (handle_data_event os (api_app os script) fd s)
    (\<lambda>_ t. chunks (trace s) < chunks (trace t) \<and> (n \<le> Suc (chunks (trace s)) \<longrightarrow> stop t \<noteq> 0))"
proof -
  let ?s = "emit (EvRead fd BUFFER_SIZE (Some bs)) s"
  let ?cb = "CbReceive (receive_callback s) fd bs (receive_callback_user_data s)"
  let ?cs = "script (trace (emit (EvExt ?cb) ?s)) ?cb"
  have n: "chunks (trace (emit (EvExt ?cb) ?s)) = Suc (chunks (trace s))" by simp
  have step: "wlp (call_app (api_app os script) ?cb ?s) (\<lambda>_ t. chunks (trace s) < chunks (trace t))"
    by (rule wlp_mono [OF call_app_step [OF app]]) (auto simp: ep_step_def)
  have "wlp (call_app (api_app os script) ?cb ?s)
      (\<lambda>_ t. n \<le> Suc (chunks (trace s)) \<longrightarrow> stop t \<noteq> 0)"
  proof (cases "n \<le> Suc (chunks (trace s))")
    case True
    then have "Call_Stop \<in> set ?cs" using stops n by (simp add: stops_after_def)
    from do_calls_stop [OF this] show ?thesis
      by (simp only: call_app_def api_app_def True simp_thms)
  next
    case False
    then show ?thesis by (intro wlp_mono [OF step]) simp
  qed
  with step have "wlp (call_app (api_app os script) ?cb ?s) (\<lambda>_ t.
      chunks (trace s) < chunks (trace t) \<and> (n \<le> Suc (chunks (trace s)) \<longrightarrow> stop t \<noteq> 0))"
    by (cases "call_app (api_app os script) ?cb ?s") auto
  then show ?thesis
    using r cb by (simp add: handle_data_event_def sys_read_def)
qed

text \<open>An operating system on which every round finds bytes to read on a connection \<open>c\<close>.\<close>

definition always_readable :: "epoll_os \<Rightarrow> int \<Rightarrow> bool" where
  "always_readable os c \<longleftrightarrow>
     (\<forall>h epfd n. 0 < n \<longrightarrow> (\<exists>ev rest. os_epoll_wait os h epfd n = Wait_Events ((c, ev) # rest) \<and>
        ev AND EPOLLIN \<noteq> 0)) \<and>
     (\<forall>h n. 0 < n \<longrightarrow> (\<exists>bs. os_read os h c n = Some bs \<and> bs \<noteq> []))"

lemma sizes_pos: "0 < MAX_EVENTS" "0 < BUFFER_SIZE"
  by (simp_all add: MAX_EVENTS_def BUFFER_SIZE_def)

lemma iteration_progress:
  assumes app: "uses steady_call script" and cb: "receive_callback s \<noteq> NULL"
    and stops: "stops_after n script" and os: "always_readable os c"
    and c: "c \<noteq> fst (wakeup_fds s)" "c \<noteq> server_socket s"
  shows "wlp (run_iteration os (api_app os script) s)
    (\<lambda>_ t. chunks (trace s) < chunks (trace t) \<and> (n \<le> Suc (chunks (trace s)) \<longrightarrow> stop t \<noteq> 0))"
proof -
  let ?r = "os_epoll_wait os (trace s) (epoll_fd s) MAX_EVENTS"
  let ?s = "emit (EvExt (EvEpollWait (epoll_fd s) MAX_EVENTS ?r)) s"
  let ?Q = "\<lambda>t. chunks (trace s) < chunks (trace t) \<and> (n \<le> Suc (chunks (trace s)) \<longrightarrow> stop t \<noteq> 0)"
  obtain ev rest where r: "?r = Wait_Events ((c, ev) # rest)" and ev: "ev AND EPOLLIN \<noteq> 0"
    using os sizes_pos unfolding always_readable_def by blast
  obtain bs where bs: "os_read os (trace ?s) c BUFFER_SIZE = Some bs" "bs \<noteq> []"
    using os sizes_pos unfolding always_readable_def by blast
  have cb': "receive_callback ?s \<noteq> NULL" using cb by simp
  have "dispatch_event os (api_app os script) (c, ev) ?s =
      handle_data_event os (api_app os script) c ?s"
    using c ev by (simp add: dispatch_event_def)
  moreover have "chunks (trace ?s) = chunks (trace s)" by simp
  ultimately have first: "wlp (dispatch_event os (api_app os script) (c, ev) ?s)
      (\<lambda>_ t. input_step ?s t \<and> ?Q t)"
    using data_event_progress [OF app cb' bs stops] data_event_input [OF app cb', of os c]
    by (cases "handle_data_event os (api_app os script) c ?s") auto
  have "wlp (for_each (dispatch_event os (api_app os script)) ((c, ev) # rest) ?s) (\<lambda>_. ?Q)"
    unfolding for_each.simps
  proof (rule wlp_seq [OF first])
    fix a t assume t: "input_step ?s t \<and> ?Q t"
    then have "receive_callback t \<noteq> NULL" by (simp add: input_step_def)
    from dispatches_input [OF app this]
    show "wlp (for_each (dispatch_event os (api_app os script)) rest t) (\<lambda>_. ?Q)"
    proof (rule wlp_mono)
      fix a u assume "input_step t u"
      then show "?Q u" using t input_step_chunks [of t u] by (auto simp: input_step_def)
    qed
  qed
  then show ?thesis
    by (simp add: run_iteration_def sys_epoll_wait_def r Let_def)
qed

section \<open>Only the run loop may go on for ever\<close>

lemma request_ops_fuel [simp]:
  "load_request p s \<noteq> Out_Of_Fuel" "update_request p f s \<noteq> Out_Of_Fuel"
  "read_block p i n s \<noteq> Out_Of_Fuel" "memcpy_to p d n s \<noteq> Out_Of_Fuel"
  "sys_free p s \<noteq> Out_Of_Fuel" "sys_malloc pos n c s \<noteq> Out_Of_Fuel"
  by (simp_all add: request_defs load_cell_def store_cell_def sys_free_def drop_cell_def
      sys_malloc_def and_then_eq_Fuel_iff split: option.split send_cell.split)

lemma do_call_fuel [simp]: "do_call os c s \<noteq> Out_Of_Fuel"
proof (cases c)
  case (Call_Send fd d)
  show ?thesis
    by (simp add: Call_Send ep_send_def proactor_tcp_epoll_send_def and_then_eq_Fuel_iff
        ep_sys_defs split: if_splits)
qed (simp_all add: proactor_tcp_epoll_stop_def proactor_tcp_epoll_wake_def
    proactor_tcp_epoll_connect_def proactor_tcp_epoll_start_server_def ep_sys_defs)

lemma call_app_fuel [simp]: "call_app (api_app os script) cb s \<noteq> Out_Of_Fuel"
  by (simp add: call_app_def api_app_def for_each_fuel)

lemma handlers_fuel [simp]:
  "handle_data_event os (api_app os script) fd s \<noteq> Out_Of_Fuel"
  "handle_write_event os (api_app os script) fd s \<noteq> Out_Of_Fuel"
  "handle_accept_event os (api_app os script) fd s \<noteq> Out_Of_Fuel"
  by (auto simp: handle_data_event_def handle_write_event_def handle_accept_event_def
      and_then_eq_Fuel_iff ep_sys_defs split: option.splits if_splits)

lemma dispatch_fuel [simp]: "dispatch_event os (api_app os script) ev s \<noteq> Out_Of_Fuel"
  by (auto simp: dispatch_event_def sys_read_def Let_def and_then_eq_Fuel_iff
      split: prod.split option.splits if_splits)

lemma iteration_fuel: "run_iteration os (api_app os script) s \<noteq> Out_Of_Fuel"
  by (auto simp: run_iteration_def ep_sys_defs for_each_fuel split: wait_result.split)

end
