(* ===== verification/Epoll_Writes.thy ===== *)
theory Epoll_Writes
  imports Epoll_Streams
begin

unbundle bit_operations_syntax

text \<open>
  What the write handler preserves. While it runs, the slot is occupied, so a callback that it
  calls has every send refused. The locale says what has to be checked of an invariant for the
  handler to keep it; two uses follow: the messages that an application has sent successfully,
  and the interest of the kernel in a descriptor.
\<close>

section \<open>The contract of an invariant of the write handler\<close>

text \<open>The events of the handler itself, apart from its write.\<close>

fun calm_event :: "ep_x posix_ev \<Rightarrow> bool" where
  "calm_event (EvPerror msg) = True"
| "calm_event (EvFree p) = True"
| "calm_event (EvExt (CbSent cb fd ud)) = True"
| "calm_event e = False"

text \<open>Calls made while a message is in flight leave it in flight.\<close>

lemma do_call_busy:
  assumes "current_send_request s \<noteq> NULL"
  shows "wlp (do_call os c s) (\<lambda>_ t. current_send_request t \<noteq> NULL)"
proof (cases c)
  case (Call_Set i cb ud)
  then show ?thesis using assms by (cases i) (simp_all add: ep_setter_defs)
qed (use assms in \<open>simp_all add: ep_send_def send_busy_ep proactor_tcp_epoll_stop_def
    proactor_tcp_epoll_wake_def proactor_tcp_epoll_connect_def
    proactor_tcp_epoll_start_server_def ep_sys_defs\<close>)

text \<open>An invariant \<open>I\<close>, for callbacks that make calls in \<open>A\<close> and write events of descriptors in \<open>F\<close>.\<close>

locale ep_write_invariant =
  fixes os :: epoll_os
    and I :: "ep_state \<Rightarrow> bool"
    and A :: "ep_call \<Rightarrow> bool"
    and F :: "int \<Rightarrow> bool"
  assumes heap_law: "I (s\<lparr>heap := cells\<rparr>) = I s"
    and slot_law: "I (s\<lparr>current_send_request := p\<rparr>) = I s"
    and calm_law: "calm_event e \<Longrightarrow> I (emit e s) = I s"
    and write_law: "I s \<Longrightarrow> F fd \<Longrightarrow> I (emit (EvWrite fd bs written) s)"
    and busy_law: "I s \<Longrightarrow> current_send_request s \<noteq> NULL \<Longrightarrow> A c \<Longrightarrow> wlp (do_call os c s) (\<lambda>_. I)"
begin

lemma keeps_busy_app:
  assumes "uses A script" and s: "I s" "current_send_request s \<noteq> NULL"
  shows "wlp (call_app (api_app os script) (CbSent cb fd ud) s) (\<lambda>_. I)"
proof -
  let ?I = "\<lambda>t. I t \<and> current_send_request t \<noteq> NULL"
  have "wlp (call_app (api_app os script) (CbSent cb fd ud) s) (\<lambda>_. ?I)"
    unfolding call_app_def api_app_def
  proof (rule wlp_for_each)
    fix c t assume c: "c \<in> set (script (trace (emit (EvExt (CbSent cb fd ud)) s)) (CbSent cb fd ud))"
      and t: "?I t"
    then have "A c" using assms(1) by (auto simp: uses_def list_all_iff)
    then have "wlp (do_call os c t) (\<lambda>_. I)" using t busy_law by blast
    moreover have "wlp (do_call os c t) (\<lambda>_ t. current_send_request t \<noteq> NULL)"
      using t by (blast intro: do_call_busy)
    ultimately show "wlp (do_call os c t) (\<lambda>_. ?I)" by (cases "do_call os c t") simp_all
  qed (use s in \<open>simp add: calm_law\<close>)
  then show ?thesis by (rule wlp_mono) simp
qed

lemma keeps_write_event:
  assumes app: "uses A script" and s: "I s" and fd: "F fd"
  shows "wlp (handle_write_event os (api_app os script) fd s) (\<lambda>_. I)"
proof (cases "current_send_request s = NULL")
  case True
  then show ?thesis using s by (simp add: handle_write_event_def)
next
  case False
  have finish: "wlp
      (and_then
        (if send_complete_callback t \<noteq> NULL
         then call_app (api_app os script) (CbSent (send_complete_callback t) fd
                (send_complete_callback_user_data t)) t
         else Ret () t) (\<lambda>_ s.
       and_then (load_request (current_send_request s) s) (\<lambda>r s.
       and_then (sys_free (sr_data r) s) (\<lambda>_ s.
       and_then (sys_free (current_send_request s) s) (\<lambda>_ s.
       Ret () (s\<lparr>current_send_request := NULL\<rparr>))))))
      (\<lambda>_. I)" if t: "I t" "current_send_request t \<noteq> NULL" for t
    by (rule wlp_seq [where Q = "\<lambda>_. I"])
      (use t in \<open>auto simp: heap_law slot_law calm_law
        intro!: keeps_busy_app [OF app] wlp_request_intros\<close>)
  show ?thesis
    unfolding handle_write_event_def sys_write_def Let_def and_then.simps
    by (intro wlp_ifI wlp_request_seqs finish)
      (use s fd False in \<open>simp_all add: heap_law calm_law write_law\<close>)
qed

lemma keeps_write_events:
  assumes "uses A script" and "I s" and "\<And>fd. fd \<in> set fds \<Longrightarrow> F fd"
  shows "wlp (for_each (handle_write_event os (api_app os script)) fds s) (\<lambda>_. I)"
  by (rule wlp_for_each) (use assms keeps_write_event in auto)

end

section \<open>The messages sent\<close>

text \<open>The messages of the sends that answered 0, in their order.\<close>

fun sent_by :: "ep_x posix_ev \<Rightarrow> byte list list" where
  "sent_by (EvExt (AppSent fd d r)) = (if r = 0 then [d] else [])"
| "sent_by e = []"

definition sent_messages :: "ep_trace \<Rightarrow> byte list list" where
  "sent_messages h = concat (map sent_by h)"

lemma sent_messages_append [simp]:
  "sent_messages [] = []" "sent_messages (h @ es) = sent_messages h @ sent_messages es"
  "sent_messages (e # es) = sent_by e @ sent_messages es"
  by (simp_all add: sent_messages_def)

text \<open>Only a send that is accepted adds to them; the back end itself never does.\<close>

lemma send_unlogged:
  "wlp (ep_send os fd d s) (\<lambda>_ t. sent_messages (trace t) = sent_messages (trace s))"
  by (auto simp: ep_send_def proactor_tcp_epoll_send_def sys_malloc_def ep_sys_defs
      intro!: wlp_request_intros)

lemma do_call_sent:
  "wlp (do_call os c s) (\<lambda>_ t. \<exists>ds. sent_messages (trace t) = sent_messages (trace s) @ ds \<and>
     (\<forall>d \<in> set ds. \<exists>fd. c = Call_Send fd d))"
proof (cases c)
  case (Call_Send fd d)
  show ?thesis
    by (simp add: Call_Send, rule wlp_mono [OF send_unlogged]) auto
next
  case (Call_Set i cb ud)
  then show ?thesis by (cases i) (simp_all add: ep_setter_defs)
qed (simp_all add: proactor_tcp_epoll_stop_def proactor_tcp_epoll_wake_def
    proactor_tcp_epoll_connect_def proactor_tcp_epoll_start_server_def ep_sys_defs)

interpretation sent_log: ep_write_invariant os "\<lambda>s. sent_messages (trace s) = m" "\<lambda>_. True" "\<lambda>_. True"
  for os m
proof unfold_locales
  fix e :: "ep_x posix_ev" and s :: ep_state
  assume "calm_event e"
  then show "(sent_messages (trace (emit e s)) = m) = (sent_messages (trace s) = m)"
    by (cases e rule: calm_event.cases) simp_all
next
  fix s :: ep_state and c assume s: "sent_messages (trace s) = m" and busy: "current_send_request s \<noteq> NULL"
  show "wlp (do_call os c s) (\<lambda>_ t. sent_messages (trace t) = m)"
  proof (cases c)
    case (Call_Send fd d)
    then show ?thesis using s busy by (simp add: ep_send_def send_busy_ep)
  next
    case (Call_Set i cb ud)
    then show ?thesis using s by (cases i) (simp_all add: ep_setter_defs)
  qed (use s in \<open>simp_all add: proactor_tcp_epoll_stop_def proactor_tcp_epoll_wake_def
      proactor_tcp_epoll_connect_def proactor_tcp_epoll_start_server_def ep_sys_defs\<close>)
qed simp_all

section \<open>The interest in a descriptor\<close>

text \<open>The calls that open and register no descriptor.\<close>

fun opens_nothing :: "ep_call \<Rightarrow> bool" where
  "opens_nothing (Call_Connect a p) = False"
| "opens_nothing (Call_Start_Server p) = False"
| "opens_nothing _ = True"

interpretation watched: ep_write_invariant os
    "\<lambda>s. interest (trace s) (epoll_fd s) fd = i" opens_nothing "\<lambda>_. True" for os fd i
proof unfold_locales
  fix e :: "ep_x posix_ev" and s :: ep_state
  assume "calm_event e"
  then show "(interest (trace (emit e s)) (epoll_fd (emit e s)) fd = i) =
      (interest (trace s) (epoll_fd s) fd = i)"
    by (cases e rule: calm_event.cases) simp_all
next
  fix s :: ep_state and c
  assume s: "interest (trace s) (epoll_fd s) fd = i" and busy: "current_send_request s \<noteq> NULL"
    and c: "opens_nothing c"
  show "wlp (do_call os c s) (\<lambda>_ t. interest (trace t) (epoll_fd t) fd = i)"
  proof (cases c)
    case (Call_Set j cb ud)
    then show ?thesis using s by (cases j) (simp_all add: ep_setter_defs)
  qed (use s busy c in \<open>simp_all add: ep_send_def send_busy_ep proactor_tcp_epoll_stop_def
      proactor_tcp_epoll_wake_def ep_sys_defs\<close>)
qed simp_all

end
