(* ===== verification/Epoll_Theorems.thy ===== *)
theory Epoll_Theorems
  imports Epoll_Writes
begin

unbundle bit_operations_syntax

text \<open>
  The properties of the epoll back end, with a small concrete operating system on which each of
  them is exercised.
\<close>

section \<open>A concrete run\<close>

text \<open>
  Descriptors 3 (epoll), 4 and 5 (wake pipe), 6 (a connection), 7 (an accepted connection); reads
  deliver two bytes, writes accept at most two. The application answers every chunk it receives.
\<close>

definition demo_os :: epoll_os where
  "demo_os = \<lparr>
     os_read = (\<lambda>h fd n. Some (take n [1, 2])),
     os_write = (\<lambda>h fd bs. min 2 (int (length bs))),
     os_pipe = (\<lambda>h. Some (4, 5)),
     os_socket = (\<lambda>h. 6),
     os_bind = (\<lambda>h fd a. 0),
     os_listen = (\<lambda>h fd n. 0),
     os_connect = (\<lambda>h fd a. 0),
     os_accept = (\<lambda>h fd. 7),
     os_inet_pton = (\<lambda>a. Some 0x7F000001),
     os_malloc = (\<lambda>h n. True),
     os_epoll_create1 = (\<lambda>h. 3),
     os_epoll_ctl = (\<lambda>h epfd oper fd events. 0),
     os_epoll_wait = (\<lambda>h epfd n. Wait_Events (take n [(6, EPOLLIN), (6, EPOLLOUT)]))\<rparr>"

definition demo_script :: ep_script where
  "demo_script h cb =
     (case cb of CbReceive _ fd bs _ \<Rightarrow> [Call_Send fd (rev bs), Call_Stop] | _ \<Rightarrow> [])"

definition after :: "('a, ep_state) outcome \<Rightarrow> ep_state" where
  "after m = (case m of Ret _ s \<Rightarrow> s | _ \<Rightarrow> ep_initial)"

definition demo_init :: ep_state where
  "demo_init = after (proactor_tcp_epoll_init demo_os ep_initial)"

definition demo_connected :: ep_state where
  "demo_connected = after (do_call demo_os (Call_Connect ''127.0.0.1'' 44818) demo_init)"

definition demo_busy :: ep_state where
  "demo_busy = after (do_call demo_os (Call_Send 6 [10, 20, 30]) demo_connected)"

lemma demo_ok: "epoll_ok demo_os" "os_eager demo_os" "posix_ok demo_os"
  by (auto simp: epoll_ok_def posix_ok_def os_eager_def demo_os_def)

lemma demo_init_ret: "proactor_tcp_epoll_init demo_os ep_initial = Ret 0 demo_init"
  by (simp add: demo_init_def after_def proactor_tcp_epoll_init_def ep_sys_defs demo_os_def)

lemma demo_connect_ret:
  "do_call demo_os (Call_Connect ''127.0.0.1'' 44818) demo_init = Ret () demo_connected"
  by (simp add: demo_connected_def after_def proactor_tcp_epoll_connect_def ep_sys_defs demo_os_def)

lemma demo_init_fields:
  "current_send_request demo_init = NULL" "heap demo_init = Map.empty" "brk demo_init = 0"
  "wakeup_fds demo_init = (4, 5)" "epoll_fd demo_init = 3" "server_socket demo_init = - 1"
  "stop demo_init = 0" "send_complete_callback demo_init = NULL"
  "receive_callback demo_init = NULL"
  by (simp_all add: demo_init_def after_def proactor_tcp_epoll_init_def ep_sys_defs demo_os_def
      ep_initial_def)

lemma demo_connected_fields:
  "current_send_request demo_connected = NULL" "heap demo_connected = Map.empty"
  "brk demo_connected = 0" "wakeup_fds demo_connected = (4, 5)" "epoll_fd demo_connected = 3"
  "server_socket demo_connected = - 1" "stop demo_connected = 0"
  "send_complete_callback demo_connected = NULL" "receive_callback demo_connected = NULL"
  by (simp_all add: demo_connected_def after_def proactor_tcp_epoll_connect_def ep_sys_defs
      demo_os_def demo_init_fields)

lemma demo_send_ret:
  "do_call demo_os (Call_Send 6 [10, 20, 30]) demo_connected = Ret () demo_busy"
  by (simp add: demo_busy_def after_def ep_send_def proactor_tcp_epoll_send_def sys_malloc_def
      ep_sys_defs request_defs demo_os_def demo_connected_fields sizeof_SendRequest_def
      blank_request_def)

lemma demo_reachable:
  "ep_reachable demo_os demo_script demo_init"
  "ep_reachable demo_os demo_script demo_connected"
  "ep_reachable demo_os demo_script demo_busy"
proof -
  show "ep_reachable demo_os demo_script demo_init"
    using demo_init_ret by (rule ep_start)
  then show "ep_reachable demo_os demo_script demo_connected"
    using demo_connect_ret by (rule ep_api_call)
  then show "ep_reachable demo_os demo_script demo_busy"
    using demo_send_ret by (rule ep_api_call)
qed

section \<open>Memory safety\<close>

text \<open>
  Claim C5. Memory safety: however the application drives the back end through its API and
  however the operating system behaves within the laws of its calls, the run loop, every API
  call and the cleanup never dereference a null or freed pointer, free a block twice, or access
  memory outside of a buffer.
\<close>

theorem ep_memory_safe:
  assumes "epoll_ok os" and "ep_reachable os script s"
  shows "proactor_tcp_epoll_run os (api_app os script) k s \<noteq> Fault f \<and>
    do_call os c s \<noteq> Fault f \<and> proactor_tcp_epoll_cleanup s \<noteq> Fault f"
proof -
  let ?w = "snd (wakeup_fds s)"
  have inv: "ep_inv os ?w s" using assms by (intro ep_reachable_inv)
  have "wp (proactor_tcp_epoll_run os (api_app os script) k s)
      (\<lambda>_ t. ep_inv os ?w t \<and> stop t \<noteq> 0) (\<lambda>_ _. True)"
    using inv ep_api.iteration_inv by (intro ep_loop.run_invariant) auto
  moreover have "wp (do_call os c s) (\<lambda>_ t. ep_inv os ?w t \<and> keeps_slot ?w s t) (\<lambda>_ _. True)"
    using inv by (rule do_call_inv)
  moreover obtain t where "proactor_tcp_epoll_cleanup s = Ret () t"
    using cleanup_returns [OF inv] by blast
  ultimately show ?thesis by (auto dest: wp_not_Fault)
qed

theorem ep_memory_safe_witness:
  "proactor_tcp_epoll_run demo_os (api_app demo_os demo_script) 5 demo_busy \<noteq> Fault Bad_Free \<and>
   do_call demo_os (Call_Send 6 [1]) demo_busy \<noteq> Fault Bad_Free \<and>
   proactor_tcp_epoll_cleanup demo_busy \<noteq> Fault Bad_Free"
  by (rule ep_memory_safe [OF demo_ok(1) demo_reachable(3)])

text \<open>
  Claim C18. No leaks: in every reachable state without a message in flight nothing is allocated,
  and in every reachable state the cleanup releases everything that is. (It keeps the pointer to
  the released message, however.)
\<close>

theorem ep_no_leak:
  assumes "epoll_ok os" and "ep_reachable os script s"
  shows "(current_send_request s = NULL \<longrightarrow> heap s = Map.empty) \<and>
    (\<exists>t. proactor_tcp_epoll_cleanup s = Ret () t \<and> heap t = Map.empty \<and>
       current_send_request t = current_send_request s)"
proof -
  have inv: "ep_inv os (snd (wakeup_fds s)) s" using assms by (intro ep_reachable_inv)
  then show ?thesis
    using cleanup_returns [OF inv] by (auto simp: ep_inv_def)
qed

theorem ep_no_leak_witness:
  "heap demo_connected = Map.empty \<and>
    (\<exists>t. proactor_tcp_epoll_cleanup demo_busy = Ret () t \<and> heap t = Map.empty \<and>
       current_send_request t = current_send_request demo_busy)"
  using ep_no_leak [OF demo_ok(1) demo_reachable(2)] ep_no_leak [OF demo_ok(1) demo_reachable(3)]
    demo_connected_fields(1) by blast

text \<open>
  The cleanup leaves the module unusable when a message was in flight: the slot stays
  occupied, so every later send is refused, and a write event uses the released memory.
\<close>

theorem ep_cleanup_dangling:
  assumes "epoll_ok os" and "ep_reachable os script s" and "current_send_request s \<noteq> NULL"
    and "proactor_tcp_epoll_cleanup s = Ret () t"
  shows "proactor_tcp_epoll_send os fd d len t = Ret (- 1) t \<and>
    handle_write_event os app fd t = Fault Use_After_Free"
proof -
  have "heap t = Map.empty \<and> current_send_request t = current_send_request s"
    using cleanup_returns [OF ep_reachable_inv [OF assms(2,1)]] assms(4) by auto
  then show ?thesis
    using assms(3) by (simp add: send_busy_ep handle_write_event_def load_request_def)
qed

lemma demo_busy_fields: "current_send_request demo_busy \<noteq> NULL"
  by (simp add: demo_busy_def after_def ep_send_def proactor_tcp_epoll_send_def sys_malloc_def
      ep_sys_defs request_defs demo_os_def demo_connected_fields sizeof_SendRequest_def
      blank_request_def)

theorem ep_cleanup_dangling_witness:
  "proactor_tcp_epoll_send demo_os 6 [1] 1 (after (proactor_tcp_epoll_cleanup demo_busy)) =
     Ret (- 1) (after (proactor_tcp_epoll_cleanup demo_busy)) \<and>
   handle_write_event demo_os (api_app demo_os demo_script) 6
     (after (proactor_tcp_epoll_cleanup demo_busy)) = Fault Use_After_Free"
proof -
  obtain t where t: "proactor_tcp_epoll_cleanup demo_busy = Ret () t"
    using cleanup_returns [OF ep_reachable_inv [OF demo_reachable(3) demo_ok(1)]] by blast
  then show ?thesis
    using ep_cleanup_dangling [OF demo_ok(1) demo_reachable(3) demo_busy_fields t]
    by (simp add: after_def)
qed

text \<open>
  A cleanup before the initialisation closes descriptor 0, the standard input, three
  times: the wake pipe and the epoll descriptor are statics that start as 0 and not as -1.
\<close>

theorem ep_cleanup_uninitialised:
  "\<exists>t. proactor_tcp_epoll_cleanup ep_initial = Ret () t \<and>
     trace t = [EvClose 0, EvClose 0, EvClose 0]"
  by (simp add: cleanup_idle cleanup_closes_def emits_def ep_initial_def)

section \<open>Delivery\<close>

text \<open>
  Claim C1. Delivery: over any interleaving of sends and write events, with any partial or
  failed writes, the bytes accepted by the kernel, followed by what is still pending, are what
  was accepted and pending before, followed by the data of the sends that returned 0, in order:
  nothing is lost, duplicated or reordered, and a refused send changes nothing.
\<close>

theorem ep_delivery:
  assumes "epoll_ok os" and "ep_reachable os script s" and "w = snd (wakeup_fds s)"
    and "list_all (slot_op_ok w) ops"
  shows "wp (slot_run (ep_send os sock) (handle_write_event os (api_app os script)) ops s)
    (\<lambda>ds t. ep_delivered w t @ outstanding (ep_pending t) =
       ep_delivered w s @ outstanding (ep_pending s) @ ds) (\<lambda>_ _. True)"
proof -
  have "ep_inv os w s"
    using ep_reachable_inv [OF assms(2,1)] by (simp add: assms(3))
  from ep_slot.run_total [OF this assms(4), of sock script] show ?thesis
    by (rule wp_mono) (simp_all add: ep_slot.total_def)
qed

lemmas ep_eval = ep_send_def proactor_tcp_epoll_send_def handle_write_event_def
  handle_data_event_def dispatch_event_def sys_malloc_def sys_free_def ep_sys_defs request_defs
  sizeof_SendRequest_def blank_request_def call_app_def

definition demo_ops :: "slot_op list" where
  "demo_ops = [Send_Op [1, 2, 3], Writable_Op 6, Send_Op [9], Writable_Op 6, Send_Op [4]]"

definition demo_after_ops :: ep_state where
  "demo_after_ops = (case slot_run (ep_send demo_os 6)
     (handle_write_event demo_os (api_app demo_os demo_script)) demo_ops demo_connected of
     Ret _ t \<Rightarrow> t | _ \<Rightarrow> ep_initial)"

lemma demo_ops_run:
  "slot_run (ep_send demo_os 6) (handle_write_event demo_os (api_app demo_os demo_script))
     demo_ops demo_connected = Ret [1, 2, 3, 4] demo_after_ops"
  by (simp add: demo_after_ops_def demo_ops_def ep_eval demo_os_def demo_connected_fields)

lemma demo_connected_stream:
  "wakeup_fds demo_connected = (4, 5)" "ep_delivered 5 demo_connected = []"
  "ep_pending demo_connected = None"
  by (simp_all add: demo_connected_def demo_init_def after_def proactor_tcp_epoll_connect_def
      proactor_tcp_epoll_init_def ep_sys_defs demo_os_def ep_initial_def ep_delivered_def
      ep_pending_def)

theorem ep_delivery_witness:
  "ep_delivered 5 demo_after_ops @ outstanding (ep_pending demo_after_ops) = [1, 2, 3, 4]"
proof -
  have "list_all (slot_op_ok 5) demo_ops" by (simp add: demo_ops_def)
  then show ?thesis
    using ep_delivery [OF demo_ok(1) demo_reachable(2), of 5 demo_ops 6] demo_ops_run
    by (simp add: demo_connected_stream outstanding_def)
qed

text \<open>
  Claim C21. Draining: if the peer accepts at least one byte of every write, a pending message is
  completely written, and the slot free again, after one more write event than it has bytes.
\<close>

theorem ep_drains:
  assumes "epoll_ok os" and "ep_reachable os script s" and "w = snd (wakeup_fds s)"
    and "os_eager os" and "ep_pending s = Some bs" and "length bs < length fds"
    and "w \<notin> set fds"
  shows "wp (for_each (handle_write_event os (api_app os script)) fds s)
    (\<lambda>_ t. current_send_request t = NULL \<and> ep_delivered w t = ep_delivered w s @ bs)
    (\<lambda>_ _. True)"
proof -
  have inv: "ep_inv os w s"
    using ep_reachable_inv [OF assms(2,1)] by (simp add: assms(3))
  have "wp (for_each (handle_write_event os (api_app os script)) fds s)
      (\<lambda>_ t. ep_inv os w t \<and> ep_pending t = None \<and>
         ep_delivered w t = ep_slot.total w s) (\<lambda>_ _. True)"
    using assms(4-7) inv by (intro ep_slot.drains) auto
  then show ?thesis
    by (rule wp_mono)
      (auto simp: ep_pending_None_iff ep_slot.total_def outstanding_def assms(5))
qed

lemma demo_busy_pending: "ep_pending demo_busy = Some [10, 20, 30]" "wakeup_fds demo_busy = (4, 5)"
  by (simp_all add: demo_busy_def after_def ep_eval demo_os_def demo_connected_fields
      ep_pending_def slot_pending_def)

theorem ep_drains_witness:
  "wp (for_each (handle_write_event demo_os (api_app demo_os demo_script)) [6, 6, 6, 6] demo_busy)
    (\<lambda>_ t. current_send_request t = NULL \<and>
       ep_delivered 5 t = ep_delivered 5 demo_busy @ [10, 20, 30]) (\<lambda>_ _. True)"
  by (rule ep_drains [OF demo_ok(1) demo_reachable(3)])
    (simp_all add: demo_busy_pending demo_ok)

section \<open>Input\<close>

text \<open>
  Claim C6. Input: while a receive callback is installed, the run loop hands over exactly the
  bytes it reads, connection by connection and in order, after any number of rounds and whatever
  the callbacks do, provided that they do not remove the receive callback or start a server.
\<close>

theorem ep_input_exact:
  assumes "epoll_ok os" and "ep_reachable os script s"
    and "uses steady_call script" and "receive_callback s \<noteq> NULL"
  shows "wp (ep_rounds os (api_app os script) k s)
    (\<lambda>_ t. \<exists>es. trace t = trace s @ es \<and>
       (\<forall>fd. fd \<noteq> fst (wakeup_fds s) \<longrightarrow> handed_stream fd es = read_stream fd es))
    (\<lambda>_ _. True)"
  by (rule wp_mono [OF wp_wlp [OF rounds_inv [OF ep_reachable_inv [OF assms(2,1)]]
        rounds_input [OF assms(3,4)]]]) (auto simp: input_step_def)

definition demo_listening :: ep_state where
  "demo_listening = after (do_call demo_os (Call_Set Receive_Slot 900 901) demo_connected)"

lemma demo_listening_ret:
  "do_call demo_os (Call_Set Receive_Slot 900 901) demo_connected = Ret () demo_listening"
  by (simp add: demo_listening_def after_def)

lemma demo_listening_fields:
  "receive_callback demo_listening = 900" "wakeup_fds demo_listening = (4, 5)"
  "server_socket demo_listening = - 1" "stop demo_listening = 0"
  "current_send_request demo_listening = NULL" "heap demo_listening = Map.empty"
  "brk demo_listening = 0" "epoll_fd demo_listening = 3"
  "send_complete_callback demo_listening = NULL" "receive_callback_user_data demo_listening = 901"
  by (simp_all add: demo_listening_def after_def ep_setter_defs demo_connected_fields)

lemma demo_listening_reachable: "ep_reachable demo_os demo_script demo_listening"
  using demo_reachable(2) demo_listening_ret by (rule ep_api_call)

lemma demo_script_steady: "uses steady_call demo_script"
  by (simp add: uses_def demo_script_def steady_call_def split: ep_x.split)

lemma demo_round:
  "\<exists>t es. ep_rounds demo_os (api_app demo_os demo_script) 1 demo_listening = Ret () t \<and>
     trace t = trace demo_listening @ es \<and> handed_stream 6 es = [1, 2]"
  by (simp add: run_iteration_def api_app_def demo_script_def MAX_EVENTS_def
      BUFFER_SIZE_def ep_eval demo_os_def demo_listening_fields EPOLLIN_def EPOLLOUT_def
      proactor_tcp_epoll_stop_def proactor_tcp_epoll_wake_def)

theorem ep_input_exact_witness:
  "\<exists>t es. ep_rounds demo_os (api_app demo_os demo_script) 1 demo_listening = Ret () t \<and>
     trace t = trace demo_listening @ es \<and> handed_stream 6 es = [1, 2] \<and>
     read_stream 6 es = [1, 2]"
  using ep_input_exact [OF demo_ok(1) demo_listening_reachable demo_script_steady, of 1] demo_round
  by (force simp: demo_listening_fields simp del: ep_rounds.simps)

text \<open>
  Claim C24. A closed connection ends the process: when a readable descriptor turns out to be at
  its end or in error, it is closed first and deregistered afterwards, which the kernel refuses,
  and the run loop exits with code 1 although other connections may be alive.
\<close>

theorem ep_disconnect_exits:
  assumes "closed_fd_rejected os" and "stop s = 0"
    and "os_epoll_wait os (trace s) (epoll_fd s) MAX_EVENTS = Wait_Events ((fd, ev) # evs)"
    and "length evs < MAX_EVENTS" and "ev AND EPOLLIN \<noteq> 0"
    and "fd \<noteq> fst (wakeup_fds s)" and "fd \<noteq> server_socket s"
    and "\<And>h. outstanding (os_read os h fd BUFFER_SIZE) = []"
  shows "\<exists>t. proactor_tcp_epoll_run os app (Suc k) s = Exit 1 t \<and>
    last (trace t) = EvPerror ''epoll_ctl''"
proof -
  let ?s = "emit (EvExt (EvEpollWait (epoll_fd s) MAX_EVENTS (Wait_Events ((fd, ev) # evs)))) s"
  have ctl: "os_epoll_ctl os (h @ [EvClose fd]) e oper fd m = - 1" for h e oper m
    using assms(1) fd_closed_after_close unfolding closed_fd_rejected_def by blast
  have ctl2: "os_epoll_ctl os (h @ [a, EvClose fd]) e oper fd m = - 1"
    "os_epoll_ctl os (h @ [a, b, EvClose fd]) e oper fd m = - 1" for h a b e oper m
    using ctl [of "h @ [a]"] ctl [of "h @ [a, b]"] by simp_all
  have "os_read os (trace ?s) fd BUFFER_SIZE = None \<or>
      os_read os (trace ?s) fd BUFFER_SIZE = Some []"
    using assms(8) [of "trace ?s"] by (auto simp: outstanding_def split: option.splits)
  then have "\<exists>t. handle_data_event os app fd ?s = Exit 1 t \<and> last (trace t) = EvPerror ''epoll_ctl''"
    by (auto simp: handle_data_event_def ep_sys_defs ctl ctl2)
  then show ?thesis
    using assms(2-7)
    by (auto simp: run_iteration_def sys_epoll_wait_def Let_def dispatch_event_def)
qed

definition gone_os :: epoll_os where
  "gone_os = demo_os\<lparr>os_read := (\<lambda>h fd n. Some []),
     os_epoll_ctl := (\<lambda>h epfd oper fd events. if fd_closed h fd then - 1 else 0)\<rparr>"

theorem ep_disconnect_exits_witness:
  "\<exists>t. proactor_tcp_epoll_run gone_os (api_app gone_os demo_script) 1 demo_connected = Exit 1 t \<and>
    last (trace t) = EvPerror ''epoll_ctl''"
  unfolding One_nat_def
  by (rule ep_disconnect_exits [where fd = 6 and ev = EPOLLIN and evs = "[(6, EPOLLOUT)]"])
    (simp_all add: gone_os_def closed_fd_rejected_def demo_connected_fields demo_os_def
      MAX_EVENTS_def EPOLLIN_def outstanding_def)

section \<open>Sending and watching\<close>

text \<open>
  Claim C29. Starvation: a descriptor that is reported readable is only read, so that as long as
  every report includes input, a message in flight is never written, for any number of rounds.
\<close>

theorem ep_write_starved:
  assumes "epoll_ok os" and "ep_reachable os script s" and "ep_pending s = Some bs"
    and "\<And>h epfd n evs ev. os_epoll_wait os h epfd n = Wait_Events evs \<Longrightarrow> ev \<in> set evs \<Longrightarrow>
      snd ev AND EPOLLIN \<noteq> 0"
  shows "wp (ep_rounds os (api_app os script) k s)
    (\<lambda>_ t. ep_pending t = Some bs \<and>
       ep_delivered (snd (wakeup_fds s)) t = ep_delivered (snd (wakeup_fds s)) s) (\<lambda>_ _. True)"
proof -
  let ?w = "snd (wakeup_fds s)"
  have inv: "ep_inv os ?w s" using assms(1,2) by (intro ep_reachable_inv)
  have "wp (ep_rounds os (api_app os script) k s)
      (\<lambda>_ t. ep_inv os ?w t \<and> keeps_slot ?w s t) (\<lambda>_ _. True)"
  proof (rule wp_rounds)
    fix t assume t: "ep_inv os ?w t \<and> keeps_slot ?w s t"
    then show "wp (run_iteration os (api_app os script) t)
        (\<lambda>_ u. ep_inv os ?w u \<and> keeps_slot ?w s u) (\<lambda>_ _. True)"
      using ep_api.iteration_input_keeps [of os ?w t script] assms(4)
      by (auto elim!: wp_mono intro: keeps_slot_trans)
  qed (use inv in simp)
  moreover have "current_send_request s \<noteq> NULL"
    using ep_pending_None_iff [OF inv] assms(3) by simp
  ultimately show ?thesis
    using assms(3) by (auto simp: keeps_slot_def ep_pending_def ep_delivered_def elim!: wp_mono)
qed

definition both_os :: epoll_os where
  "both_os = demo_os\<lparr>os_epoll_wait := (\<lambda>h epfd n. Wait_Events (take n [(6, EPOLLIN OR EPOLLOUT)]))\<rparr>"

definition both_busy :: ep_state where
  "both_busy = after (do_call both_os (Call_Send 6 [10, 20, 30]) demo_connected)"

lemma both_busy_reachable: "ep_reachable both_os demo_script both_busy"
proof -
  have "proactor_tcp_epoll_init both_os ep_initial = Ret 0 demo_init"
    by (simp add: demo_init_def after_def proactor_tcp_epoll_init_def ep_sys_defs demo_os_def
        both_os_def)
  moreover have "do_call both_os (Call_Connect ''127.0.0.1'' 44818) demo_init =
      Ret () demo_connected"
    by (simp add: demo_connected_def after_def proactor_tcp_epoll_connect_def ep_sys_defs
        demo_os_def both_os_def)
  moreover have "do_call both_os (Call_Send 6 [10, 20, 30]) demo_connected = Ret () both_busy"
    by (simp add: both_busy_def after_def ep_eval demo_os_def both_os_def demo_connected_fields)
  ultimately show ?thesis by (blast intro: ep_start ep_api_call)
qed

theorem ep_write_starved_witness:
  "wp (ep_rounds both_os (api_app both_os demo_script) 9 both_busy)
    (\<lambda>_ t. ep_pending t = Some [10, 20, 30] \<and>
       ep_delivered (snd (wakeup_fds both_busy)) t =
         ep_delivered (snd (wakeup_fds both_busy)) both_busy) (\<lambda>_ _. True)"
proof (rule ep_write_starved [OF _ both_busy_reachable])
  show "epoll_ok both_os"
    by (auto simp: both_os_def demo_os_def epoll_ok_def posix_ok_def)
  show "ep_pending both_busy = Some [10, 20, 30]"
    by (simp add: both_busy_def after_def ep_eval demo_os_def both_os_def demo_connected_fields
        ep_pending_def slot_pending_def)
next
  fix h epfd n evs ev
  assume "os_epoll_wait both_os h epfd n = Wait_Events evs" and "ev \<in> set evs"
  then show "snd ev AND EPOLLIN \<noteq> 0"
    by (cases n) (auto simp: both_os_def EPOLLIN_def EPOLLOUT_def)
qed

text \<open>
  Claim C30. A send ends the reception: it replaces the interest in input and output that the
  connection was registered with by an interest in output alone, and no write event puts it back,
  not even the one that completes the message, whatever the completion callback does, provided
  that it does not connect or start a server.
\<close>

theorem ep_send_stops_input:
  assumes "epoll_ok os" and "ep_reachable os script s" and "ep_pending s = None"
    and "uses opens_nothing script" and "length d < 2 ^ 64"
  shows "wp (and_then (ep_send os fd d s)
      (\<lambda>_. for_each (handle_write_event os (api_app os script)) fds))
    (\<lambda>_ t. interest (trace t) (epoll_fd t) fd = Some EPOLLOUT \<and> EPOLLOUT AND EPOLLIN = 0)
    (\<lambda>_ _. True)"
proof -
  let ?w = "snd (wakeup_fds s)"
  let ?int = "\<lambda>t. interest (trace t) (epoll_fd t) fd = Some EPOLLOUT"
  have inv: "ep_inv os ?w s" using assms(1,2) by (intro ep_reachable_inv)
  then have "current_send_request s = NULL" using assms(3) ep_pending_None_iff by blast
  from wp_wlp [OF ep_send_free [OF inv assms(3,5)] send_interest [OF this]]
  have "wp (and_then (ep_send os fd d s)
      (\<lambda>_. for_each (handle_write_event os (api_app os script)) fds)) (\<lambda>_. ?int) (\<lambda>_ _. True)"
  proof (rule wp_seq)
    fix a t
    assume t: "(a = 0 \<and> ep_inv os ?w t \<and> ep_pending t = Some d \<and>
      ep_delivered ?w t = ep_delivered ?w s) \<and> ?int t"
    have "wp (for_each (handle_write_event os (api_app os script)) fds t)
        (\<lambda>_. ep_inv os ?w) (\<lambda>_ _. True)"
      by (rule wp_for_each) (use t ep_api.write_event_inv in auto)
    moreover have "wlp (for_each (handle_write_event os (api_app os script)) fds t) (\<lambda>_. ?int)"
      by (rule watched.keeps_write_events [OF assms(4)]) (use t in simp_all)
    ultimately show "wp (for_each (handle_write_event os (api_app os script)) fds t)
        (\<lambda>_. ?int) (\<lambda>_ _. True)"
      by (rule wp_wlp [THEN wp_mono]) simp_all
  qed
  then show ?thesis
    by (rule wp_mono) (simp_all add: EPOLLIN_def EPOLLOUT_def)
qed

text \<open>An application that is told of the completion, and sends again from there.\<close>

definition again_script :: ep_script where
  "again_script h cb = (case cb of CbSent _ fd _ \<Rightarrow> [Call_Send fd [7], Call_Wake] | _ \<Rightarrow> [])"

definition demo_completing :: ep_state where
  "demo_completing = after (do_call demo_os (Call_Set Sent_Slot 902 903) demo_connected)"

lemma demo_completing_ret:
  "do_call demo_os (Call_Set Sent_Slot 902 903) demo_connected = Ret () demo_completing"
  by (simp add: demo_completing_def after_def)

lemma demo_completing_fields:
  "ep_pending demo_completing = None" "send_complete_callback demo_completing = 902"
  using demo_connected_stream
  by (simp_all add: demo_completing_def after_def ep_setter_defs ep_pending_def)

lemma again_reachable: "ep_reachable demo_os again_script demo_completing"
  using demo_init_ret demo_connect_ret demo_completing_ret by (blast intro: ep_start ep_api_call)

theorem ep_send_stops_input_witness:
  "send_complete_callback demo_completing \<noteq> NULL \<and>
   wp (and_then (ep_send demo_os 6 [10, 20, 30] demo_completing)
      (\<lambda>_. for_each (handle_write_event demo_os (api_app demo_os again_script)) [6, 6]))
    (\<lambda>_ t. interest (trace t) (epoll_fd t) 6 = Some EPOLLOUT \<and> EPOLLOUT AND EPOLLIN = 0)
    (\<lambda>_ _. True)"
proof -
  have "uses opens_nothing again_script"
    by (simp add: uses_def again_script_def split: ep_x.split)
  then show ?thesis
    by (intro conjI ep_send_stops_input [OF demo_ok(1) again_reachable demo_completing_fields(1)])
      (simp_all add: demo_completing_fields)
qed

text \<open>
  A send forgets its socket: after a send on \<open>sock\<close>, the next write event writes the
  whole message to the descriptor of that event, whichever connection it is.
\<close>

theorem ep_send_any_socket:
  assumes "epoll_ok os" and "ep_reachable os script s" and "ep_pending s = None"
    and "length d < 2 ^ 64"
  shows "wp (and_then (ep_send os sock d s) (\<lambda>_. handle_write_event os (api_app os script) fd))
    (\<lambda>_ t. \<exists>n. EvWrite fd d n \<in> set (trace t)) (\<lambda>_ _. True)"
proof -
  let ?w = "snd (wakeup_fds s)"
  have inv: "ep_inv os ?w s" using assms(1,2) by (intro ep_reachable_inv)
  show ?thesis
  proof (rule wp_seq [OF ep_send_free [OF inv assms(3,4), of sock]])
    fix r t
    assume t: "r = 0 \<and> ep_inv os ?w t \<and> ep_pending t = Some d \<and>
      ep_delivered ?w t = ep_delivered ?w s"
    then have invt: "ep_inv os ?w t" by simp
    then have "current_send_request t \<noteq> NULL"
      using ep_pending_None_iff [OF invt] t by auto
    with invt obtain q bs where req: "request_in (current_send_request t) (heap t) q bs"
      by (rule ep_inv_request)
    then have "d = drop (unat (sr_offset q)) bs"
      using t slot_pending_request by (simp add: ep_pending_def)
    then show "wp (handle_write_event os (api_app os script) fd t)
        (\<lambda>_ t. \<exists>n. EvWrite fd d n \<in> set (trace t)) (\<lambda>_ _. True)"
      using wp_wlp [OF ep_api.write_event_inv [OF invt] write_event_writes [OF req]]
      by (fastforce elim: wp_mono)
  qed
qed

theorem ep_send_any_socket_witness:
  "wp (and_then (ep_send demo_os 6 [10, 20, 30] demo_connected)
      (\<lambda>_. handle_write_event demo_os (api_app demo_os demo_script) 7))
    (\<lambda>_ t. \<exists>n. EvWrite 7 [10, 20, 30] n \<in> set (trace t)) (\<lambda>_ _. True)"
  by (rule ep_send_any_socket [OF demo_ok(1) demo_reachable(2) demo_connected_stream(3)]) simp

section \<open>Stopping\<close>

text \<open>
  What a program can do with the module between two runs: API calls, a cleanup, a new
  initialisation, and running the loop again (with a bound on its rounds).
\<close>

datatype ep_action = Do_Call ep_call | Do_Init | Do_Cleanup | Do_Run nat

fun do_action :: "epoll_os \<Rightarrow> ep_script \<Rightarrow> ep_action \<Rightarrow> unit ep_run" where
  "do_action os script (Do_Call c) s = do_call os c s"
| "do_action os script Do_Init s = and_then (proactor_tcp_epoll_init os s) (\<lambda>_. Ret ())"
| "do_action os script Do_Cleanup s = proactor_tcp_epoll_cleanup s"
| "do_action os script (Do_Run k) s =
     proactor_tcp_epoll_run os (api_app os script) (Suc k) s"

text \<open>A wait for events, or a callback.\<close>

fun loop_event :: "ep_x posix_ev \<Rightarrow> bool" where
  "loop_event (EvExt (EvEpollWait e n r)) = True"
| "loop_event (EvExt (CbReceive cb fd bs ud)) = True"
| "loop_event (EvExt (CbSent cb fd ud)) = True"
| "loop_event (EvExt (CbAccept cb fd c ud)) = True"
| "loop_event e = False"

definition stays_stopped :: "ep_state \<Rightarrow> ep_state \<Rightarrow> bool" where
  "stays_stopped s t \<longleftrightarrow> stop t \<noteq> 0 \<and>
     (\<exists>es. trace t = trace s @ es \<and> list_all (\<lambda>e. \<not> loop_event e) es)"

lemma stays_stopped_trans: "stays_stopped s t \<Longrightarrow> stays_stopped t u \<Longrightarrow> stays_stopped s u"
  by (auto simp: stays_stopped_def)

lemma action_stopped:
  assumes "stop s \<noteq> 0"
  shows "do_action os script x s \<noteq> Out_Of_Fuel \<and>
    wlp (do_action os script x s) (\<lambda>_. stays_stopped s)"
proof (cases x)
  case (Do_Call c)
  have "\<not> loop_event e" if "api_event e" for e
    using that by (cases e rule: api_event.cases) simp_all
  then have "wlp (do_call os c s) (\<lambda>_. stays_stopped s)"
    by (intro wlp_mono [OF do_call_step [of "\<lambda>_. True"]])
      (use assms in \<open>auto simp: ep_step_def stays_stopped_def list_all_iff\<close>)
  then show ?thesis by (simp add: Do_Call)
next
  case Do_Init
  then show ?thesis
    using assms by (auto simp: proactor_tcp_epoll_init_def ep_sys_defs stays_stopped_def
        split: option.split)
next
  case Do_Cleanup
  have "proactor_tcp_epoll_cleanup s \<noteq> Out_Of_Fuel"
    by (auto simp: proactor_tcp_epoll_cleanup_def and_then_eq_Fuel_iff sys_close_def
        split: if_splits)
  moreover have "wlp (proactor_tcp_epoll_cleanup s) (\<lambda>_. stays_stopped s)"
    using assms by (auto simp: proactor_tcp_epoll_cleanup_def sys_close_def stays_stopped_def
        intro!: wlp_request_intros)
  ultimately show ?thesis by (simp add: Do_Cleanup)
next
  case (Do_Run k)
  then show ?thesis using assms by (simp add: stays_stopped_def)
qed

lemma actions_stopped:
  assumes "stop s \<noteq> 0"
  shows "for_each (do_action os script) xs s \<noteq> Out_Of_Fuel \<and>
    wlp (for_each (do_action os script) xs s) (\<lambda>_. stays_stopped s)"
  using assms
proof (induction xs arbitrary: s)
  case Nil
  then show ?case by (simp add: stays_stopped_def)
next
  case (Cons x xs)
  note first = action_stopped [OF Cons.prems, of os script x]
  show ?case
  proof (cases "do_action os script x s")
    case (Ret a t)
    then have t: "stays_stopped s t" using first by simp
    then have "stop t \<noteq> 0" by (simp add: stays_stopped_def)
    with Cons.IH have run: "for_each (do_action os script) xs t \<noteq> Out_Of_Fuel"
      "wlp (for_each (do_action os script) xs t) (\<lambda>_. stays_stopped t)"
      by blast+
    have "wlp (for_each (do_action os script) xs t) (\<lambda>_. stays_stopped s)"
      by (rule wlp_mono [OF run(2)]) (rule stays_stopped_trans [OF t])
    then show ?thesis using run(1) by (simp add: Ret)
  qed (use first in simp_all)
qed

text \<open>
  Claim C33. The stop flag is never reset: once it is set, whatever the program does, in any
  order and any number of times - API calls, cleanups, new initialisations, running the loop -
  no event is waited for and no callback is called again, and every run of the loop returns at
  once with the state unchanged.
\<close>

theorem ep_stop_for_good:
  assumes "stop s \<noteq> 0"
  shows "for_each (do_action os script) actions s \<noteq> Out_Of_Fuel \<and>
    wlp (for_each (do_action os script) actions s)
      (\<lambda>_ t. (\<exists>es. trace t = trace s @ es \<and> list_all (\<lambda>e. \<not> loop_event e) es) \<and>
         proactor_tcp_epoll_run os (api_app os script) (Suc k) t = Ret () t)"
proof -
  note run = actions_stopped [OF assms, of os script actions]
  then have "wlp (for_each (do_action os script) actions s)
      (\<lambda>_ t. (\<exists>es. trace t = trace s @ es \<and> list_all (\<lambda>e. \<not> loop_event e) es) \<and>
         proactor_tcp_epoll_run os (api_app os script) (Suc k) t = Ret () t)"
    by (elim conjE wlp_mono) (simp add: stays_stopped_def)
  with run show ?thesis by simp
qed

text \<open>
  Claim C20. The loop ends: with an application that stops it on the \<open>n\<close>-th chunk of input, on a
  system where every round finds bytes to read on some connection, the run loop returns or exits
  within \<open>n + 2\<close> tests of its flag.
\<close>

theorem ep_run_ends:
  assumes "epoll_ok os" and "ep_reachable os script s" and "receive_callback s \<noteq> NULL"
    and "uses steady_call script" and "stops_after n script" and "always_readable os c"
    and "c \<noteq> fst (wakeup_fds s)" and "c \<noteq> server_socket s"
  shows "proactor_tcp_epoll_run os (api_app os script) (n + 2) s \<noteq> Out_Of_Fuel"
proof -
  let ?run = "proactor_tcp_epoll_run os (api_app os script)"
  let ?J = "\<lambda>t. ep_inv os (snd (wakeup_fds s)) t \<and> input_step s t"
  let ?rank = "\<lambda>t. n - chunks (trace t)"
  have "?run (Suc (Suc (?rank s))) s \<noteq> Out_Of_Fuel"
  proof (rule ep_loop.run_terminates [where J = ?J])
    fix t assume t: "?J t"
    show "run_iteration os (api_app os script) t \<noteq> Out_Of_Fuel"
      by (rule iteration_fuel)
    fix u assume "\<not> stop t \<noteq> 0" and u: "run_iteration os (api_app os script) t = Ret () u"
    have cb: "receive_callback t \<noteq> NULL" and c: "c \<noteq> fst (wakeup_fds t)" "c \<noteq> server_socket t"
      using t assms(7,8) by (simp_all add: input_step_def)
    have "chunks (trace t) < chunks (trace u) \<and> (n \<le> Suc (chunks (trace t)) \<longrightarrow> stop u \<noteq> 0)"
      using iteration_progress [OF assms(4) cb assms(5,6) c] u by simp
    moreover have "?J u"
      using ep_api.iteration_inv [of os _ t script] iteration_input [OF assms(4) cb] t u
      by (auto intro: input_step_trans dest: wp_RetD wlp_RetD)
    ultimately show "?J u \<and> (stop u \<noteq> 0 \<or> ?rank u < ?rank t)" by auto
  qed (use assms(1-3) ep_reachable_inv input_step_refl in auto)
  then show ?thesis
    using ep_loop.run_more_fuel [of os "api_app os script" "Suc (Suc (?rank s))" s "n - ?rank s"]
    by simp
qed

definition stopped_state :: ep_state where
  "stopped_state = after (do_call demo_os Call_Stop demo_connected)"

lemma stopped_ret: "do_call demo_os Call_Stop demo_connected = Ret () stopped_state"
  "stop stopped_state = 1"
  by (simp_all add: stopped_state_def after_def proactor_tcp_epoll_stop_def
      proactor_tcp_epoll_wake_def ep_sys_defs demo_os_def)

lemma stopped_fields:
  "wakeup_fds stopped_state = (4, 5)" "epoll_fd stopped_state = 3"
  "server_socket stopped_state = - 1" "client_socket stopped_state = 6"
  "current_send_request stopped_state = NULL"
  by (simp_all add: stopped_state_def after_def proactor_tcp_epoll_stop_def
      proactor_tcp_epoll_wake_def proactor_tcp_epoll_connect_def ep_sys_defs demo_os_def
      demo_connected_def demo_init_fields)

definition restart :: "ep_action list" where
  "restart = [Do_Run (Suc 0), Do_Cleanup, Do_Init, Do_Call Call_Wake]"

definition restarted_state :: ep_state where
  "restarted_state = after (for_each (do_action demo_os demo_script) restart stopped_state)"

lemma restarted_ret:
  "for_each (do_action demo_os demo_script) restart stopped_state = Ret () restarted_state"
  by (simp add: restarted_state_def restart_def after_def stopped_ret stopped_fields
      proactor_tcp_epoll_init_def cleanup_idle emits_def proactor_tcp_epoll_wake_def
      ep_sys_defs demo_os_def)

theorem ep_stop_for_good_witness:
  "(\<exists>es. trace restarted_state = trace stopped_state @ es \<and> list_all (\<lambda>e. \<not> loop_event e) es) \<and>
   proactor_tcp_epoll_run demo_os (api_app demo_os demo_script) 1 restarted_state =
     Ret () restarted_state"
  using ep_stop_for_good [of stopped_state demo_os demo_script restart 0]
  by (simp add: stopped_ret(2) restarted_ret)

lemma demo_script_stops: "stops_after 1 demo_script"
  by (simp add: stops_after_def demo_script_def)

lemma demo_os_readable: "always_readable demo_os 6"
  by (auto simp: always_readable_def demo_os_def EPOLLIN_def gr0_conv_Suc)

theorem ep_run_ends_witness:
  "proactor_tcp_epoll_run demo_os (api_app demo_os demo_script) (1 + 2) demo_listening \<noteq> Out_Of_Fuel"
  by (rule ep_run_ends [OF demo_ok(1) demo_listening_reachable _ demo_script_steady
        demo_script_stops demo_os_readable]) (simp_all add: demo_listening_fields)

section \<open>Setting up\<close>

fun ep_failed :: "ep_x \<Rightarrow> string option" where
  "ep_failed (EvEpollCreate fd) = (if fd = - 1 then Some ''epoll_create1'' else None)"
| "ep_failed (EvEpollCtl e oper fd ev r) = (if r = - 1 then Some ''epoll_ctl'' else None)"
| "ep_failed x = None"

lemmas ep_setup_defs = proactor_tcp_epoll_init_def proactor_tcp_epoll_connect_def
  proactor_tcp_epoll_start_server_def ep_sys_defs

lemma init_outcome:
  "wp (proactor_tcp_epoll_init os s)
     (\<lambda>r t. r = 0 \<and> epoll_fd t \<noteq> - 1 \<and> (\<exists>rc \<noteq> - 1. t = s\<lparr>epoll_fd := epoll_fd t,
        wakeup_fds := wakeup_fds t, trace := trace s @
          [EvExt (EvEpollCreate (epoll_fd t)), EvPipe (Some (wakeup_fds t)),
           EvExt (EvEpollCtl (epoll_fd t) EPOLL_CTL_ADD (fst (wakeup_fds t)) EPOLLIN rc)]\<rparr>))
     (\<lambda>c t. c = 1 \<and> ends_in_failure ep_failed (trace s) (trace t))"
  by (auto simp: ep_setup_defs emit_def intro!: ends_in_failure_run split: option.split)

lemma connect_outcome:
  "wp (proactor_tcp_epoll_connect os address port s)
     (\<lambda>r t. r = 0 \<and> client_socket t \<noteq> - 1 \<and> (\<exists>r1 rc. r1 \<noteq> - 1 \<and> rc \<noteq> - 1 \<and>
        t = s\<lparr>client_socket := client_socket t, trace := trace s @
          [EvSocket (client_socket t),
           EvConnect (client_socket t)
             \<lparr>sin_port = htons port, sin_addr = os_inet_pton os address\<rparr> r1,
           EvExt (EvEpollCtl (epoll_fd s) EPOLL_CTL_ADD (client_socket t)
             (EPOLLIN OR EPOLLOUT) rc)]\<rparr>))
     (\<lambda>c t. c = 1 \<and> ends_in_failure ep_failed (trace s) (trace t))"
  by (auto simp: ep_setup_defs emit_def intro!: ends_in_failure_run)

lemma start_server_outcome:
  "wp (proactor_tcp_epoll_start_server os port s)
     (\<lambda>r t. r = 0 \<and> server_socket t \<noteq> - 1 \<and> (\<exists>r1 r2 rc. r1 \<noteq> - 1 \<and> r2 \<noteq> - 1 \<and> rc \<noteq> - 1 \<and>
        t = s\<lparr>server_socket := server_socket t, trace := trace s @
          [EvSocket (server_socket t),
           EvBind (server_socket t) \<lparr>sin_port = htons port, sin_addr = Some 0\<rparr> r1,
           EvListen (server_socket t) SOMAXCONN r2,
           EvExt (EvEpollCtl (epoll_fd s) EPOLL_CTL_ADD (server_socket t) EPOLLIN rc)]\<rparr>))
     (\<lambda>c t. c = 1 \<and> ends_in_failure ep_failed (trace s) (trace t))"
  by (auto simp: ep_setup_defs emit_def INADDR_ANY_def intro!: ends_in_failure_run)

text \<open>
  Claim C34. Setting up: initialisation, connecting and starting a server return 0 only after
  exactly the intended calls have been made in order and have all succeeded - the server bound to
  the port on every interface in network byte order, listening with the full backlog, and watched
  for input; a connection watched for input and output; the wake pipe watched for input - and
  nothing but the descriptor concerned has changed. Otherwise the process exits with code 1 at the
  first call that fails, which is reported under its name.
\<close>

theorem ep_setup_outcomes:
  "wp (proactor_tcp_epoll_init os s)
     (\<lambda>r t. r = 0 \<and> epoll_fd t \<noteq> - 1 \<and> (\<exists>rc \<noteq> - 1. t = s\<lparr>epoll_fd := epoll_fd t,
        wakeup_fds := wakeup_fds t, trace := trace s @
          [EvExt (EvEpollCreate (epoll_fd t)), EvPipe (Some (wakeup_fds t)),
           EvExt (EvEpollCtl (epoll_fd t) EPOLL_CTL_ADD (fst (wakeup_fds t)) EPOLLIN rc)]\<rparr>))
     (\<lambda>c t. c = 1 \<and> ends_in_failure ep_failed (trace s) (trace t)) \<and>
   wp (proactor_tcp_epoll_connect os address port s)
     (\<lambda>r t. r = 0 \<and> client_socket t \<noteq> - 1 \<and> (\<exists>r1 rc. r1 \<noteq> - 1 \<and> rc \<noteq> - 1 \<and>
        t = s\<lparr>client_socket := client_socket t, trace := trace s @
          [EvSocket (client_socket t),
           EvConnect (client_socket t)
             \<lparr>sin_port = htons port, sin_addr = os_inet_pton os address\<rparr> r1,
           EvExt (EvEpollCtl (epoll_fd s) EPOLL_CTL_ADD (client_socket t)
             (EPOLLIN OR EPOLLOUT) rc)]\<rparr>))
     (\<lambda>c t. c = 1 \<and> ends_in_failure ep_failed (trace s) (trace t)) \<and>
   wp (proactor_tcp_epoll_start_server os port s)
     (\<lambda>r t. r = 0 \<and> server_socket t \<noteq> - 1 \<and> (\<exists>r1 r2 rc. r1 \<noteq> - 1 \<and> r2 \<noteq> - 1 \<and> rc \<noteq> - 1 \<and>
        t = s\<lparr>server_socket := server_socket t, trace := trace s @
          [EvSocket (server_socket t),
           EvBind (server_socket t) \<lparr>sin_port = htons port, sin_addr = Some 0\<rparr> r1,
           EvListen (server_socket t) SOMAXCONN r2,
           EvExt (EvEpollCtl (epoll_fd s) EPOLL_CTL_ADD (server_socket t) EPOLLIN rc)]\<rparr>))
     (\<lambda>c t. c = 1 \<and> ends_in_failure ep_failed (trace s) (trace t))"
  using init_outcome connect_outcome start_server_outcome by (intro conjI)

text \<open>
  An accepted connection is watched for input and output but not remembered: the
  static \<open>client_socket\<close> keeps its value, so the cleanup closes the same descriptors as before.
\<close>

theorem ep_accept_forgotten:
  assumes "os_accept os (trace s) fd = c" and "c \<noteq> - 1" and "accept_callback s = NULL"
  shows "wp (handle_accept_event os app fd s)
    (\<lambda>_ t. interest (trace t) (epoll_fd t) c = Some (EPOLLIN OR EPOLLOUT) \<and>
       client_socket t = client_socket s \<and> cleanup_closes t = cleanup_closes s)
    (\<lambda>x t. x = 1)"
  using assms by (simp add: handle_accept_event_def ep_sys_defs cleanup_closes_def)

theorem ep_accept_forgotten_witness:
  "wp (handle_accept_event demo_os (api_app demo_os demo_script) 8 ep_initial)
    (\<lambda>_ t. interest (trace t) (epoll_fd t) 7 = Some (EPOLLIN OR EPOLLOUT) \<and>
       client_socket t = client_socket ep_initial \<and>
       cleanup_closes t = cleanup_closes ep_initial)
    (\<lambda>x t. x = 1)"
  by (rule ep_accept_forgotten) (simp_all add: demo_os_def ep_initial_def)

text \<open>
  Callbacks: after any sequence of registrations each callback slot holds the callback
  and user data of the last registration for it, and nothing else has changed.
\<close>

theorem ep_last_registration_wins:
  "ep_get_cb i (fold (\<lambda>(j, c). ep_set_cb j c) cs s) =
     (case map_of (rev cs) i of None \<Rightarrow> ep_get_cb i s | Some c \<Rightarrow> c) \<and>
   ep_others (fold (\<lambda>(j, c). ep_set_cb j c) cs s) = ep_others s"
  using ep_callbacks.fold_set ep_callbacks.others_fold_set by blast

end
