(* ===== verification/Epoll_Outbox.thy ===== *)
theory Epoll_Outbox
  imports Epoll_Theorems
begin

text \<open>
  The epoll back end against the specification of an outbox: any interleaving of sends and write
  events is a run of the outbox with the same answers, and what the run loop delivers is made of
  whole messages of the application.
\<close>

section \<open>The back end refines the outbox\<close>

definition ep_outbox :: "int \<Rightarrow> ep_state \<Rightarrow> outbox" where
  "ep_outbox w s = \<lparr>ob_pending = ep_pending s, ob_sent = ep_delivered w s\<rparr>"

text \<open>
  Claim C2. Refinement: for any interleaving of sends and write events there is a run of the outbox, one
  event per operation, that gives the same answers and ends in the outbox that the state of the
  module stands for. So a send is refused exactly while a message is pending, an accepted message
  is taken over unchanged, and the slot is free again exactly when its last byte was accepted.
\<close>

theorem ep_refines_outbox:
  assumes "epoll_ok os" and "ep_reachable os script s" and "w = snd (wakeup_fds s)"
    and "list_all (slot_op_ok w) ops"
  shows "wp (slot_codes (ep_send os sock) (handle_write_event os (api_app os script)) ops s)
    (\<lambda>rs t. \<exists>es. list_all2 event_of ops es \<and>
       outbox_run es (ep_outbox w s) = (rs, ep_outbox w t)) (\<lambda>_ _. True)"
proof -
  have "ep_inv os w s"
    using ep_reachable_inv [OF assms(2,1)] by (simp add: assms(3))
  from ep_slot.run_refines [OF this assms(4), of sock script] show ?thesis
    by (rule wp_mono) (simp_all add: ep_slot.box_def ep_outbox_def)
qed

definition demo_refined :: ep_state where
  "demo_refined = (case slot_codes (ep_send demo_os 6)
     (handle_write_event demo_os (api_app demo_os demo_script)) demo_ops demo_connected of
     Ret _ t \<Rightarrow> t | _ \<Rightarrow> ep_initial)"

lemma demo_ops_codes:
  "slot_codes (ep_send demo_os 6) (handle_write_event demo_os (api_app demo_os demo_script))
     demo_ops demo_connected = Ret [0, 0, - 1, 0, 0] demo_refined"
  by (simp add: demo_refined_def demo_ops_def ep_eval demo_os_def demo_connected_fields)

theorem ep_refines_outbox_witness:
  "\<exists>es. list_all2 event_of demo_ops es \<and>
     outbox_run es (ep_outbox 5 demo_connected) = ([0, 0, - 1, 0, 0], ep_outbox 5 demo_refined)"
proof -
  have "list_all (slot_op_ok 5) demo_ops" by (simp add: demo_ops_def)
  then show ?thesis
    using ep_refines_outbox [OF demo_ok(1) demo_reachable(2), of 5 demo_ops 6] demo_ops_codes
    by (simp add: demo_connected_stream)
qed

section \<open>The run loop delivers whole messages\<close>

text \<open>What has been delivered, and then what is pending.\<close>

definition ep_total :: "int \<Rightarrow> ep_state \<Rightarrow> byte list" where
  "ep_total w s = ep_delivered w s @ outstanding (ep_pending s)"

lemma ep_total_emit: "accepted_by w e = [] \<Longrightarrow> ep_total w (emit e s) = ep_total w s"
  by (simp add: ep_total_def ep_delivered_def ep_pending_def)

definition sends_from :: "byte list set \<Rightarrow> ep_call \<Rightarrow> bool" where
  "sends_from D c \<longleftrightarrow> (case c of Call_Send fd d \<Rightarrow> d \<in> D \<and> length d < 2 ^ 64 | _ \<Rightarrow> True)"

text \<open>
  A step that adds some messages of \<open>D\<close> to the stream, namely those for which the application
  called send in this step and got the answer 0, in the order of the calls.
\<close>

definition adds_messages ::
    "epoll_os \<Rightarrow> int \<Rightarrow> byte list set \<Rightarrow> ep_state \<Rightarrow> ep_state \<Rightarrow> bool" where
  "adds_messages os w D s t \<longleftrightarrow> ep_inv os w t \<and>
     (\<exists>ds. set ds \<subseteq> D \<and> ep_total w t = ep_total w s @ concat ds \<and>
        sent_messages (trace t) = sent_messages (trace s) @ ds)"

lemma adds_none:
  "ep_inv os w t \<Longrightarrow> ep_total w t = ep_total w s \<Longrightarrow>
     sent_messages (trace t) = sent_messages (trace s) \<Longrightarrow> adds_messages os w D s t"
  by (auto simp: adds_messages_def intro: exI [of _ "[]"])

lemma adds_trans:
  assumes "adds_messages os w D s t" and "adds_messages os w D t u"
  shows "adds_messages os w D s u"
proof -
  obtain ds es where "set ds \<subseteq> D" "ep_total w t = ep_total w s @ concat ds"
    "sent_messages (trace t) = sent_messages (trace s) @ ds"
    "set es \<subseteq> D" "ep_total w u = ep_total w t @ concat es"
    "sent_messages (trace u) = sent_messages (trace t) @ es"
    using assms by (auto simp: adds_messages_def)
  then show ?thesis
    using assms(2) by (auto simp: adds_messages_def intro!: exI [of _ "ds @ es"])
qed

lemma adds_emit:
  "adds_messages os w D (emit e s) t \<Longrightarrow> accepted_by w e = [] \<Longrightarrow> sent_by e = [] \<Longrightarrow>
     adds_messages os w D s t"
  by (simp add: adds_messages_def ep_total_emit)

lemma adds_inv: "adds_messages os w D s t \<Longrightarrow> ep_inv os w t"
  by (simp add: adds_messages_def)

text \<open>Calls other than a send leave the slot and the stream alone.\<close>

lemma other_call_total:
  assumes "ep_inv os w s" and "\<And>fd d. c \<noteq> Call_Send fd d"
  shows "wlp (do_call os c s) (\<lambda>_ t. ep_total w t = ep_total w s \<and>
    sent_messages (trace t) = sent_messages (trace s))"
proof (cases c)
  case (Call_Set i cb ud)
  then show ?thesis
    by (cases i) (simp_all add: ep_setter_defs ep_total_def ep_pending_def ep_delivered_def)
qed (use assms in \<open>simp_all add: proactor_tcp_epoll_stop_def proactor_tcp_epoll_wake_def
    proactor_tcp_epoll_connect_def proactor_tcp_epoll_start_server_def ep_sys_defs ep_total_def
    ep_pending_def ep_delivered_def ep_invD\<close>)

lemma do_call_adds:
  assumes inv: "ep_inv os w s" and c: "sends_from D c"
  shows "wp (do_call os c s) (\<lambda>_ t. adds_messages os w D s t) (\<lambda>_ _. True)"
proof (cases "\<exists>fd d. c = Call_Send fd d")
  case True
  then obtain fd d where cd: "c = Call_Send fd d" by blast
  have "wp (ep_send os fd d s) (\<lambda>r t. ep_inv os w t \<and>
      ep_total w t = ep_total w s @ (if r = 0 then d else [])) (\<lambda>_ _. True)"
    using ep_slot.send_total [OF inv, of d fd] c
    by (simp add: cd sends_from_def ep_slot.total_def ep_total_def)
  then have "wp (ep_send os fd d s) (\<lambda>r t. (ep_inv os w t \<and>
      ep_total w t = ep_total w s @ (if r = 0 then d else [])) \<and>
      sent_messages (trace t) = sent_messages (trace s)) (\<lambda>_ _. True)"
    by (rule wp_wlp [OF _ send_unlogged])
  then have "wp (ep_send os fd d s)
      (\<lambda>r t. adds_messages os w D s (emit (EvExt (AppSent fd d r)) t)) (\<lambda>_ _. True)"
  proof (rule wp_mono)
    fix r :: int and t
    assume "(ep_inv os w t \<and> ep_total w t = ep_total w s @ (if r = 0 then d else [])) \<and>
      sent_messages (trace t) = sent_messages (trace s)"
    then show "adds_messages os w D s (emit (EvExt (AppSent fd d r)) t)"
      using c by (auto simp: cd sends_from_def adds_messages_def ep_total_emit
          intro!: exI [of _ "if r = 0 then [d] else []"])
  qed simp
  then show ?thesis by (simp add: cd)
next
  case False
  show ?thesis
    by (rule wp_wlp [OF do_call_inv [OF inv] other_call_total [OF inv], THEN wp_mono])
      (use False in \<open>auto intro: adds_none\<close>)
qed

lemma call_app_adds:
  assumes inv: "ep_inv os w s" and app: "uses (sends_from D) script"
    and cb: "sent_by (EvExt cb) = []"
  shows "wp (call_app (api_app os script) cb s) (\<lambda>_ t. adds_messages os w D s t) (\<lambda>_ _. True)"
proof -
  let ?s = "emit (EvExt cb) s"
  have "wp (for_each (do_call os) (script (trace ?s) cb) ?s)
      (\<lambda>_ t. adds_messages os w D s t) (\<lambda>_ _. True)"
  proof (rule wp_for_each)
    fix c t assume "c \<in> set (script (trace ?s) cb)" and t: "adds_messages os w D s t"
    then have "sends_from D c" using app by (auto simp: uses_def list_all_iff)
    from do_call_adds [OF adds_inv [OF t] this]
    show "wp (do_call os c t) (\<lambda>_ u. adds_messages os w D s u) (\<lambda>_ _. True)"
      by (rule wp_mono) (use t adds_trans in auto)
  qed (use inv cb in \<open>simp add: adds_none ep_total_emit\<close>)
  then show ?thesis by (simp add: call_app_def api_app_def)
qed

lemma data_event_adds:
  assumes inv: "ep_inv os w s" and app: "uses (sends_from D) script"
  shows "wp (handle_data_event os (api_app os script) fd s)
    (\<lambda>_ t. adds_messages os w D s t) (\<lambda>_ _. True)"
proof -
  let ?e = "EvRead fd BUFFER_SIZE (os_read os (trace s) fd BUFFER_SIZE)"
  have "wp (call_app (api_app os script) cb (emit ?e s))
      (\<lambda>_ t. adds_messages os w D s t) (\<lambda>_ _. True)" if "sent_by (EvExt cb) = []" for cb
    by (rule wp_mono [OF call_app_adds [OF _ app that]]) (use inv in \<open>auto intro: adds_emit\<close>)
  then show ?thesis
    using inv posix_okD(1) [OF ep_invD(1) [OF inv], of "trace s" fd BUFFER_SIZE]
    by (auto simp: handle_data_event_def ep_sys_defs ep_total_emit adds_none
        split: option.split)
qed

lemma accept_event_adds:
  assumes inv: "ep_inv os w s" and app: "uses (sends_from D) script"
  shows "wp (handle_accept_event os (api_app os script) fd s)
    (\<lambda>_ t. adds_messages os w D s t) (\<lambda>_ _. True)"
proof -
  let ?s = "emit (EvAccept fd (os_accept os (trace s) fd)) s"
  have ctl: "adds_messages os w D s (emit (EvExt (EvEpollCtl a b c d e)) t)"
    if "adds_messages os w D s t" for t a b c d e
    using that by (simp add: adds_messages_def ep_total_emit)
  have cb: "wp (call_app (api_app os script) cb ?s)
      (\<lambda>_ t. adds_messages os w D s t) (\<lambda>_ _. True)" if "sent_by (EvExt cb) = []" for cb
    by (rule wp_mono [OF call_app_adds [OF _ app that]]) (use inv in \<open>auto intro: adds_emit\<close>)
  then show ?thesis
    using inv
    by (auto simp: handle_accept_event_def ep_sys_defs ep_total_emit adds_none
        intro!: wp_mono [OF cb] ctl)
qed

lemma dispatch_adds:
  assumes inv: "ep_inv os w s" and app: "uses (sends_from D) script" and w: "fst ev \<noteq> w"
  shows "wp (dispatch_event os (api_app os script) ev s)
    (\<lambda>_ t. adds_messages os w D s t) (\<lambda>_ _. True)"
proof -
  obtain fd events where ev: "ev = (fd, events)" by (cases ev)
  have "wp (sys_read os (fst (wakeup_fds s)) 1 s) (\<lambda>_ t. adds_messages os w D s t) (\<lambda>_ _. True)"
    using inv posix_okD(1) [OF ep_invD(1) [OF inv]]
    by (auto simp: sys_defs ep_total_emit adds_none split: option.split)
  moreover have "wp (handle_write_event os (api_app os script) fd s)
      (\<lambda>_ t. adds_messages os w D s t) (\<lambda>_ _. True)"
  proof -
    have "uses (\<lambda>_. True) script" by (simp add: uses_def list_all_iff)
    from sent_log.keeps_write_event [OF this refl, where s = s and fd = fd]
    have "wlp (handle_write_event os (api_app os script) fd s)
        (\<lambda>_ t. sent_messages (trace t) = sent_messages (trace s))" by simp
    from wp_wlp [OF ep_slot.writable_total [OF inv, of fd script] this] w show ?thesis
      by (auto simp: ev ep_slot.total_def ep_total_def elim!: wp_mono intro!: adds_none)
  qed
  ultimately show ?thesis
    using data_event_adds [OF inv app, of fd] accept_event_adds [OF inv app, of fd]
      adds_none [OF inv refl]
    by (auto simp: dispatch_event_def ev)
qed

text \<open>
  The kernel reports registered descriptors only; the write end of the wake pipe is not one,
  unless the application registers it with a send.
\<close>

definition never_reports :: "epoll_os \<Rightarrow> int \<Rightarrow> bool" where
  "never_reports os w \<longleftrightarrow>
     (\<forall>h epfd n evs. os_epoll_wait os h epfd n = Wait_Events evs \<longrightarrow> w \<notin> fst ` set evs)"

lemma iteration_adds:
  assumes inv: "ep_inv os w s" and app: "uses (sends_from D) script" and w: "never_reports os w"
  shows "wp (run_iteration os (api_app os script) s)
    (\<lambda>_ t. adds_messages os w D s t) (\<lambda>_ _. True)"
proof -
  let ?r = "os_epoll_wait os (trace s) (epoll_fd s) MAX_EVENTS"
  let ?s = "emit (EvExt (EvEpollWait (epoll_fd s) MAX_EVENTS ?r)) s"
  have s: "adds_messages os w D s ?s" using inv by (simp add: adds_none ep_total_emit)
  have "wp (for_each (dispatch_event os (api_app os script)) evs ?s)
      (\<lambda>_ t. adds_messages os w D s t) (\<lambda>_ _. True)" if evs: "?r = Wait_Events evs" for evs
  proof (rule wp_for_each)
    fix ev t assume "ev \<in> set evs" and t: "adds_messages os w D s t"
    then have "fst ev \<noteq> w" using w evs by (force simp: never_reports_def)
    from dispatch_adds [OF adds_inv [OF t] app this]
    show "wp (dispatch_event os (api_app os script) ev t)
        (\<lambda>_ u. adds_messages os w D s u) (\<lambda>_ _. True)"
      by (rule wp_mono) (use t adds_trans in auto)
  qed (rule s)
  moreover have "?r = Wait_Events evs \<Longrightarrow> length evs \<le> MAX_EVENTS" for evs
    using ep_invD(2) [OF inv] by (simp add: epoll_ok_def)
  ultimately show ?thesis
    using s by (auto simp: run_iteration_def ep_sys_defs split: wait_result.split)
qed

text \<open>
  Claim C7. Whole messages: over any number of rounds of the run loop, whatever the callbacks do, the bytes
  the peers accept, followed by the pending ones, are what was accepted and pending before,
  followed by exactly the messages for which the callbacks called send meanwhile and were
  answered 0, complete and in the order of the calls. No message is mixed with another, cut,
  dropped, or sent again.
\<close>

theorem ep_run_whole_messages:
  assumes "epoll_ok os" and "ep_reachable os script s" and "w = snd (wakeup_fds s)"
    and "uses (sends_from D) script" and "never_reports os w"
  shows "wp (ep_rounds os (api_app os script) k s)
    (\<lambda>_ t. \<exists>ds. set ds \<subseteq> D \<and>
       ep_delivered w t @ outstanding (ep_pending t) =
       ep_delivered w s @ outstanding (ep_pending s) @ concat ds \<and>
       sent_messages (trace t) = sent_messages (trace s) @ ds) (\<lambda>_ _. True)"
proof -
  have inv: "ep_inv os w s"
    using ep_reachable_inv [OF assms(2,1)] by (simp add: assms(3))
  have "wp (ep_rounds os (api_app os script) k s) (\<lambda>_ t. adds_messages os w D s t) (\<lambda>_ _. True)"
  proof (rule wp_rounds)
    fix t assume t: "adds_messages os w D s t"
    show "wp (run_iteration os (api_app os script) t)
        (\<lambda>_ u. adds_messages os w D s u) (\<lambda>_ _. True)"
      by (rule wp_mono [OF iteration_adds [OF adds_inv [OF t] assms(4,5)]])
        (use t adds_trans in auto)
  qed (use inv in \<open>simp add: adds_none\<close>)
  then show ?thesis
    by (rule wp_mono) (auto simp: adds_messages_def ep_total_def)
qed

text \<open>An application that answers every chunk with the same message, on the small system.\<close>

definition echo_script :: ep_script where
  "echo_script h cb = (case cb of CbReceive _ fd bs _ \<Rightarrow> [Call_Send fd [7, 8, 9]] | _ \<Rightarrow> [])"

lemma echo_script_sends: "uses (sends_from {[7, 8, 9]}) echo_script"
  by (simp add: uses_def echo_script_def sends_from_def split: ep_x.split)

lemma demo_never_reports: "never_reports demo_os 5"
  by (auto simp: never_reports_def demo_os_def dest: in_set_takeD)

lemma echo_reachable: "ep_reachable demo_os echo_script demo_listening"
  using demo_init_ret demo_connect_ret demo_listening_ret by (blast intro: ep_start ep_api_call)

lemma demo_listening_stream: "ep_delivered 5 demo_listening = []" "ep_pending demo_listening = None"
  using demo_connected_stream
  by (simp_all add: demo_listening_def after_def ep_setter_defs ep_delivered_def ep_pending_def)

definition echo_state :: ep_state where
  "echo_state = (case ep_rounds demo_os (api_app demo_os echo_script) 1 demo_listening of
     Ret _ t \<Rightarrow> t | _ \<Rightarrow> ep_initial)"

lemma echo_rounds:
  "ep_rounds demo_os (api_app demo_os echo_script) 1 demo_listening = Ret () echo_state"
  by (simp add: echo_state_def run_iteration_def api_app_def echo_script_def
      MAX_EVENTS_def BUFFER_SIZE_def ep_eval demo_os_def demo_listening_fields EPOLLIN_def
      EPOLLOUT_def)

theorem ep_run_whole_messages_witness:
  "\<exists>ds. set ds \<subseteq> {[7, 8, 9]} \<and>
     ep_delivered 5 echo_state @ outstanding (ep_pending echo_state) = concat ds \<and>
     sent_messages (trace echo_state) = sent_messages (trace demo_listening) @ ds"
  using ep_run_whole_messages [OF demo_ok(1) echo_reachable _ echo_script_sends demo_never_reports,
      of 1] echo_rounds
  by (simp add: demo_listening_fields demo_listening_stream outstanding_def del: ep_rounds.simps)

end
