(* ===== verification/Epoll_Invariants.thy ===== *)
theory Epoll_Invariants
  imports Epoll_Theorems
begin

unbundle bit_operations_syntax

text \<open>
  Invariants of the epoll back end that look at the trace: what has to be checked of them, as a
  locale, and that the event handlers and the run loop then preserve them.
\<close>

section \<open>The contract of an invariant\<close>

text \<open>The events that neither open, close nor accept anything and write nothing.\<close>

fun quiet_event :: "ep_x posix_ev \<Rightarrow> bool" where
  "quiet_event (EvWrite fd bs n) = False"
| "quiet_event (EvAccept listener fd) = False"
| "quiet_event (EvClose fd) = False"
| "quiet_event (EvSocket fd) = False"
| "quiet_event (EvPipe fds) = False"
| "quiet_event (EvExt (EvEpollCreate fd)) = False"
| "quiet_event e = True"

text \<open>The way a handler takes leave of a connection.\<close>

definition drop_connection :: "epoll_os \<Rightarrow> int \<Rightarrow> unit ep_run" where
  "drop_connection os fd s =
     and_then (sys_close fd s) (\<lambda>_ s.
     and_then (sys_epoll_ctl os (epoll_fd s) EPOLL_CTL_DEL fd (EPOLLIN OR EPOLLOUT) s) (\<lambda>rc s.
     check (rc = - 1) ''epoll_ctl'' s))"

text \<open>
  An invariant \<open>I\<close> for applications that make only calls in \<open>A\<close>, on a kernel that reports, apart
  from the wake pipe, only descriptors in \<open>F\<close>.
\<close>

locale ep_invariant =
  fixes os :: epoll_os
    and I :: "ep_state \<Rightarrow> bool"
    and A :: "ep_call \<Rightarrow> bool"
    and F :: "int \<Rightarrow> bool"
  assumes heap_law: "I (s\<lparr>heap := cells\<rparr>) = I s"
    and slot_law: "I (s\<lparr>current_send_request := p\<rparr>) = I s"
    and quiet_law: "quiet_event e \<Longrightarrow> I (emit e s) = I s"
    and accept_law: "I s \<Longrightarrow> I (emit (EvAccept listener fd) s)"
    and write_law: "I s \<Longrightarrow> F fd \<Longrightarrow> I (emit (EvWrite fd bs written) s)"
    and drop_law: "I s \<Longrightarrow> wlp (drop_connection os fd s) (\<lambda>_. I)"
    and call_law: "I s \<Longrightarrow> A c \<Longrightarrow> wlp (do_call os c s) (\<lambda>_. I)"
    and report_law: "I s \<Longrightarrow> os_epoll_wait os h epfd n = Wait_Events evs \<Longrightarrow> ev \<in> set evs \<Longrightarrow>
      fst ev = fst (wakeup_fds s) \<or> F (fst ev)"
begin

lemma keeps_call_app:
  assumes "uses A script" and "quiet_event (EvExt cb)" and "I s"
  shows "wlp (call_app (api_app os script) cb s) (\<lambda>_. I)"
  unfolding call_app_def api_app_def
  by (rule wlp_for_each) (use assms in \<open>auto simp: uses_def list_all_iff quiet_law intro: call_law\<close>)

lemma keeps_data_event:
  assumes "uses A script" and s: "I s"
  shows "wlp (handle_data_event os (api_app os script) fd s) (\<lambda>_. I)"
  using s
  by (auto simp: handle_data_event_def sys_read_def Let_def quiet_law drop_connection_def [symmetric]
      simp del: wlp_and_then split: option.split intro!: drop_law keeps_call_app [OF assms(1)])

end

text \<open>Such an invariant is also one of the write handler.\<close>

lemma calm_quiet: "calm_event e \<Longrightarrow> quiet_event e"
  by (cases e rule: calm_event.cases) simp_all

sublocale ep_invariant \<subseteq> on_write: ep_write_invariant os I A F
  by unfold_locales (use heap_law slot_law quiet_law calm_quiet write_law call_law in auto)

context ep_invariant
begin

lemma keeps_accept_event:
  assumes app: "uses A script" and s: "I s"
  shows "wlp (handle_accept_event os (api_app os script) fd s) (\<lambda>_. I)"
proof -
  let ?c = "os_accept os (trace s) fd"
  have "I (emit (EvAccept fd ?c) s)" using s by (rule accept_law)
  then have told: "wlp (if accept_callback s \<noteq> NULL
      then call_app (api_app os script) (CbAccept (accept_callback s) fd ?c
             (accept_callback_user_data s)) (emit (EvAccept fd ?c) s)
      else Ret () (emit (EvAccept fd ?c) s)) (\<lambda>_. I)"
    by (auto intro: keeps_call_app [OF app])
  show ?thesis
    unfolding handle_accept_event_def sys_accept_def Let_def and_then.simps ep_emit
    by (intro wlp_ifI wlp_seq [OF told [unfolded ep_emit]])
      (use s in \<open>auto simp: ep_sys_defs quiet_law accept_law\<close>)
qed

lemma keeps_dispatch:
  assumes app: "uses A script" and s: "I s" and "fst ev = fst (wakeup_fds s) \<or> F (fst ev)"
  shows "wlp (dispatch_event os (api_app os script) ev s) (\<lambda>_. I)"
  using assms keeps_data_event [OF app s] on_write.keeps_write_event [OF app s] keeps_accept_event [OF app s]
  by (cases ev) (auto simp: dispatch_event_def sys_defs quiet_law split: option.split)

lemma keeps_iteration:
  assumes app: "uses A script" and s: "I s"
  shows "wlp (run_iteration os (api_app os script) s) (\<lambda>_. I)"
proof -
  let ?r = "os_epoll_wait os (trace s) (epoll_fd s) MAX_EVENTS"
  let ?s = "emit (EvExt (EvEpollWait (epoll_fd s) MAX_EVENTS ?r)) s"
  have "wlp (for_each (dispatch_event os (api_app os script)) evs ?s) (\<lambda>_. I)"
    if evs: "?r = Wait_Events evs" for evs
    by (rule wlp_for_each)
      (use s in \<open>auto simp: quiet_law intro: keeps_dispatch [OF app] dest: report_law [OF _ evs]\<close>)
  then show ?thesis
    using s by (auto simp: run_iteration_def ep_sys_defs quiet_law split: wait_result.split)
qed

lemma keeps_run:
  assumes app: "uses A script" and s: "I s"
  shows "wlp (proactor_tcp_epoll_run os (api_app os script) k s) (\<lambda>_. I)"
  using s
proof (induction k arbitrary: s)
  case (Suc k)
  then show ?case using keeps_iteration [OF app Suc.prems] by (auto elim: wlp_mono)
qed simp

end

end
