(* ===== verification/Epoll_Liveness.thy ===== *)
theory Epoll_Liveness
  imports Epoll_Outbox Epoll_Invariants
begin

text \<open>
  Progress of the epoll back end as a whole: on a kernel that keeps reporting a connection
  writable, and on which nothing fails, the run loop delivers what is pending and goes on.
\<close>

section \<open>Steps only add to the trace\<close>

abbreviation ep_grows :: "(ep_call \<Rightarrow> bool) \<Rightarrow> ep_state \<Rightarrow> ep_state \<Rightarrow> bool" where
  "ep_grows \<equiv> ep_step (\<lambda>_. True)"

lemma grows_mono: "ep_step P A s t \<Longrightarrow> ep_grows A s t"
  by (rule ep_step_mono) simp_all

lemma grows_emit: "ep_grows A (emit e s) t \<Longrightarrow> ep_grows A s t"
  by (rule ep_step_emit) simp_all

lemma grows_delivered:
  "ep_grows A s t \<Longrightarrow> length (ep_delivered w s) \<le> length (ep_delivered w t)"
  by (auto simp: ep_step_def ep_delivered_def)

lemma data_event_grows:
  assumes "uses A script"
  shows "wlp (handle_data_event os (api_app os script) fd s) (\<lambda>_ t. ep_grows A s t)"
proof -
  have call: "wlp (call_app (api_app os script) cb (emit e s)) (\<lambda>_ t. ep_grows A s t)" for cb e
    by (rule wlp_mono [OF call_app_step [OF assms]])
      (rule grows_emit, rule grows_emit, erule grows_mono)
  show ?thesis
    by (auto simp: handle_data_event_def ep_sys_defs split: option.split intro!: call)
      (simp_all add: ep_step_def)
qed

lemma dispatch_grows:
  assumes "uses A script"
  shows "wlp (dispatch_event os (api_app os script) ev s) (\<lambda>_ t. ep_grows A s t)"
proof -
  obtain fd events where ev: "ev = (fd, events)" by (cases ev)
  have "wlp (sys_read os (fst (wakeup_fds s)) 1 s) (\<lambda>_ t. ep_grows A s t)"
    by (auto simp: sys_defs ep_step_def split: option.split)
  moreover have "wlp (handle_accept_event os (api_app os script) fd s) (\<lambda>_ t. ep_grows A s t)"
    by (rule wlp_mono [OF accept_event_no_input [OF assms]]) (rule grows_mono)
  moreover have "wlp (handle_write_event os (api_app os script) fd s) (\<lambda>_ t. ep_grows A s t)"
    by (rule wlp_mono [OF write_event_no_input [OF assms]]) (rule grows_mono)
  ultimately show ?thesis
    using data_event_grows [OF assms, of os fd s]
    by (auto simp: dispatch_event_def ev intro: wlp_seq)
qed

lemma dispatches_grow:
  assumes "uses A script"
  shows "wlp (for_each (dispatch_event os (api_app os script)) evs s) (\<lambda>_ t. ep_grows A s t)"
  by (rule wlp_for_each)
    (auto intro: wlp_mono [OF dispatch_grows [OF assms]] ep_step_trans)

section \<open>A round writes\<close>

text \<open>A kernel that reports the connection \<open>c\<close> first in every round, writable and not readable.\<close>

definition always_writable :: "epoll_os \<Rightarrow> int \<Rightarrow> bool" where
  "always_writable os c \<longleftrightarrow>
     (\<forall>h epfd n. 0 < n \<longrightarrow> (\<exists>ev rest. os_epoll_wait os h epfd n = Wait_Events ((c, ev) # rest) \<and>
        ev AND EPOLLIN = 0 \<and> ev AND EPOLLOUT \<noteq> 0))"

lemma write_event_delivers:
  assumes inv: "ep_inv os w s" and eager: "os_eager os" and fd: "fd \<noteq> w"
  shows "wp (handle_write_event os (api_app os script) fd s)
    (\<lambda>_ t. min (length (ep_total w s)) (Suc (length (ep_delivered w s))) \<le> length (ep_delivered w t))
    (\<lambda>_ _. True)"
proof (cases "ep_pending s")
  case None
  then show ?thesis
    using ep_slot.writable_idle [OF inv None] by (simp add: ep_total_def outstanding_def)
next
  case (Some bs)
  have tot: "ep_slot.total w u = ep_total w u" for u
    by (simp add: ep_slot.total_def ep_total_def)
  show ?thesis
  proof (rule wp_mono [OF wp_conj [OF ep_slot.writable_total [OF inv fd]
          ep_slot.eager_step [OF eager inv Some fd]]])
    fix a t
    assume "(ep_inv os w t \<and> ep_slot.total w t = ep_slot.total w s) \<and>
      (ep_pending t = None \<or> (\<exists>bs'. ep_pending t = Some bs' \<and> length bs' < length bs))"
    then have eq: "ep_delivered w t @ outstanding (ep_pending t) = ep_delivered w s @ bs"
      and shorter: "ep_pending t = None \<or> (\<exists>bs'. ep_pending t = Some bs' \<and> length bs' < length bs)"
      by (simp_all add: tot ep_total_def Some outstanding_def)
    from arg_cong [OF eq, of length]
    have "length (ep_delivered w t) + length (outstanding (ep_pending t)) =
        length (ep_delivered w s) + length bs" by simp
    then show "min (length (ep_total w s)) (Suc (length (ep_delivered w s))) \<le>
        length (ep_delivered w t)"
      using shorter by (auto simp: ep_total_def Some outstanding_def)
  qed simp
qed

lemma iteration_delivers:
  assumes inv: "ep_inv os w s" and app: "uses A script" and os: "os_eager os" "always_writable os c"
    and c: "c \<noteq> fst (wakeup_fds s)" "c \<noteq> server_socket s" "c \<noteq> w"
  shows "wlp (run_iteration os (api_app os script) s) (\<lambda>_ t. ep_grows A s t \<and>
    min (length (ep_total w s)) (Suc (length (ep_delivered w s))) \<le> length (ep_delivered w t))"
proof -
  let ?r = "os_epoll_wait os (trace s) (epoll_fd s) MAX_EVENTS"
  let ?s = "emit (EvExt (EvEpollWait (epoll_fd s) MAX_EVENTS ?r)) s"
  let ?Q = "\<lambda>t. ep_grows A ?s t \<and>
    min (length (ep_total w s)) (Suc (length (ep_delivered w s))) \<le> length (ep_delivered w t)"
  obtain ev rest where r: "?r = Wait_Events ((c, ev) # rest)"
    and ev: "ev AND EPOLLIN = 0" "ev AND EPOLLOUT \<noteq> 0"
    using os(2) sizes_pos unfolding always_writable_def by blast
  have same: "ep_total w ?s = ep_total w s" "ep_delivered w ?s = ep_delivered w s"
    by (simp_all add: ep_total_emit ep_delivered_def)
  have first: "dispatch_event os (api_app os script) (c, ev) ?s =
      handle_write_event os (api_app os script) c ?s"
    using c ev by (simp add: dispatch_event_def)
  have "wp (handle_write_event os (api_app os script) c ?s) (\<lambda>_ t.
      min (length (ep_total w s)) (Suc (length (ep_delivered w s))) \<le> length (ep_delivered w t) \<and>
      ep_grows A ?s t) (\<lambda>_ _. True)"
    using wp_wlp [OF write_event_delivers [OF _ os(1) c(3), of ?s script]
      dispatch_grows [OF app, of os "(c, ev)" ?s, unfolded first]] inv
    by (simp add: same)
  then have "wlp (dispatch_event os (api_app os script) (c, ev) ?s) (\<lambda>_. ?Q)"
    unfolding first by (cases "handle_write_event os (api_app os script) c ?s") auto
  then have "wlp (for_each (dispatch_event os (api_app os script)) ((c, ev) # rest) ?s) (\<lambda>_. ?Q)"
    unfolding for_each.simps
  proof (rule wlp_seq)
    fix a t assume t: "?Q t"
    show "wlp (for_each (dispatch_event os (api_app os script)) rest t) (\<lambda>_. ?Q)"
      by (rule wlp_mono [OF dispatches_grow [OF app]])
        (use t in \<open>auto intro: ep_step_trans dest: grows_delivered order_trans [rotated]\<close>)
  qed
  then show ?thesis
    unfolding run_iteration_def sys_epoll_wait_def r Let_def and_then.simps wait_result.simps
    by (intro wlp_ifI) (auto elim!: wlp_mono intro: grows_emit)
qed

section \<open>A round goes on\<close>

text \<open>
  The calls that neither stop the loop, nor open a descriptor; and a kernel on which memory does
  not run out, descriptors can be registered and modified, and no connection ends: a reported
  descriptor always has bytes to read.
\<close>

definition plain_call :: "ep_call \<Rightarrow> bool" where
  "plain_call c \<longleftrightarrow> sends_from UNIV c \<and> opens_nothing c \<and> c \<noteq> Call_Stop"

definition nothing_fails :: "epoll_os \<Rightarrow> bool" where
  "nothing_fails os \<longleftrightarrow>
     (\<forall>h n. os_malloc os h n) \<and>
     (\<forall>h e oper fd ev. oper \<noteq> EPOLL_CTL_DEL \<longrightarrow> os_epoll_ctl os h e oper fd ev \<noteq> - 1) \<and>
     (\<forall>h fd n. 0 < n \<longrightarrow> (\<exists>bs. os_read os h fd n = Some bs \<and> bs \<noteq> []))"

lemma uses_plain:
  assumes "uses plain_call script"
  shows "uses (sends_from UNIV) script"
  using assms by (auto simp: uses_def plain_call_def list_all_iff)

lemma grows_plain:
  assumes "ep_grows plain_call s t"
  shows "wakeup_fds t = wakeup_fds s \<and> server_socket t = server_socket s"
proof -
  have "\<not> starts_server c" if "plain_call c" for c
    using that by (cases c) (simp_all add: plain_call_def)
  then show ?thesis using assms by (auto simp: ep_step_def)
qed

lemma request_ops_exit [simp]:
  "load_request p s \<noteq> Exit c t" "update_request p f s \<noteq> Exit c t"
  "read_block p i n s \<noteq> Exit c t" "memcpy_to p d n s \<noteq> Exit c t" "sys_free p s \<noteq> Exit c t"
  by (simp_all add: request_defs load_cell_def store_cell_def sys_free_def drop_cell_def
      and_then_eq_Exit_iff split: option.split send_cell.split)

lemma nothing_failsD:
  assumes "nothing_fails os"
  shows "os_malloc os h n" "os_epoll_ctl os h e EPOLL_CTL_ADD fd ev \<noteq> - 1"
    "os_epoll_ctl os h e EPOLL_CTL_MOD fd ev \<noteq> - 1"
  using assms by (auto simp: nothing_fails_def)

lemma do_call_no_exit:
  assumes os: "nothing_fails os" "os_eager os" and c: "plain_call c"
  shows "do_call os c s \<noteq> Exit x t"
proof -
  note [simp] = nothing_failsD [OF os(1)]
  have "0 \<le> os_write os h fd bs" for h fd bs
    using os(2) by (simp add: os_eager_def)
  then have [simp]: "os_write os h fd bs \<noteq> - 1" for h fd bs
    by (metis neg_0_le_iff_le not_one_le_zero)
  have "proactor_tcp_epoll_send os fd d len s \<noteq> Exit y u" for fd d len y u
    by (auto simp: proactor_tcp_epoll_send_def sys_malloc_def ep_sys_defs request_defs
        sizeof_SendRequest_def)
  then show ?thesis
    using c by (cases c) (auto simp: plain_call_def ep_send_def proactor_tcp_epoll_wake_def
        and_then_eq_Exit_iff ep_sys_defs)
qed

lemma call_app_no_exit:
  assumes os: "nothing_fails os" "os_eager os" and app: "uses plain_call script"
  shows "call_app (api_app os script) cb s \<noteq> Exit x t"
proof -
  have "for_each (do_call os) cs u \<noteq> Exit x t" if "list_all plain_call cs" for cs u
    using that by (induction cs arbitrary: u)
      (auto simp: and_then_eq_Exit_iff do_call_no_exit [OF os])
  then show ?thesis using app by (simp add: call_app_def api_app_def uses_def)
qed

lemma dispatch_no_exit:
  assumes os: "nothing_fails os" "os_eager os" and app: "uses plain_call script"
  shows "dispatch_event os (api_app os script) ev s \<noteq> Exit x t"
proof -
  note [simp] = nothing_failsD [OF os(1)] call_app_no_exit [OF os app]
  have r: "\<exists>bs. os_read os h fd BUFFER_SIZE = Some bs \<and> bs \<noteq> []" for h fd
    using os(1) sizes_pos unfolding nothing_fails_def by blast
  have "handle_data_event os (api_app os script) fd s \<noteq> Exit x t" for fd
  proof -
    obtain bs where "os_read os (trace s) fd BUFFER_SIZE = Some bs" "bs \<noteq> []"
      using r by blast
    then show ?thesis
      by (cases "length bs \<le> BUFFER_SIZE")
        (simp_all add: handle_data_event_def sys_read_def Let_def)
  qed
  moreover have "handle_write_event os (api_app os script) fd s \<noteq> Exit x t" for fd
    by (auto simp: handle_write_event_def and_then_eq_Exit_iff sys_write_def Let_def
        split: if_splits)
  moreover have "handle_accept_event os (api_app os script) fd s \<noteq> Exit x t" for fd
    by (auto simp: handle_accept_event_def and_then_eq_Exit_iff ep_sys_defs split: if_splits)
  ultimately show ?thesis
    by (auto simp: dispatch_event_def sys_read_def Let_def and_then_eq_Exit_iff
        split: prod.split option.splits if_splits)
qed

lemma iteration_no_exit:
  assumes os: "nothing_fails os" "os_eager os" "always_writable os c"
    and app: "uses plain_call script"
  shows "run_iteration os (api_app os script) s \<noteq> Exit x t"
proof -
  have "for_each (dispatch_event os (api_app os script)) evs u \<noteq> Exit x t" for evs u
    by (induction evs arbitrary: u)
      (auto simp: and_then_eq_Exit_iff dispatch_no_exit [OF os(1,2) app])
  moreover obtain evs where
    "os_epoll_wait os (trace s) (epoll_fd s) MAX_EVENTS = Wait_Events evs"
    using os(3) sizes_pos unfolding always_writable_def by blast
  ultimately show ?thesis by (auto simp: run_iteration_def sys_epoll_wait_def Let_def)
qed

text \<open>The stop flag stays clear.\<close>

interpretation running: ep_invariant os "\<lambda>s. stop s = 0" plain_call "\<lambda>_. True" for os
proof unfold_locales
  fix s :: ep_state and c assume "stop s = 0" and "plain_call c"
  then show "wlp (do_call os c s) (\<lambda>_ t. stop t = 0)"
  proof (cases c)
    case (Call_Send fd d)
    then show ?thesis
      using \<open>stop s = 0\<close> by (auto simp: ep_send_def proactor_tcp_epoll_send_def sys_malloc_def
          ep_sys_defs intro!: wlp_request_intros)
  next
    case (Call_Set i cb ud)
    then show ?thesis using \<open>stop s = 0\<close> by (cases i) (simp_all add: ep_setter_defs)
  qed (auto simp: plain_call_def proactor_tcp_epoll_wake_def ep_sys_defs)
qed (simp_all add: drop_connection_def ep_sys_defs)

section \<open>Rounds\<close>

text \<open>After \<open>k\<close> rounds \<open>k\<close> more bytes are delivered, or all that were to be delivered at the start.\<close>

lemma rounds_deliver:
  assumes "ep_inv os w s" and app: "uses plain_call script"
    and os: "os_eager os" "always_writable os c" "never_reports os w" "nothing_fails os"
    and "c \<noteq> fst (wakeup_fds s)" "c \<noteq> server_socket s" and cw: "c \<noteq> w" and "stop s = 0"
  shows "wp (ep_rounds os (api_app os script) k s) (\<lambda>_ t. adds_messages os w UNIV s t \<and>
    min (length (ep_total w s)) (length (ep_delivered w s) + k) \<le> length (ep_delivered w t))
    (\<lambda>_ _. False)"
  using assms(1,7,8,10)
proof (induction k arbitrary: s)
  case 0
  then show ?case by (simp add: adds_none)
next
  case (Suc k)
  let ?n = "\<lambda>s. length (ep_delivered w s)"
  let ?Q = "\<lambda>t. (adds_messages os w UNIV s t \<and> ep_grows plain_call s t \<and>
    min (length (ep_total w s)) (Suc (?n s)) \<le> ?n t) \<and> stop t = 0"
  have "wp (run_iteration os (api_app os script) s) (\<lambda>_. ?Q) (\<lambda>_ _. True)"
    by (rule wp_wlp [OF wp_wlp [OF iteration_adds [OF Suc.prems(1) uses_plain [OF app] os(3)]
          iteration_delivers [OF Suc.prems(1) app os(1,2) Suc.prems(2,3) cw]]
        running.keeps_iteration [OF app Suc.prems(4)]])
  then have round: "wp (run_iteration os (api_app os script) s) (\<lambda>_. ?Q) (\<lambda>_ _. False)"
    using iteration_no_exit [OF os(4,1,2) app]
    by (cases "run_iteration os (api_app os script) s") simp_all
  have "wp (and_then (run_iteration os (api_app os script) s)
        (\<lambda>_. ep_rounds os (api_app os script) k))
      (\<lambda>_ u. adds_messages os w UNIV s u \<and>
        min (length (ep_total w s)) (?n s + Suc k) \<le> ?n u) (\<lambda>_ _. False)"
  proof (rule wp_seq [OF round])
    fix a t assume t: "?Q t"
    then have step: "adds_messages os w UNIV s t" and st: "stop t = 0" by simp_all
    have "c \<noteq> fst (wakeup_fds t)" "c \<noteq> server_socket t"
      using t grows_plain Suc.prems(2,3) by auto
    from Suc.IH [OF adds_inv [OF step] this st]
    have "wp (ep_rounds os (api_app os script) k t) (\<lambda>_ u. adds_messages os w UNIV t u \<and>
        min (length (ep_total w t)) (?n t + k) \<le> ?n u) (\<lambda>_ _. False)" .
    moreover have "length (ep_total w s) \<le> length (ep_total w t)"
      using t by (auto simp: adds_messages_def)
    ultimately show "wp (ep_rounds os (api_app os script) k t)
        (\<lambda>_ u. adds_messages os w UNIV s u \<and>
          min (length (ep_total w s)) (?n s + Suc k) \<le> ?n u) (\<lambda>_ _. False)"
      using t by (auto elim!: wp_mono intro: adds_trans)
  qed
  then show ?case by (simp add: Suc.prems(4) del: wp_and_then)
qed

lemma rounds_fuel: "ep_rounds os (api_app os script) k s \<noteq> Out_Of_Fuel"
  by (induction k arbitrary: s) (auto simp: and_then_eq_Fuel_iff iteration_fuel)

section \<open>Property\<close>


definition out_os :: epoll_os where
  "out_os = demo_os\<lparr>os_epoll_wait := (\<lambda>h epfd n. Wait_Events (take n [(6, EPOLLOUT)]))\<rparr>"

definition out_busy :: ep_state where
  "out_busy = after (do_call out_os (Call_Send 6 [10, 20, 30]) demo_connected)"

lemma out_busy_reachable: "ep_reachable out_os echo_script out_busy"
proof -
  have "proactor_tcp_epoll_init out_os ep_initial = Ret 0 demo_init"
    by (simp add: demo_init_def after_def proactor_tcp_epoll_init_def ep_sys_defs demo_os_def
        out_os_def)
  moreover have "do_call out_os (Call_Connect ''127.0.0.1'' 44818) demo_init =
      Ret () demo_connected"
    by (simp add: demo_connected_def after_def proactor_tcp_epoll_connect_def ep_sys_defs
        demo_os_def out_os_def)
  moreover have "do_call out_os (Call_Send 6 [10, 20, 30]) demo_connected = Ret () out_busy"
    by (simp add: out_busy_def after_def ep_eval demo_os_def out_os_def demo_connected_fields)
  ultimately show ?thesis by (blast intro: ep_start ep_api_call)
qed

lemma out_busy_fields:
  "ep_pending out_busy = Some [10, 20, 30]" "wakeup_fds out_busy = (4, 5)"
  "server_socket out_busy = - 1" "stop out_busy = 0"
  by (simp_all add: out_busy_def after_def ep_eval demo_os_def out_os_def demo_connected_fields
      ep_pending_def slot_pending_def)

lemma out_os_ok:
  "epoll_ok out_os" "os_eager out_os" "always_writable out_os 6" "never_reports out_os 5"
  "nothing_fails out_os"
proof -
  show "always_writable out_os 6"
    by (auto simp: always_writable_def out_os_def EPOLLIN_def EPOLLOUT_def gr0_conv_Suc)
  show "nothing_fails out_os"
    by (auto simp: nothing_fails_def out_os_def demo_os_def)
qed (auto simp: epoll_ok_def posix_ok_def os_eager_def never_reports_def out_os_def demo_os_def
    dest: in_set_takeD)


end
