(* ===== verification/Epoll_Lifecycle.thy ===== *)
theory Epoll_Lifecycle
  imports Epoll_Invariants "HOL-Library.Multiset"
begin

unbundle bit_operations_syntax

text \<open>
  The life of the epoll back end, from the initialisation over API calls and the run loop to the
  cleanup: every descriptor it opens is accounted for on the way, as held in a static variable or
  as an accepted connection.
\<close>

section \<open>Descriptors on the trace\<close>

fun fd_opens :: "ep_x posix_ev \<Rightarrow> int list" where
  "fd_opens (EvPipe (Some (a, b))) = [a, b]"
| "fd_opens (EvSocket fd) = [fd]"
| "fd_opens (EvAccept listener fd) = [fd]"
| "fd_opens (EvExt (EvEpollCreate fd)) = [fd]"
| "fd_opens _ = []"

fun fd_accepts :: "ep_x posix_ev \<Rightarrow> int list" where
  "fd_accepts (EvAccept listener fd) = [fd]"
| "fd_accepts _ = []"

fun fd_closes :: "ep_x posix_ev \<Rightarrow> int list" where
  "fd_closes (EvClose fd) = [fd]"
| "fd_closes _ = []"

text \<open>A failed call opens nothing, and closing \<open>-1\<close> closes nothing.\<close>

definition valid_fds :: "int list \<Rightarrow> int multiset" where
  "valid_fds fds = mset (filter (\<lambda>fd. fd \<noteq> - 1) fds)"

definition fds_of :: "(ep_x posix_ev \<Rightarrow> int list) \<Rightarrow> ep_trace \<Rightarrow> int multiset" where
  "fds_of f tr = valid_fds (concat (map f tr))"

lemma valid_fds_simps [simp]:
  "valid_fds [] = {#}" "valid_fds (xs @ ys) = valid_fds xs + valid_fds ys"
  "valid_fds (fd # xs) = (if fd = - 1 then {#} else {#fd#}) + valid_fds xs"
  by (simp_all add: valid_fds_def)

lemma fds_of_simps [simp]:
  "fds_of f [] = {#}" "fds_of f (xs @ ys) = fds_of f xs + fds_of f ys"
  "fds_of f (e # xs) = valid_fds (f e) + fds_of f xs"
  by (simp_all add: fds_of_def)

lemma fds_of_closing [simp]:
  "fds_of fd_closes (map EvClose fds) = valid_fds fds"
  "fds_of fd_opens (map EvClose fds) = {#}" "fds_of fd_accepts (map EvClose fds) = {#}"
  by (induction fds) simp_all

section \<open>The account\<close>

text \<open>
  Nothing was closed, and what was opened is held in the static variables or was accepted.
\<close>

definition held_fds :: "ep_state \<Rightarrow> int multiset" where
  "held_fds s = valid_fds [server_socket s, client_socket s, fst (wakeup_fds s),
     snd (wakeup_fds s), epoll_fd s]"

definition accounted :: "ep_state \<Rightarrow> bool" where
  "accounted s \<longleftrightarrow> fst (wakeup_fds s) \<noteq> - 1 \<and> fds_of fd_closes (trace s) = {#} \<and>
     fds_of fd_opens (trace s) = fds_of fd_accepts (trace s) + held_fds s"

lemma accounted_upd [simp]:
  "accounted (s\<lparr>heap := h\<rparr>) = accounted s" "accounted (s\<lparr>current_send_request := p\<rparr>) = accounted s"
  "accounted (s\<lparr>stop := n\<rparr>) = accounted s" "accounted (new_cell c s) = accounted s"
  by (simp_all add: accounted_def held_fds_def)

lemma accounted_emit [simp]:
  "fd_closes e = [] \<Longrightarrow> fd_opens e = fd_accepts e \<Longrightarrow> accounted (emit e s) = accounted s"
  by (simp add: accounted_def held_fds_def)

lemma init_accounted:
  assumes "\<And>h fds. os_pipe os h = Some fds \<Longrightarrow> 0 \<le> fst fds"
  shows "wp (proactor_tcp_epoll_init os ep_initial)
    (\<lambda>_ s. accounted s \<and> client_socket s = - 1 \<and> server_socket s = - 1) (\<lambda>_ _. True)"
  using assms
  by (fastforce simp: proactor_tcp_epoll_init_def ep_sys_defs ep_initial_def accounted_def
      held_fds_def split: option.split)

section \<open>API calls\<close>

fun connects :: "ep_call \<Rightarrow> bool" where
  "connects (Call_Connect a p) = True"
| "connects _ = False"

text \<open>A socket is opened only while the static variable for it is free.\<close>

definition may_open :: "ep_call list \<Rightarrow> ep_state \<Rightarrow> bool" where
  "may_open cs s \<longleftrightarrow>
     length (filter connects cs) + (if client_socket s = - 1 then 0 else 1) \<le> 1 \<and>
     length (filter starts_server cs) + (if server_socket s = - 1 then 0 else 1) \<le> 1"

lemma send_accounted:
  "accounted s \<Longrightarrow> wlp (ep_send os fd d s)
     (\<lambda>_ t. accounted t \<and> client_socket t = client_socket s \<and> server_socket t = server_socket s)"
  by (auto simp: ep_send_def proactor_tcp_epoll_send_def sys_malloc_def ep_sys_defs
      intro!: wlp_request_intros)

lemma set_cb_accounted:
  "accounted (ep_set_cb i c s) = accounted s" "client_socket (ep_set_cb i c s) = client_socket s"
  "server_socket (ep_set_cb i c s) = server_socket s"
  by (cases i; cases c; simp add: ep_setter_defs accounted_def held_fds_def)+

lemma do_call_accounted:
  assumes "accounted s" and "may_open (c # cs) s"
  shows "wlp (do_call os c s) (\<lambda>_ t. accounted t \<and> may_open cs t)"
proof (cases c)
  case (Call_Send fd d)
  then show ?thesis
    using send_accounted [OF assms(1), of os fd d] assms(2)
    by (auto simp: may_open_def elim: wlp_mono)
next
  case (Call_Connect a p)
  then show ?thesis
    using assms by (auto simp: proactor_tcp_epoll_connect_def ep_sys_defs accounted_def
        held_fds_def may_open_def split: if_splits)
next
  case (Call_Start_Server p)
  then show ?thesis
    using assms by (auto simp: proactor_tcp_epoll_start_server_def ep_sys_defs accounted_def
        held_fds_def may_open_def split: if_splits)
qed (use assms in \<open>auto simp: proactor_tcp_epoll_stop_def proactor_tcp_epoll_wake_def ep_sys_defs
    may_open_def set_cb_accounted\<close>)

lemma do_calls_accounted:
  assumes "accounted s" and "may_open cs s"
  shows "wlp (for_each (do_call os) cs s) (\<lambda>_ t. accounted t)"
  using assms
proof (induction cs arbitrary: s)
  case (Cons c cs)
  then show ?case
    using wlp_seq [OF do_call_accounted [OF Cons.prems], of "\<lambda>_. for_each (do_call os) cs"] by auto
qed simp

section \<open>The run loop\<close>

lemma call_accounted:
  assumes "accounted s" and "opens_nothing c"
  shows "wlp (do_call os c s) (\<lambda>_. accounted)"
proof (cases c)
  case (Call_Send fd d)
  then show ?thesis using send_accounted [OF assms(1), of os fd d] by (auto elim: wlp_mono)
qed (use assms in \<open>auto simp: proactor_tcp_epoll_stop_def
    proactor_tcp_epoll_wake_def ep_sys_defs set_cb_accounted\<close>)

lemma quiet_fds: "quiet_event e \<Longrightarrow> fd_closes e = [] \<and> fd_opens e = [] \<and> fd_accepts e = []"
  by (induction e rule: quiet_event.induct) simp_all

text \<open>A connection that ends also ends the process, so that no state with a closed one is left.\<close>

lemma drop_exits:
  assumes "closed_fd_rejected os"
  shows "wlp (drop_connection os fd s) (\<lambda>_. Q)"
proof -
  have "os_epoll_ctl os (h @ [EvClose fd]) e oper fd m = - 1" for h e oper m
    using assms fd_closed_after_close unfolding closed_fd_rejected_def by blast
  then show ?thesis by (simp add: drop_connection_def ep_sys_defs)
qed

interpretation accounts: ep_invariant os "\<lambda>s. closed_fd_rejected os \<and> accounted s" opens_nothing
    "\<lambda>_. True" for os
  by unfold_locales
    (auto simp: quiet_fds intro: drop_exits wlp_mono [OF call_accounted])

lemma run_accounted:
  assumes "uses opens_nothing script" and "closed_fd_rejected os" and "accounted s"
  shows "wlp (proactor_tcp_epoll_run os (api_app os script) k s) (\<lambda>_. accounted)"
  by (rule wlp_mono [OF accounts.keeps_run [OF assms(1)]]) (use assms in auto)

section \<open>Property\<close>

text \<open>The whole life: initialisation, API calls, the run loop, cleanup.\<close>

definition ep_life :: "epoll_os \<Rightarrow> ep_app \<Rightarrow> ep_call list \<Rightarrow> nat \<Rightarrow> (unit, ep_state) outcome" where
  "ep_life os app calls k =
     and_then (proactor_tcp_epoll_init os ep_initial) (\<lambda>_ s.
     and_then (for_each (do_call os) calls s) (\<lambda>_ s.
     and_then (proactor_tcp_epoll_run os app k s) (\<lambda>_.
     proactor_tcp_epoll_cleanup)))"

lemma cleanup_accounted:
  assumes "ep_inv os w s" and s: "accounted s"
  shows "\<exists>t. proactor_tcp_epoll_cleanup s = Ret () t \<and> heap t = Map.empty \<and>
    fds_of fd_opens (trace t) = fds_of fd_closes (trace t) + fds_of fd_accepts (trace t)"
proof -
  have closes: "valid_fds (cleanup_closes s) = held_fds s"
    using s by (simp add: cleanup_closes_def held_fds_def accounted_def)
  show ?thesis
  proof (cases "current_send_request s = NULL")
    case True
    then show ?thesis
      using assms closes
      by (auto simp: cleanup_idle emits_def ep_inv_def accounted_def union_commute)
  next
    case False
    with assms(1) obtain r bs where "request_in (current_send_request s) (heap s) r bs"
      by (rule ep_inv_request)
    then show ?thesis
      using s closes by (auto simp: cleanup_request emits_def accounted_def union_commute)
  qed
qed

text \<open>
  Claim C11. The life of the back end, without an access error: from the initialisation over any
  API calls, among them at most one connect and at most one start of a server, and the run loop,
  whose callbacks do neither, to the cleanup. If the process gets there - a failed call or the end
  of a connection exits before, since the kernel rejects a closed descriptor - every descriptor
  that was opened has been closed exactly once, except for exactly those of the accepted
  connections, which are never closed; and no memory is allocated. (A second connect or start of a
  server would overwrite the static variable and lose the first socket.)
\<close>

theorem ep_lifecycle:
  assumes "epoll_ok os" and "closed_fd_rejected os"
    and "\<And>h fds. os_pipe os h = Some fds \<Longrightarrow> 0 \<le> fst fds"
    and "length (filter connects calls) \<le> 1" and "length (filter starts_server calls) \<le> 1"
    and "uses opens_nothing script"
  shows "wp (ep_life os (api_app os script) calls k)
    (\<lambda>_ t. heap t = Map.empty \<and>
       fds_of fd_opens (trace t) = fds_of fd_closes (trace t) + fds_of fd_accepts (trace t))
    (\<lambda>_ _. True)"
proof -
  let ?app = "api_app os script"
  let ?I = "\<lambda>s. ep_inv os (snd (wakeup_fds s)) s \<and> accounted s"
  have start: "wp (proactor_tcp_epoll_init os ep_initial)
      (\<lambda>_ s. accounted s \<and> client_socket s = - 1 \<and> server_socket s = - 1) (\<lambda>_ _. True)"
    by (rule init_accounted) (rule assms(3))
  have init: "wp (proactor_tcp_epoll_init os ep_initial) (\<lambda>_ s. ?I s \<and> may_open calls s) (\<lambda>_ _. True)"
    using start init_inv [OF assms(1)] assms(4,5)
    by (cases "proactor_tcp_epoll_init os ep_initial") (auto simp: may_open_def)
  have api: "wp (for_each (do_call os) calls s) (\<lambda>_. ?I) (\<lambda>_ _. True)"
    if s: "?I s \<and> may_open calls s" for s
  proof -
    let ?w = "snd (wakeup_fds s)"
    have "wp (for_each (do_call os) calls s) (\<lambda>_. ep_inv os ?w) (\<lambda>_ _. True)"
      by (rule wp_for_each) (use s in \<open>auto intro: wp_mono [OF do_call_inv]\<close>)
    from wp_wlp [OF this do_calls_accounted [of s calls os]] show ?thesis
      using s by (auto elim!: wp_mono simp: ep_inv_def)
  qed
  have run: "wp (proactor_tcp_epoll_run os ?app k s) (\<lambda>_. ?I) (\<lambda>_ _. True)" if s: "?I s" for s
  proof -
    let ?w = "snd (wakeup_fds s)"
    have "wp (proactor_tcp_epoll_run os ?app k s) (\<lambda>_ t. ep_inv os ?w t \<and> stop t \<noteq> 0) (\<lambda>_ _. True)"
      using s ep_api.iteration_inv by (intro ep_loop.run_invariant) auto
    from wp_wlp [OF this run_accounted [OF assms(6,2), of s k]] show ?thesis
      using s by (auto elim!: wp_mono simp: ep_inv_def)
  qed
  have finish: "wp (proactor_tcp_epoll_cleanup s) (\<lambda>_ t. heap t = Map.empty \<and>
      fds_of fd_opens (trace t) = fds_of fd_closes (trace t) + fds_of fd_accepts (trace t))
      (\<lambda>_ _. True)" if "?I s" for s
    using cleanup_accounted [of os "snd (wakeup_fds s)" s] that by auto
  show ?thesis
    unfolding ep_life_def by (intro wp_seq [OF init] wp_seq [OF api] wp_seq [OF run] finish)
qed

text \<open>A server that accepts one connection and stops.\<close>

definition serve_os :: epoll_os where
  "serve_os = demo_os\<lparr>os_epoll_wait := (\<lambda>h epfd n. Wait_Events (take n [(6, EPOLLIN), (7, EPOLLOUT)])),
     os_epoll_ctl := (\<lambda>h epfd oper fd events. if fd_closed h fd then - 1 else 0)\<rparr>"

definition serve_script :: ep_script where
  "serve_script h cb =
     (case cb of CbAccept _ _ fd _ \<Rightarrow> [Call_Stop] | _ \<Rightarrow> [])"

definition serve_setup :: "ep_call list" where
  "serve_setup = [Call_Start_Server 44818, Call_Set Accept_Slot 900 0]"

lemma serve_life:
  "\<exists>t. ep_life serve_os (api_app serve_os serve_script) serve_setup 2 = Ret () t \<and>
     fds_of fd_accepts (trace t) = {#7#} \<and> fds_of fd_closes (trace t) = {#3, 4, 5, 6#}"
  by (simp add: ep_life_def serve_setup_def numeral_2_eq_2 proactor_tcp_epoll_init_def
      proactor_tcp_epoll_start_server_def ep_sys_defs serve_os_def demo_os_def ep_initial_def
      ep_setter_defs run_iteration_def MAX_EVENTS_def dispatch_event_def handle_accept_event_def
      handle_write_event_def call_app_def api_app_def serve_script_def proactor_tcp_epoll_stop_def
      proactor_tcp_epoll_wake_def proactor_tcp_epoll_cleanup_def fd_closed_def EPOLLIN_def
      EPOLLOUT_def)

theorem ep_lifecycle_witness:
  "\<exists>t. ep_life serve_os (api_app serve_os serve_script) serve_setup 2 = Ret () t \<and>
     heap t = Map.empty \<and> fds_of fd_opens (trace t) = {#3, 4, 5, 6#} + {#7#}"
proof -
  have "epoll_ok serve_os" "closed_fd_rejected serve_os"
    by (auto simp: epoll_ok_def posix_ok_def closed_fd_rejected_def serve_os_def demo_os_def)
  from ep_lifecycle [OF this, of serve_setup serve_script 2] serve_life show ?thesis
    by (auto simp: serve_setup_def uses_def serve_script_def serve_os_def
        demo_os_def split: ep_x.split)
qed

end
