(* ===== verification/Epoll_Network.thy ===== *)
theory Epoll_Network
  imports Epoll_Liveness Epoll_Invariants "HOL-Library.Sublist"
begin

unbundle bit_operations_syntax

text \<open>
  Two programs on the epoll back end, connected by TCP: their rounds of the run loop and their API
  calls interleave in any order, and what one application is handed is what the other has sent.
\<close>

section \<open>What is written to one connection\<close>

fun written_by :: "int \<Rightarrow> ep_x posix_ev \<Rightarrow> byte list" where
  "written_by c (EvWrite fd bs n) = (if fd = c then take (nat n) bs else [])"
| "written_by c e = []"

definition written_stream :: "int \<Rightarrow> ep_trace \<Rightarrow> byte list" where
  "written_stream c tr = concat (map (written_by c) tr)"

lemma written_stream_simps [simp]:
  "written_stream c [] = []"
  "written_stream c (xs @ ys) = written_stream c xs @ written_stream c ys"
  "written_stream c (e # xs) = written_by c e @ written_stream c xs"
  by (simp_all add: written_stream_def)

text \<open>
  The kernel reports nothing but the connection \<open>c\<close> and the read end \<open>r\<close> of the wake pipe; then
  all that goes to peers goes to \<open>c\<close>.
\<close>

definition one_connection :: "epoll_os \<Rightarrow> int \<Rightarrow> int \<Rightarrow> bool" where
  "one_connection os c r \<longleftrightarrow>
     (\<forall>h epfd n evs. os_epoll_wait os h epfd n = Wait_Events evs \<longrightarrow> fst ` set evs \<subseteq> {c, r})"

definition talks_to :: "epoll_os \<Rightarrow> int \<Rightarrow> ep_state \<Rightarrow> bool" where
  "talks_to os c s \<longleftrightarrow> one_connection os c (fst (wakeup_fds s)) \<and>
     distinct [c, fst (wakeup_fds s), snd (wakeup_fds s)] \<and>
     written_stream c (trace s) = sent_stream (snd (wakeup_fds s)) (trace s)"

lemma talks_to_upd [simp]:
  "talks_to os c (s\<lparr>heap := h\<rparr>) = talks_to os c s"
  "talks_to os c (s\<lparr>current_send_request := p\<rparr>) = talks_to os c s"
  "talks_to os c (s\<lparr>stop := n\<rparr>) = talks_to os c s"
  "talks_to os c (s\<lparr>client_socket := fd\<rparr>) = talks_to os c s"
  "talks_to os c (s\<lparr>server_socket := fd\<rparr>) = talks_to os c s"
  "talks_to os c (new_cell x s) = talks_to os c s"
  by (simp_all add: talks_to_def)

lemma talks_to_emit [simp]:
  "written_by c e = accepted_by (snd (wakeup_fds s)) e \<Longrightarrow> talks_to os c (emit e s) = talks_to os c s"
  by (simp add: talks_to_def)

lemma quiet_written: "quiet_event e \<Longrightarrow> written_by c e = accepted_by w e"
  by (induction e rule: quiet_event.induct) simp_all

lemma talks_to_write:
  assumes "talks_to os c s"
  shows "talks_to os c (emit (EvWrite c bs n) s)"
    and "w = snd (wakeup_fds s) \<Longrightarrow> talks_to os c (emit (EvWrite w bs n) s)"
  using assms by (auto simp: talks_to_def)

lemma call_talks_to:
  assumes "talks_to os c s"
  shows "wlp (do_call os call s) (\<lambda>_. talks_to os c)"
proof (cases call)
  case (Call_Send fd d)
  then show ?thesis
    using assms by (auto simp: ep_send_def proactor_tcp_epoll_send_def sys_malloc_def ep_sys_defs
        intro!: wlp_request_intros)
next
  case (Call_Set i cb ud)
  then show ?thesis
    using assms by (cases i) (simp_all add: ep_setter_defs talks_to_def)
qed (use assms in \<open>auto simp: proactor_tcp_epoll_stop_def proactor_tcp_epoll_wake_def
    proactor_tcp_epoll_connect_def proactor_tcp_epoll_start_server_def ep_sys_defs
    intro!: talks_to_write\<close>)

interpretation connection: ep_invariant os "talks_to os c" "\<lambda>_. True" "\<lambda>fd. fd = c" for os c
proof unfold_locales
  fix s h epfd n evs ev
  assume "talks_to os c s" "os_epoll_wait os h epfd n = Wait_Events evs" "ev \<in> set evs"
  then show "fst ev = fst (wakeup_fds s) \<or> fst ev = c"
    unfolding talks_to_def one_connection_def by blast
qed (auto simp: quiet_written drop_connection_def ep_sys_defs intro: call_talks_to
    talks_to_write)

section \<open>A host\<close>

text \<open>
  The API calls of an application that goes on receiving. Its messages are shorter than
  \<open>2 ^ 64\<close> bytes, so that their length fits into a \<open>size_t\<close>.
\<close>

definition talks :: "ep_call \<Rightarrow> bool" where
  "talks c \<longleftrightarrow> sends_from UNIV c \<and> steady_call c"

inductive host_step :: "epoll_os \<Rightarrow> ep_script \<Rightarrow> ep_state \<Rightarrow> ep_state \<Rightarrow> bool"
    for os script where
  host_call: "talks c \<Longrightarrow> do_call os c s = Ret () t \<Longrightarrow> host_step os script s t"
| host_round: "run_iteration os (api_app os script) s = Ret () t \<Longrightarrow> host_step os script s t"

text \<open>A host that has set up a connection and a receive callback, and not yet sent or received.\<close>

definition host_start :: "epoll_os \<Rightarrow> ep_script \<Rightarrow> int \<Rightarrow> ep_state \<Rightarrow> bool" where
  "host_start os script c s \<longleftrightarrow> ep_reachable os script s \<and> receive_callback s \<noteq> NULL \<and>
     talks_to os c s \<and> ep_total (snd (wakeup_fds s)) s = [] \<and>
     sent_messages (trace s) = [] \<and>
     read_stream c (trace s) = [] \<and> handed_stream c (trace s) = []"

text \<open>
  Its invariant: what the peer has accepted, and then what is pending, is the messages that the
  application has sent with success, one after the other; all that was read was handed over.
\<close>

definition host_inv :: "epoll_os \<Rightarrow> int \<Rightarrow> ep_state \<Rightarrow> bool" where
  "host_inv os c s \<longleftrightarrow> ep_inv os (snd (wakeup_fds s)) s \<and> talks_to os c s \<and>
     receive_callback s \<noteq> NULL \<and> handed_stream c (trace s) = read_stream c (trace s) \<and>
     ep_total (snd (wakeup_fds s)) s = concat (sent_messages (trace s))"

lemma host_start_inv: "host_start os script c s \<Longrightarrow> epoll_ok os \<Longrightarrow> host_inv os c s"
  using ep_reachable_inv [of os script s]
  by (auto simp: host_start_def host_inv_def)

lemma uses_talks:
  assumes "uses talks script"
  shows "uses (sends_from UNIV) script" "uses steady_call script" "uses (\<lambda>_. True) script"
  using assms by (auto simp: uses_def talks_def list_all_iff)

lemma talks_to_reports: "talks_to os c s \<Longrightarrow> never_reports os (snd (wakeup_fds s))"
  by (fastforce simp: talks_to_def one_connection_def never_reports_def)

lemma host_inv_step:
  assumes s: "host_inv os c s" and adds: "adds_messages os (snd (wakeup_fds s)) UNIV s t"
    and input: "input_step s t" and talks: "talks_to os c t"
  shows "host_inv os c t"
proof -
  have wake: "wakeup_fds t = wakeup_fds s" using input by (simp add: input_step_def)
  have "c \<noteq> fst (wakeup_fds s)" using s by (auto simp: host_inv_def talks_to_def)
  then have "handed_stream c (trace t) = read_stream c (trace t)"
    using s input by (auto simp: host_inv_def input_step_def)
  moreover have "ep_total (snd (wakeup_fds s)) t = concat (sent_messages (trace t))"
    using s adds by (auto simp: host_inv_def adds_messages_def)
  ultimately show ?thesis
    using adds input talks unfolding host_inv_def wake adds_messages_def input_step_def by blast
qed

lemma host_step_inv:
  assumes "host_step os script s t" and app: "uses talks script" and s: "host_inv os c s"
  shows "host_inv os c t \<and> (\<exists>es. trace t = trace s @ es)"
proof -
  have inv: "ep_inv os (snd (wakeup_fds s)) s" and con: "talks_to os c s"
    and cb: "receive_callback s \<noteq> NULL"
    using s by (auto simp: host_inv_def)
  have "adds_messages os (snd (wakeup_fds s)) UNIV s t \<and> input_step s t \<and> talks_to os c t"
    using assms(1)
  proof cases
    case (host_call call)
    then have "ep_step api_event steady_call s t"
      using wlp_RetD [OF do_call_step [of steady_call call os s]] by (auto simp: talks_def)
    then have "ep_step no_input_event steady_call s t"
      by (rule ep_step_mono) (rule api_event_no_input)
    then have "input_step s t" using cb by (rule ep_step_input)
    then show ?thesis
      using host_call wp_RetD [OF do_call_adds [OF inv, where D = UNIV]]
        wlp_RetD [OF call_talks_to [OF con]] by (auto simp: talks_def)
  next
    case host_round
    then show ?thesis
      using wp_RetD [OF iteration_adds [OF inv uses_talks(1) [OF app] talks_to_reports [OF con]]]
        wlp_RetD [OF iteration_input [OF uses_talks(2) [OF app] cb]]
        wlp_RetD [OF connection.keeps_iteration [OF uses_talks(3) [OF app] con]] by blast
  qed
  then show ?thesis
    using host_inv_step [OF s] by (auto simp: input_step_def)
qed

section \<open>Two hosts\<close>

text \<open>
  Steps of the two hosts interleave. TCP: when a host reads, it finds what the other one has
  written by then, without loss or reordering, but perhaps not yet all of it.
\<close>

definition wire :: "int \<Rightarrow> ep_state \<Rightarrow> int \<Rightarrow> ep_state \<Rightarrow> bool" where
  "wire a s b t \<longleftrightarrow> prefix (read_stream b (trace t)) (written_stream a (trace s))"

inductive network ::
    "epoll_os \<Rightarrow> ep_script \<Rightarrow> int \<Rightarrow> epoll_os \<Rightarrow> ep_script \<Rightarrow> int \<Rightarrow>
     ep_state \<Rightarrow> ep_state \<Rightarrow> bool"
    for osa sa a osb sb b where
  network_start: "host_start osa sa a s \<Longrightarrow> host_start osb sb b t \<Longrightarrow>
    network osa sa a osb sb b s t"
| network_left: "network osa sa a osb sb b s t \<Longrightarrow> host_step osa sa s s' \<Longrightarrow>
    wire b t a s' \<Longrightarrow> network osa sa a osb sb b s' t"
| network_right: "network osa sa a osb sb b s t \<Longrightarrow> host_step osb sb t t' \<Longrightarrow>
    wire a s b t' \<Longrightarrow> network osa sa a osb sb b s t'"

lemma wire_mono: "wire a s b t \<Longrightarrow> trace s' = trace s @ es \<Longrightarrow> wire a s' b t"
  by (simp add: wire_def)

lemma network_inv:
  assumes "network osa sa a osb sb b s t" and "epoll_ok osa" and "epoll_ok osb"
    and "uses talks sa" and "uses talks sb"
  shows "host_inv osa a s \<and> host_inv osb b t \<and> wire a s b t \<and> wire b t a s"
  using assms(1)
proof (induction rule: network.induct)
  case (network_start s t)
  then show ?case
    using host_start_inv assms(2,3) by (auto simp: wire_def host_start_def)
next
  case (network_left s t s')
  then show ?case
    using host_step_inv [OF network_left.hyps(2) assms(4)] wire_mono by blast
next
  case (network_right s t t')
  then show ?case
    using host_step_inv [OF network_right.hyps(2) assms(5)] wire_mono by blast
qed

section \<open>Property\<close>

text \<open>
  The direction from \<open>s\<close> to \<open>t\<close>. The messages for which the application at \<open>s\<close> has called send with
  the answer 0, one after the other, are what \<open>s\<close> has written and then what it has pending; what
  was handed over at \<open>t\<close> is a part of them from the start, and all of them as soon as nothing is
  pending or on the way.
\<close>

definition arrives :: "int \<Rightarrow> ep_state \<Rightarrow> int \<Rightarrow> ep_state \<Rightarrow> bool" where
  "arrives a s b t \<longleftrightarrow>
     written_stream a (trace s) @ outstanding (ep_pending s) = concat (sent_messages (trace s)) \<and>
     prefix (handed_stream b (trace t)) (concat (sent_messages (trace s))) \<and>
     (ep_pending s = None \<and> read_stream b (trace t) = written_stream a (trace s) \<longrightarrow>
        handed_stream b (trace t) = concat (sent_messages (trace s)))"

lemma host_inv_arrives:
  assumes s: "host_inv osa a s" and t: "host_inv osb b t" and "wire a s b t"
  shows "arrives a s b t"
proof -
  have sent: "written_stream a (trace s) @ outstanding (ep_pending s) =
      concat (sent_messages (trace s))"
    using s by (auto simp: host_inv_def talks_to_def ep_total_def ep_delivered_def)
  have "prefix (handed_stream b (trace t)) (written_stream a (trace s))"
    using t assms(3) by (simp add: host_inv_def wire_def)
  then have "prefix (handed_stream b (trace t)) (concat (sent_messages (trace s)))"
    unfolding sent [symmetric] by (rule prefix_prefix)
  then show ?thesis
    using sent t unfolding arrives_def host_inv_def by (auto simp: outstanding_def)
qed

text \<open>
  Claim C4. End to end: two programs run the epoll back end on the two ends of a connection, and
  their rounds and API calls interleave in any order. At every moment, in both directions, the
  bytes the one back end has written, followed by the pending ones, are exactly the messages for
  which its application has called send and was answered 0, whole and in the order of the calls;
  what the other application has been handed is a part of these from the start, and all of them
  once nothing is pending or on the way; and neither program runs into an access error in its
  next round. The kernels report only the connection and the wake pipe; the applications keep a
  receive callback and start no server.
\<close>

theorem ep_end_to_end:
  assumes "network osa sa a osb sb b s t" and "epoll_ok osa" and "epoll_ok osb"
    and "uses talks sa" and "uses talks sb"
  shows "arrives a s b t \<and> arrives b t a s \<and>
    run_iteration osa (api_app osa sa) s \<noteq> Fault f \<and> run_iteration osb (api_app osb sb) t \<noteq> Fault f"
proof -
  from network_inv [OF assms] have s: "host_inv osa a s" and t: "host_inv osb b t"
    and wires: "wire a s b t" "wire b t a s" by blast+
  have "run_iteration os (api_app os script) u \<noteq> Fault f" if "host_inv os c u" for os script c u
    using ep_api.iteration_inv [of os "snd (wakeup_fds u)" u script] that
    by (auto simp: host_inv_def)
  then show ?thesis
    using host_inv_arrives [OF s t wires(1)] host_inv_arrives [OF t s wires(2)] s t by blast
qed

text \<open>Two hosts: the one sends two bytes in a round in which it may write, the other reads them.\<close>

definition in_os :: epoll_os where
  "in_os = demo_os\<lparr>os_epoll_wait := (\<lambda>h epfd n. Wait_Events (take n [(6, EPOLLIN)]))\<rparr>"

definition quiet_script :: ep_script where
  "quiet_script h cb = []"

definition net_sent :: ep_state where
  "net_sent = after (do_call out_os (Call_Send 6 [1, 2]) demo_listening)"

definition net_written :: ep_state where
  "net_written = after (run_iteration out_os (api_app out_os quiet_script) net_sent)"

definition net_received :: ep_state where
  "net_received = after (run_iteration in_os (api_app in_os quiet_script) demo_listening)"

lemmas net_eval = run_iteration_def api_app_def quiet_script_def MAX_EVENTS_def BUFFER_SIZE_def
  ep_eval in_os_def out_os_def demo_os_def demo_listening_fields EPOLLIN_def EPOLLOUT_def after_def

lemma net_runs:
  "do_call out_os (Call_Send 6 [1, 2]) demo_listening = Ret () net_sent"
  "run_iteration out_os (api_app out_os quiet_script) net_sent = Ret () net_written"
  "run_iteration in_os (api_app in_os quiet_script) demo_listening = Ret () net_received"
  by (simp_all add: net_sent_def net_written_def net_received_def net_eval)

lemma demo_listening_trace:
  "written_stream 6 (trace demo_listening) = []" "read_stream 6 (trace demo_listening) = []"
  "handed_stream 6 (trace demo_listening) = []" "sent_messages (trace demo_listening) = []"
  by (simp_all add: demo_listening_def demo_connected_def demo_init_def after_def ep_setter_defs
      proactor_tcp_epoll_connect_def proactor_tcp_epoll_init_def ep_sys_defs demo_os_def ep_initial_def)

lemma net_streams:
  "written_stream 6 (trace net_written) = [1, 2]" "read_stream 6 (trace net_sent) = []"
  "read_stream 6 (trace net_written) = []" "read_stream 6 (trace net_received) = [1, 2]"
  "handed_stream 6 (trace net_received) = [1, 2]" "sent_messages (trace net_written) = [[1, 2]]"
  "ep_pending net_written = None"
  by (simp_all add: net_written_def net_sent_def net_received_def net_eval demo_listening_trace
      outstanding_def ep_pending_def slot_pending_def)

lemma net_host_start:
  assumes "os = out_os \<or> os = in_os"
  shows "host_start os quiet_script 6 demo_listening"
proof -
  have "proactor_tcp_epoll_init os ep_initial = Ret 0 demo_init"
    using assms by (auto simp: demo_init_def after_def proactor_tcp_epoll_init_def ep_sys_defs
        demo_os_def out_os_def in_os_def)
  moreover have "do_call os (Call_Connect ''127.0.0.1'' 44818) demo_init = Ret () demo_connected"
    using assms by (auto simp: demo_connected_def after_def proactor_tcp_epoll_connect_def
        ep_sys_defs demo_os_def out_os_def in_os_def)
  moreover have "do_call os (Call_Set Receive_Slot 900 901) demo_connected = Ret () demo_listening"
    by (simp add: demo_listening_def after_def)
  ultimately have "ep_reachable os quiet_script demo_listening"
    by (blast intro: ep_start ep_api_call)
  moreover have "one_connection os 6 4"
    using assms by (auto simp: one_connection_def out_os_def in_os_def take_Cons'
        split: if_splits)
  ultimately show ?thesis
    by (simp add: host_start_def talks_to_def demo_listening_fields demo_listening_trace
        ep_total_def demo_listening_stream outstanding_def ep_delivered_def [symmetric])
qed

lemma net_network:
  "network out_os quiet_script 6 in_os quiet_script 6 net_written net_received"
proof -
  have "network out_os quiet_script 6 in_os quiet_script 6 demo_listening demo_listening"
    by (intro network_start net_host_start) simp_all
  then have "network out_os quiet_script 6 in_os quiet_script 6 net_sent demo_listening"
    by (rule network_left [OF _ host_call [OF _ net_runs(1)]])
      (simp_all add: talks_def sends_from_def steady_call_def wire_def net_streams)
  then have "network out_os quiet_script 6 in_os quiet_script 6 net_written demo_listening"
    by (rule network_left [OF _ host_round [OF net_runs(2)]]) (simp add: wire_def net_streams)
  then show ?thesis
    by (rule network_right [OF _ host_round [OF net_runs(3)]]) (simp add: wire_def net_streams)
qed

theorem ep_end_to_end_witness:
  "sent_messages (trace net_written) = [[1, 2]] \<and> arrives 6 net_written 6 net_received \<and>
     handed_stream 6 (trace net_received) = concat (sent_messages (trace net_written))"
proof -
  have "epoll_ok out_os" "epoll_ok in_os"
    by (auto simp: epoll_ok_def posix_ok_def out_os_def in_os_def demo_os_def)
  from ep_end_to_end [OF net_network this] show ?thesis
    by (auto simp: uses_def quiet_script_def arrives_def net_streams)
qed

end
