(* ===== verification/Kevent.thy ===== *)
theory Kevent
  imports Machine Status Debug
begin

text \<open>
  The kqueue back end \<open>src/util/proactor_net_kevent.c\<close>, the functions on \<open>struct proactor_t\<close>
  that the header \<open>src/util/proactor_net.h\<close> declares: creation, disposal, status, run loop, stop
  and wake, and the processing of ready sockets. Objects live in the heap of the machine; the
  callbacks of the application are a parameter \<open>app\<close>, run on the whole state. The log goes
  through the module \<open>Debug\<close>.
\<close>

section \<open>Types of the interface\<close>

datatype proactor_event_t =
    PROACTOR_EVENT_TICK
  | PROACTOR_EVENT_TIMEOUT
  | PROACTOR_EVENT_WAKE
  | PROACTOR_EVENT_RUN
  | PROACTOR_EVENT_STOP
  | PROACTOR_EVENT_DISPOSE

text \<open>
  Two enumerations of socket types, one of the header and one of the source file, both named
  \<open>proactor_socket_type_t\<close>; objects store the number.
\<close>

definition PROACTOR_SOCK_TCP_LISTENER :: nat where "PROACTOR_SOCK_TCP_LISTENER = 0"
definition PROACTOR_SOCK_TCP_CLIENT :: nat where "PROACTOR_SOCK_TCP_CLIENT = 1"
definition PROACTOR_SOCK_UDP :: nat where "PROACTOR_SOCK_UDP = 2"
definition SOCKET_TYPE_TCP_ACCEPT :: nat where "SOCKET_TYPE_TCP_ACCEPT = 0"
definition SOCKET_TYPE_TCP_CLIENT :: nat where "SOCKET_TYPE_TCP_CLIENT = 1"
definition SOCKET_TYPE_UDP :: nat where "SOCKET_TYPE_UDP = 2"

lemmas socket_type_defs = PROACTOR_SOCK_TCP_LISTENER_def PROACTOR_SOCK_TCP_CLIENT_def
  PROACTOR_SOCK_UDP_def SOCKET_TYPE_TCP_ACCEPT_def SOCKET_TYPE_TCP_CLIENT_def SOCKET_TYPE_UDP_def

record timespec =
  ts_sec :: u64
  ts_nsec :: u64

section \<open>Objects\<close>

record proactor_t =
  pr_kq :: int
  pr_wakeup_fds :: "int \<times> int"
  pr_tick_time_spec :: timespec
  pr_stop :: bool
  pr_status :: status_t
  pr_event_cb :: ptr
  pr_app_data :: ptr
  pr_sockets :: ptr

text \<open>A \<open>struct sockaddr\<close> is kept as its bytes.\<close>

record proactor_socket_t =
  sk_next :: ptr
  sk_sock :: int
  sk_socket_type :: nat
  sk_status :: status_t
  sk_remote_addr :: "byte list"
  sk_proactor :: ptr
  sk_buffer :: ptr
  sk_accept_cb :: ptr
  sk_close_cb :: ptr
  sk_receive_cb :: ptr
  sk_sent_cb :: ptr
  sk_tick_cb :: ptr
  sk_sock_data :: ptr

record proactor_buf_t =
  pb_data :: ptr
  pb_data_length :: size_t

datatype kq_cell =
    Proactor_Cell proactor_t
  | Socket_Cell proactor_socket_t
  | Buf_Cell proactor_buf_t
  | Data_Cell "byte list"

definition sizeof_sockaddr :: nat where "sizeof_sockaddr = 16"
definition sizeof_proactor_t :: nat where "sizeof_proactor_t = 64"
definition sizeof_proactor_socket_t :: nat where "sizeof_proactor_socket_t = 104"

text \<open>The objects as \<open>calloc\<close> returns them, all bytes zero.\<close>

definition zero_proactor :: proactor_t where
  "zero_proactor = \<lparr>pr_kq = 0, pr_wakeup_fds = (0, 0), pr_tick_time_spec = \<lparr>ts_sec = 0, ts_nsec = 0\<rparr>,
     pr_stop = False, pr_status = STATUS_OK, pr_event_cb = NULL, pr_app_data = NULL,
     pr_sockets = NULL\<rparr>"

definition zero_socket :: proactor_socket_t where
  "zero_socket = \<lparr>sk_next = NULL, sk_sock = 0, sk_socket_type = 0, sk_status = STATUS_OK,
     sk_remote_addr = replicate sizeof_sockaddr 0, sk_proactor = NULL, sk_buffer = NULL,
     sk_accept_cb = NULL, sk_close_cb = NULL, sk_receive_cb = NULL, sk_sent_cb = NULL,
     sk_tick_cb = NULL, sk_sock_data = NULL\<rparr>"

section \<open>System calls and callbacks\<close>

datatype kq_filter = EVFILT_READ | EVFILT_WRITE | EVFILT_OTHER

datatype kq_flag = EV_ADD | EV_DELETE

definition NUM_EVENTS :: nat where
  "NUM_EVENTS = 32"

text \<open>A reported event: \<open>ident\<close>, \<open>filter\<close> and \<open>udata\<close>.\<close>

type_synonym kq_event = "int \<times> kq_filter \<times> ptr"

datatype kq_wait = Kq_Error int | Kq_Events "kq_event list"

text \<open>
  A callback event has the called function pointer and then the arguments. The call of a close
  callback in \<open>proactor_net_dispose\<close> leaves the last argument out, which is \<open>None\<close> here; the
  buffer argument of a receive callback is the address of a member of the socket object, so that
  the event names the socket.
\<close>

datatype kq_x =
    EvKqueue int
  | EvChange int "(int \<times> kq_filter \<times> kq_flag \<times> ptr) list" int
  | EvKevent int nat timespec kq_wait
  | EvRecvfrom int nat "(byte list \<times> byte list) option"
  | EvAcceptAt int ptr int
  | CbProactor ptr ptr proactor_event_t status_t ptr
  | CbSockAccept ptr ptr ptr status_t ptr ptr
  | CbSockClose ptr ptr status_t ptr "ptr option"
  | CbSockReceive ptr ptr "byte list" ptr status_t ptr ptr
  | CbSockTick ptr ptr status_t ptr ptr

type_synonym kq_trace = "kq_x posix_ev list"

text \<open>
  \<open>os_indeterminate\<close> is the value of an automatic variable without initialiser.
  \<open>os_socket_to_handle\<close> stands for the function \<open>socket_to_handle\<close>, which is called but not
  defined in the repository. \<open>os_accept_at\<close> is \<open>accept\<close> with its third argument, the address of the
  length of the address buffer: the returned value, and the address it stores if it succeeds.
\<close>

record kq_os = "kq_x posix" +
  os_kqueue :: "kq_trace \<Rightarrow> int"
  os_kevent_change :: "kq_trace \<Rightarrow> int \<Rightarrow> (int \<times> kq_filter \<times> kq_flag \<times> ptr) list \<Rightarrow> int"
  os_kevent_wait :: "kq_trace \<Rightarrow> int \<Rightarrow> nat \<Rightarrow> timespec \<Rightarrow> kq_wait"
  os_recvfrom :: "kq_trace \<Rightarrow> int \<Rightarrow> nat \<Rightarrow> (byte list \<times> byte list) option"
  os_accept_at :: "kq_trace \<Rightarrow> int \<Rightarrow> ptr \<Rightarrow> int \<times> byte list"
  os_indeterminate :: "kq_trace \<Rightarrow> ptr"
  os_socket_to_handle :: "int \<Rightarrow> ptr"

record kq_state = "(kq_x posix_ev, kq_cell) mach" +
  kq_log :: debug_state

type_synonym 'a kq_run = "kq_state \<Rightarrow> ('a, kq_state) outcome"
type_synonym kq_app = "kq_x \<Rightarrow> unit kq_run"

text \<open>What the documentation promises: no call reports or stores more than it was asked for.\<close>

definition kq_os_ok :: "kq_os \<Rightarrow> bool" where
  "kq_os_ok os \<longleftrightarrow> posix_ok os \<and>
     (\<forall>h kq n ts evs. os_kevent_wait os h kq n ts = Kq_Events evs \<longrightarrow> length evs \<le> n) \<and>
     (\<forall>h fd n bs addr. os_recvfrom os h fd n = Some (bs, addr) \<longrightarrow> length bs \<le> n)"

definition sys_kqueue :: "kq_os \<Rightarrow> int kq_run" where
  "sys_kqueue os s = (let r = os_kqueue os (trace s) in Ret r (emit (EvExt (EvKqueue r)) s))"

definition sys_kevent_change ::
    "kq_os \<Rightarrow> int \<Rightarrow> (int \<times> kq_filter \<times> kq_flag \<times> ptr) list \<Rightarrow> int kq_run" where
  "sys_kevent_change os kq changes s =
     (let r = os_kevent_change os (trace s) kq changes in
      Ret r (emit (EvExt (EvChange kq changes r)) s))"

definition sys_kevent_wait :: "kq_os \<Rightarrow> int \<Rightarrow> nat \<Rightarrow> timespec \<Rightarrow> kq_wait kq_run" where
  "sys_kevent_wait os kq n ts s =
     (let r = os_kevent_wait os (trace s) kq n ts in
      Ret r (emit (EvExt (EvKevent kq n ts r)) s))"

definition sys_recvfrom :: "kq_os \<Rightarrow> int \<Rightarrow> nat \<Rightarrow> (byte list \<times> byte list) option kq_run" where
  "sys_recvfrom os fd n s =
     (let r = os_recvfrom os (trace s) fd n in Ret r (emit (EvExt (EvRecvfrom fd n r)) s))"

text \<open>
  \<open>accept(fd, addr, addr_len)\<close>, where \<open>addr\<close> is the buffer before the call: the returned value and
  the buffer after it. A call that fails stores nothing. One that succeeds reads and writes a
  length at the address \<open>addr_len\<close>; no object of the program is such a length.
\<close>

definition sys_accept_at :: "kq_os \<Rightarrow> int \<Rightarrow> byte list \<Rightarrow> ptr \<Rightarrow> (int \<times> byte list) kq_run" where
  "sys_accept_at os fd addr addr_len s =
     (let (r, stored) = os_accept_at os (trace s) fd addr_len;
          s = emit (EvExt (EvAcceptAt fd addr_len r)) s in
      if r < 0 then Ret (r, addr) s
      else and_then (load_cell addr_len s) (\<lambda>_ s. Fault Wrong_Object))"

text \<open>
  The documented error EFAULT: \<open>accept\<close> fails if the address of the length is not valid. The code
  passes the size of the buffer, 16, instead of an address.
\<close>

definition accept_efault :: "kq_os \<Rightarrow> bool" where
  "accept_efault os \<longleftrightarrow> (\<forall>h fd. fst (os_accept_at os h fd sizeof_sockaddr) = - 1)"

definition call_cb :: "kq_app \<Rightarrow> kq_x \<Rightarrow> unit kq_run" where
  "call_cb app cb s = app cb (emit (EvExt cb) s)"

definition log_to ::
    "(string \<Rightarrow> nat \<Rightarrow> string \<Rightarrow> debug_state \<Rightarrow> debug_state) \<Rightarrow>
     string \<Rightarrow> nat \<Rightarrow> string \<Rightarrow> kq_state \<Rightarrow> kq_state" where
  "log_to f func line msg s = s\<lparr>kq_log := f func line msg (kq_log s)\<rparr>"

section \<open>Typed accesses\<close>

definition load_proactor :: "ptr \<Rightarrow> proactor_t kq_run" where
  "load_proactor p s =
     and_then (load_cell p s) (\<lambda>c s.
       case c of Proactor_Cell r \<Rightarrow> Ret r s | _ \<Rightarrow> Fault Wrong_Object)"

definition update_proactor :: "ptr \<Rightarrow> (proactor_t \<Rightarrow> proactor_t) \<Rightarrow> unit kq_run" where
  "update_proactor p f s =
     and_then (load_proactor p s) (\<lambda>r s. store_cell p (Proactor_Cell (f r)) s)"

definition load_socket :: "ptr \<Rightarrow> proactor_socket_t kq_run" where
  "load_socket p s =
     and_then (load_cell p s) (\<lambda>c s.
       case c of Socket_Cell r \<Rightarrow> Ret r s | _ \<Rightarrow> Fault Wrong_Object)"

definition update_socket ::
    "ptr \<Rightarrow> (proactor_socket_t \<Rightarrow> proactor_socket_t) \<Rightarrow> unit kq_run" where
  "update_socket p f s =
     and_then (load_socket p s) (\<lambda>r s. store_cell p (Socket_Cell (f r)) s)"

definition load_buf :: "ptr \<Rightarrow> proactor_buf_t kq_run" where
  "load_buf p s =
     and_then (load_cell p s) (\<lambda>c s.
       case c of Buf_Cell r \<Rightarrow> Ret r s | _ \<Rightarrow> Fault Wrong_Object)"

text \<open>The kernel stores received bytes at the start of a block.\<close>

definition store_received :: "ptr \<Rightarrow> byte list \<Rightarrow> unit kq_run" where
  "store_received p bs s =
     (if bs = [] then Ret () s
      else and_then (load_cell p s) (\<lambda>c s.
        case c of
          Data_Cell old \<Rightarrow>
            if length bs \<le> length old
            then store_cell p (Data_Cell (bs @ drop (length bs) old)) s
            else Fault Out_Of_Bounds
        | _ \<Rightarrow> Fault Wrong_Object))"

lemmas kq_access_defs = load_proactor_def update_proactor_def load_socket_def update_socket_def
  load_buf_def store_received_def
lemmas kq_sys_defs = sys_defs sys_kqueue_def sys_kevent_change_def sys_kevent_wait_def
  sys_recvfrom_def

section \<open>Creation, status, stop and wake\<close>

definition tick_time_spec :: "u64 \<Rightarrow> timespec" where
  "tick_time_spec tick_period_ms =
     \<lparr>ts_sec = tick_period_ms div 1000, ts_nsec = (tick_period_ms mod 1000) * 1000000\<rparr>"

text \<open>
  The body of the \<open>do ... while(0)\<close> after the allocation; its value is \<open>rc\<close>, and each \<open>break\<close>
  is an early result. The parameter \<open>sock_data\<close> of \<open>proactor_net_create\<close> is not used.
\<close>

definition create_steps :: "kq_os \<Rightarrow> ptr \<Rightarrow> ptr \<Rightarrow> ptr \<Rightarrow> u64 \<Rightarrow> status_t kq_run" where
  "create_steps os p event_cb app_data tick_period_ms s =
     and_then (update_proactor p (\<lambda>r. r\<lparr>pr_wakeup_fds := (INVALID_SOCKET, INVALID_SOCKET)\<rparr>) s)
       (\<lambda>_ s.
     and_then (update_proactor p (\<lambda>r. r\<lparr>pr_tick_time_spec := tick_time_spec tick_period_ms,
         pr_stop := False, pr_event_cb := event_cb, pr_app_data := app_data\<rparr>) s) (\<lambda>_ s.
     let s = log_to detail ''proactor_net_create'' 127
               ''Opening kernel event queue file descriptor.'' s in
     and_then (sys_kqueue os s) (\<lambda>kq s.
     and_then (update_proactor p (\<lambda>r. r\<lparr>pr_kq := kq\<rparr>) s) (\<lambda>_ s.
     if kq = - 1
     then Ret STATUS_INTERNAL_FAILURE
            (log_to warn ''proactor_net_create'' 131 ''Unable to open kernel queue!'' s)
     else
     let s = log_to detail ''proactor_net_create'' 136 ''Opening wake pipe.'' s in
     and_then (load_proactor p s) (\<lambda>r s.
     and_then (sys_pipe os (pr_wakeup_fds r) s) (\<lambda>(rc, fds) s.
     and_then (update_proactor p (\<lambda>r. r\<lparr>pr_wakeup_fds := fds\<rparr>) s) (\<lambda>_ s.
     if rc = - 1
     then Ret STATUS_INTERNAL_FAILURE
            (log_to warn ''proactor_net_create'' 140 ''Unable to open kernel queue!'' s)
     else
     let s = log_to detail ''proactor_net_create'' 145
               ''Setting up event watching for the wake pipe.'' s in
     and_then (load_proactor p s) (\<lambda>r s.
     and_then (sys_kevent_change os (pr_kq r)
         [(fst (pr_wakeup_fds r), EVFILT_READ, EV_ADD, NULL)] s) (\<lambda>rc s.
     if rc = - 1
     then Ret STATUS_INTERNAL_FAILURE
            (log_to warn ''proactor_net_create'' 150 ''Unable to open kernel queue!'' s)
     else Ret STATUS_OK s)))))))))"

definition proactor_net_create :: "kq_os \<Rightarrow> ptr \<Rightarrow> ptr \<Rightarrow> ptr \<Rightarrow> u64 \<Rightarrow> ptr kq_run" where
  "proactor_net_create os event_cb sock_data app_data tick_period_ms s =
     (let s = log_to info ''proactor_net_create'' 101 ''Starting.'' s;
          s = log_to detail ''proactor_net_create'' 107
                ''Allocating memory for new proactor.'' s in
     and_then (sys_malloc os sizeof_proactor_t (Proactor_Cell zero_proactor) s) (\<lambda>p s.
     if p = NULL
     then Ret NULL
            (log_to warn ''proactor_net_create'' 110 ''Unable to allocate proactor data!'' s)
     else
       and_then (create_steps os p event_cb app_data tick_period_ms s) (\<lambda>rc s.
       and_then (update_proactor p (\<lambda>r. r\<lparr>pr_status := rc\<rparr>) s) (\<lambda>_ s.
       Ret p s))))"

definition proactor_net_get_status :: "ptr \<Rightarrow> status_t kq_run" where
  "proactor_net_get_status p s =
     (if p \<noteq> NULL
      then and_then (load_proactor p s) (\<lambda>r s. Ret (pr_status r) s)
      else Ret STATUS_NULL_PTR s)"

definition proactor_net_wake :: "kq_os \<Rightarrow> ptr \<Rightarrow> unit kq_run" where
  "proactor_net_wake os p s =
     (if p \<noteq> NULL
      then
        and_then (load_proactor p s) (\<lambda>r s.
        and_then (sys_write os (snd (pr_wakeup_fds r)) [1] s) (\<lambda>rc s.
        if rc = - 1
        then Ret () (log_to warn ''proactor_net_wake'' 317 ''Unable to write to wake pipe!'' s)
        else Ret () s))
      else Ret () s)"

definition proactor_net_stop :: "kq_os \<Rightarrow> ptr \<Rightarrow> unit kq_run" where
  "proactor_net_stop os p s =
     (if p \<noteq> NULL
      then and_then (update_proactor p (\<lambda>r. r\<lparr>pr_stop := True\<rparr>) s) (\<lambda>_ s. proactor_net_wake os p s)
      else Ret () s)"

section \<open>Ready sockets\<close>

definition done_message :: "status_t \<Rightarrow> string" where
  "done_message rc = ''Done with status '' @ status_to_str (status_code rc) @ ''.''"

definition process_accept_ready :: "kq_os \<Rightarrow> kq_app \<Rightarrow> ptr \<Rightarrow> ptr \<Rightarrow> status_t kq_run" where
  "process_accept_ready os app p server_sock s =
     (let fn = ''process_accept_ready'';
          done = (\<lambda>rc s. Ret rc (log_to info fn 370 (done_message rc) s));
          s = log_to info fn 332 ''Starting.'' s in
     and_then (load_socket server_sock s) (\<lambda>ls s.
     if sk_accept_cb ls = NULL
     then done STATUS_NULL_PTR (log_to warn fn 339 ''No callback on listener socket!'' s)
     else
     and_then (sys_malloc os sizeof_proactor_socket_t (Socket_Cell zero_socket) s) (\<lambda>client s.
     if client = NULL
     then done STATUS_NO_RESOURCE
            (log_to warn fn 347 ''Unable to allocate new socket struct instance!'' s)
     else
     and_then (update_socket client (\<lambda>c. c\<lparr>sk_socket_type := SOCKET_TYPE_TCP_CLIENT\<rparr>) s) (\<lambda>_ s.
     and_then (load_socket server_sock s) (\<lambda>ls s.
     let client_addr = replicate sizeof_sockaddr 0 in
     and_then (sys_accept_at os (sk_sock ls) client_addr sizeof_sockaddr s)
       (\<lambda>(fd, client_addr) s.
     and_then (update_socket client (\<lambda>c. c\<lparr>sk_sock := fd\<rparr>) s) (\<lambda>_ s.
     and_then
       (if fd > 0
        then and_then (update_socket client (\<lambda>c. c\<lparr>sk_remote_addr := client_addr\<rparr>) s)
               (\<lambda>_ s. Ret STATUS_OK s)
        else Ret STATUS_INTERNAL_FAILURE
               (log_to warn fn 361 ''Error calling accept() on listening socket!'' s)) (\<lambda>rc s.
     and_then (load_socket server_sock s) (\<lambda>ls s.
     and_then (load_proactor p s) (\<lambda>pr s.
     and_then (call_cb app (CbSockAccept (sk_accept_cb ls) server_sock client rc
         (sk_sock_data ls) (pr_app_data pr)) s) (\<lambda>_ s.
     done rc s)))))))))))"

definition process_read_ready :: "kq_os \<Rightarrow> kq_app \<Rightarrow> ptr \<Rightarrow> ptr \<Rightarrow> status_t kq_run" where
  "process_read_ready os app p sock s =
     (let fn = ''process_read_ready'';
          done = (\<lambda>rc s. Ret rc (log_to info fn 412 (done_message rc) s));
          s = log_to info fn 381 ''Starting.'' s in
     and_then (load_socket sock s) (\<lambda>sk s.
     if sk_receive_cb sk = NULL
     then done STATUS_NULL_PTR (log_to warn fn 388 ''No read callback on socket!'' s)
     else
     and_then (load_buf (sk_buffer sk) s) (\<lambda>b s.
     and_then (sys_recvfrom os (sk_sock sk) (unat (pb_data_length b)) s) (\<lambda>r s.
     case r of
       None \<Rightarrow> done STATUS_OK s
     | Some (bs, addr) \<Rightarrow>
         and_then (store_received (pb_data b) bs s) (\<lambda>_ s.
         and_then (update_socket sock (\<lambda>k. k\<lparr>sk_remote_addr := addr\<rparr>) s) (\<lambda>_ s.
         if bs \<noteq> []
         then
           and_then (load_socket sock s) (\<lambda>sk s.
           and_then (load_buf (sk_buffer sk) s) (\<lambda>b s.
           and_then (store_cell (sk_buffer sk)
               (Buf_Cell (b\<lparr>pb_data_length := of_nat (length bs)\<rparr>)) s) (\<lambda>_ s.
           and_then
             (if sk_receive_cb sk \<noteq> NULL
              then and_then (load_proactor p s) (\<lambda>pr s.
                   call_cb app (CbSockReceive (sk_receive_cb sk) sock (sk_remote_addr sk) sock
                     STATUS_OK (sk_sock_data sk) (pr_app_data pr)) s)
              else Ret () s) (\<lambda>_ s.
           done STATUS_OK s))))
         else
           and_then (load_socket sock s) (\<lambda>sk s.
           and_then
             (if sk_close_cb sk \<noteq> NULL
              then and_then (load_proactor p s) (\<lambda>pr s.
                   call_cb app (CbSockClose (sk_close_cb sk) sock STATUS_OK (sk_sock_data sk)
                     (Some (pr_app_data pr))) s)
              else Ret () s) (\<lambda>_ s.
           done STATUS_OK s))))))))"

text \<open>The function has no statement after its declaration and returns no value.\<close>

definition process_write_ready :: "ptr \<Rightarrow> ptr \<Rightarrow> unit kq_run" where
  "process_write_ready p sock s = Ret () s"

section \<open>The run loop\<close>

definition kq_dispatch :: "kq_os \<Rightarrow> kq_app \<Rightarrow> ptr \<Rightarrow> kq_event \<Rightarrow> unit kq_run" where
  "kq_dispatch os app p = (\<lambda>(ident, filtr, socket) s.
     and_then (load_proactor p s) (\<lambda>pr s.
     if ident = fst (pr_wakeup_fds pr)
     then
       and_then (sys_read os (fst (pr_wakeup_fds pr)) 1
           (log_to detail ''proactor_net_run'' 255 ''Proactor woken up.'' s)) (\<lambda>_ s.
       Ret () s)
     else
       and_then
         (if filtr = EVFILT_READ \<and> socket \<noteq> NULL
          then
            and_then (load_socket socket s) (\<lambda>sk s.
            if sk_socket_type sk = PROACTOR_SOCK_TCP_LISTENER
            then and_then (process_accept_ready os app p socket s) (\<lambda>_ s. Ret () s)
            else if sk_socket_type sk = PROACTOR_SOCK_TCP_CLIENT \<or>
                    sk_socket_type sk = PROACTOR_SOCK_UDP
            then and_then (process_read_ready os app p socket s) (\<lambda>_ s. Ret () s)
            else Ret () (log_to warn ''proactor_net_run'' 271
                   (''Unknown socket type '' @ fmt_d (sk_socket_type sk) @ ''!'') s))
          else Ret () s) (\<lambda>_ s.
       if filtr = EVFILT_WRITE then process_write_ready p socket s else Ret () s)))"

text \<open>
  The loop over the sockets for the tick callbacks, from the socket \<open>sock\<close> on; \<open>n\<close> bounds its
  iterations.
\<close>

primrec tick_sockets :: "kq_app \<Rightarrow> ptr \<Rightarrow> nat \<Rightarrow> ptr \<Rightarrow> unit kq_run" where
  "tick_sockets app p 0 sock s = Out_Of_Fuel"
| "tick_sockets app p (Suc n) sock s =
     (if sock = NULL then Ret () s
      else
        and_then (load_socket sock s) (\<lambda>sk s.
        and_then
          (if sk_tick_cb sk \<noteq> NULL
           then and_then (load_proactor p s) (\<lambda>pr s.
                call_cb app (CbSockTick (sk_tick_cb sk) sock STATUS_OK (sk_sock_data sk)
                  (pr_app_data pr)) s)
           else Ret () s) (\<lambda>_ s.
        and_then (load_socket sock s) (\<lambda>sk s.
        tick_sockets app p n (sk_next sk) s))))"

text \<open>
  The end of a round. The variable \<open>sock\<close> of the loop over the sockets is declared without an
  initial value.
\<close>

definition tick_round :: "kq_os \<Rightarrow> kq_app \<Rightarrow> nat \<Rightarrow> ptr \<Rightarrow> unit kq_run" where
  "tick_round os app n p s =
     and_then (load_proactor p s) (\<lambda>pr s.
     and_then
       (if pr_event_cb pr \<noteq> NULL
        then call_cb app (CbProactor (pr_event_cb pr) p PROACTOR_EVENT_TICK STATUS_OK
               (pr_app_data pr)) s
        else Ret () s) (\<lambda>_ s.
     tick_sockets app p n (os_indeterminate os (trace s)) s))"

text \<open>
  One round. After an error other than an interruption the number of events is -1 and the round
  goes on with the ticks.
\<close>

definition kq_round :: "kq_os \<Rightarrow> kq_app \<Rightarrow> nat \<Rightarrow> ptr \<Rightarrow> unit kq_run" where
  "kq_round os app n p s =
     and_then (load_proactor p s) (\<lambda>pr s.
     and_then (sys_kevent_wait os (pr_kq pr) NUM_EVENTS (pr_tick_time_spec pr) s) (\<lambda>r s.
     case r of
       Kq_Error errno \<Rightarrow>
         if errno = EINTR
         then Ret () (log_to warn ''proactor_net_run'' 242
                ''kevent() call interrupted by signal!'' s)
         else tick_round os app n p s
     | Kq_Events events \<Rightarrow>
         if length events \<le> NUM_EVENTS
         then and_then (for_each (kq_dispatch os app p) events s) (\<lambda>_. tick_round os app n p)
         else Fault Out_Of_Bounds))"

primrec kq_loop :: "kq_os \<Rightarrow> kq_app \<Rightarrow> nat \<Rightarrow> ptr \<Rightarrow> nat \<Rightarrow> unit kq_run" where
  "kq_loop os app n p 0 s = Out_Of_Fuel"
| "kq_loop os app n p (Suc k) s =
     and_then (load_proactor p s) (\<lambda>pr s.
     if pr_stop pr then Ret () s
     else and_then (kq_round os app n p s) (\<lambda>_. kq_loop os app n p k))"

definition proactor_net_run :: "kq_os \<Rightarrow> kq_app \<Rightarrow> nat \<Rightarrow> ptr \<Rightarrow> nat \<Rightarrow> unit kq_run" where
  "proactor_net_run os app n p k s =
     (if p = NULL
      then Ret () (log_to warn ''proactor_net_run'' 231
             ''Called with a NULL proactor pointer!'' s)
      else kq_loop os app n p k s)"

section \<open>Disposal\<close>

primrec dispose_sockets :: "kq_os \<Rightarrow> kq_app \<Rightarrow> nat \<Rightarrow> ptr \<Rightarrow> unit kq_run" where
  "dispose_sockets os app 0 cur s = Out_Of_Fuel"
| "dispose_sockets os app (Suc n) cur s =
     (if cur = NULL then Ret () s
      else
        and_then (load_socket cur s) (\<lambda>sk s.
        let nxt = sk_next sk in
        and_then
          (if sk_close_cb sk \<noteq> NULL
           then call_cb app (CbSockClose (sk_close_cb sk) (os_socket_to_handle os (sk_sock sk))
                  (sk_status sk) (sk_sock_data sk) None) s
           else Ret () s) (\<lambda>_ s.
        and_then (load_socket cur s) (\<lambda>sk s.
        and_then (sys_close (sk_sock sk) s) (\<lambda>_ s.
        and_then (sys_free cur s) (\<lambda>_ s.
        dispose_sockets os app n nxt s))))))"

text \<open>The parts of \<open>proactor_net_dispose\<close> before and after the loop over the sockets.\<close>

definition dispose_event :: "kq_app \<Rightarrow> ptr \<Rightarrow> unit kq_run" where
  "dispose_event app p s =
     and_then (load_proactor p s) (\<lambda>pr s.
     if pr_event_cb pr \<noteq> NULL
     then call_cb app (CbProactor (pr_event_cb pr) p PROACTOR_EVENT_DISPOSE (pr_status pr)
            (pr_app_data pr)) s
     else Ret () s)"

definition dispose_descriptors :: "ptr \<Rightarrow> unit kq_run" where
  "dispose_descriptors p s =
     and_then (load_proactor p s) (\<lambda>pr s.
     and_then
       (if fst (pr_wakeup_fds pr) \<noteq> INVALID_SOCKET
        then and_then (sys_close (fst (pr_wakeup_fds pr)) s) (\<lambda>_ s.
             sys_close (snd (pr_wakeup_fds pr)) s)
        else Ret () s) (\<lambda>_ s.
     and_then (load_proactor p s) (\<lambda>pr s.
     sys_close (pr_kq pr) s)))"

definition proactor_net_dispose :: "kq_os \<Rightarrow> kq_app \<Rightarrow> nat \<Rightarrow> ptr \<Rightarrow> unit kq_run" where
  "proactor_net_dispose os app n p s =
     (let fn = ''proactor_net_dispose''; s = log_to info fn 167 ''Starting.'' s in
     if p = NULL
     then Ret () (log_to warn fn 170 ''Called with a NULL proactor pointer!'' s)
     else
     and_then (proactor_net_stop os p s) (\<lambda>_ s.
     and_then (dispose_event app p s) (\<lambda>_ s.
     and_then (load_proactor p s) (\<lambda>pr s.
     and_then (dispose_sockets os app n (pr_sockets pr) s) (\<lambda>_ s.
     and_then (dispose_descriptors p s) (\<lambda>_ s.
     Ret () (log_to info fn 204 ''Done.'' s)))))))"

section \<open>Applications that act through the API\<close>

text \<open>
  What an application can do with a proactor: the functions on sockets that the header declares
  have no implementation.
\<close>

datatype kq_call = Kq_Stop | Kq_Wake | Kq_Get_Status

primrec do_kq_call :: "kq_os \<Rightarrow> ptr \<Rightarrow> kq_call \<Rightarrow> unit kq_run" where
  "do_kq_call os p Kq_Stop s = proactor_net_stop os p s"
| "do_kq_call os p Kq_Wake s = proactor_net_wake os p s"
| "do_kq_call os p Kq_Get_Status s = and_then (proactor_net_get_status p s) (\<lambda>_. Ret ())"

definition kq_api_app :: "kq_os \<Rightarrow> ptr \<Rightarrow> (kq_trace \<Rightarrow> kq_x \<Rightarrow> kq_call list) \<Rightarrow> kq_app" where
  "kq_api_app os p script cb s = for_each (do_kq_call os p) (script (trace s) cb) s"

end
