(* ===== verification/Kevent_Props.thy ===== *)
theory Kevent_Props
  imports Kevent Interfaces
begin

text \<open>
  Lemmas on the kqueue back end: frames of its accesses, the contract between the module and its
  application with its interpretation on applications that use the API, the linked list of
  sockets, and the interpretation of the run loop.
\<close>

section \<open>Frames\<close>

lemma log_to_frame [simp]:
  "trace (log_to f g n m s) = trace s" "heap (log_to f g n m s) = heap s"
  "brk (log_to f g n m s) = brk s"
  by (simp_all add: log_to_def)

definition proactor_at :: "ptr \<Rightarrow> kq_state \<Rightarrow> proactor_t option" where
  "proactor_at p s =
     (if p = NULL then None
      else case heap s p of Some (Proactor_Cell r) \<Rightarrow> Some r | _ \<Rightarrow> None)"

lemma proactor_at_SomeD:
  "proactor_at p s = Some r \<Longrightarrow> p \<noteq> NULL \<and> heap s p = Some (Proactor_Cell r)"
  by (auto simp: proactor_at_def split: if_splits option.splits kq_cell.splits)

lemma proactor_at_frame [simp]:
  "proactor_at p (emit e s) = proactor_at p s"
  "proactor_at p (log_to f g n m s) = proactor_at p s"
  by (simp_all add: proactor_at_def)

lemma load_proactor_at [simp]: "proactor_at p s = Some r \<Longrightarrow> load_proactor p s = Ret r s"
  by (auto simp: load_proactor_def dest: proactor_at_SomeD)

lemma load_proactor_None: "proactor_at p s = None \<Longrightarrow> \<exists>f. load_proactor p s = Fault f"
  by (auto simp: load_proactor_def proactor_at_def load_cell_def
      split: if_splits option.splits kq_cell.splits)

lemma update_proactor_at [simp]:
  "proactor_at p s = Some r \<Longrightarrow>
     update_proactor p f s = Ret () (s\<lparr>heap := (heap s)(p \<mapsto> Proactor_Cell (f r))\<rparr>)"
  by (auto simp: update_proactor_def dest: proactor_at_SomeD)

lemma proactor_at_upd [simp]:
  "proactor_at p (s\<lparr>heap := (heap s)(p \<mapsto> Proactor_Cell r)\<rparr>) = (if p = NULL then None else Some r)"
  "q \<noteq> p \<Longrightarrow> proactor_at p (s\<lparr>heap := (heap s)(q := c)\<rparr>) = proactor_at p s"
  by (simp_all add: proactor_at_def)

lemma load_socket_at [simp]:
  "q \<noteq> NULL \<Longrightarrow> heap s q = Some (Socket_Cell k) \<Longrightarrow> load_socket q s = Ret k s"
  by (simp add: load_socket_def)

section \<open>The contract with the application\<close>

text \<open>
  What a callback may do: write to the wake pipe and set the stop flag. The flag is not reset, no
  other object changes, nothing is allocated or released.
\<close>

definition wakes :: "kq_trace \<Rightarrow> bool" where
  "wakes es \<longleftrightarrow> (\<forall>e \<in> set es. \<exists>fd bs n. e = EvWrite fd bs n)"

definition kq_quiet :: "ptr \<Rightarrow> kq_state \<Rightarrow> kq_state \<Rightarrow> bool" where
  "kq_quiet p s t \<longleftrightarrow>
     brk t = brk s \<and> (\<forall>q. q \<noteq> p \<longrightarrow> heap t q = heap s q) \<and>
     (\<exists>es. trace t = trace s @ es \<and> wakes es) \<and>
     (\<forall>r. proactor_at p s = Some r \<longrightarrow>
        (\<exists>b. proactor_at p t = Some (r\<lparr>pr_stop := b\<rparr>) \<and> (pr_stop r \<longrightarrow> b)))"

lemma stop_same: "\<exists>b. r = r\<lparr>pr_stop := b\<rparr>"
  by (rule exI [of _ "pr_stop r"]) simp

lemma stop_keep: "\<exists>b. r = r\<lparr>pr_stop := b\<rparr> \<and> (pr_stop r \<longrightarrow> b)"
  by (rule exI [of _ "pr_stop r"]) simp

lemma kq_quiet_refl [simp]: "kq_quiet p s s"
proof -
  have "r = r\<lparr>pr_stop := pr_stop r\<rparr>" for r by simp
  then show ?thesis
    unfolding kq_quiet_def wakes_def by force
qed

lemma kq_quiet_trans: "kq_quiet p s t \<Longrightarrow> kq_quiet p t u \<Longrightarrow> kq_quiet p s u"
  unfolding kq_quiet_def wakes_def by (fastforce simp: append_assoc)

locale kq_application =
  fixes app :: kq_app and p :: ptr
  assumes app_quiet: "proactor_at p s \<noteq> None \<Longrightarrow> wp (app cb s) (\<lambda>_ t. kq_quiet p s t) (\<lambda>_ _. False)"
begin

lemma call_quiet:
  "proactor_at p s \<noteq> None \<Longrightarrow>
     wp (call_cb app cb s) (\<lambda>_ t. kq_quiet p (emit (EvExt cb) s) t) (\<lambda>_ _. False)"
  by (simp add: call_cb_def app_quiet)

end

lemma wake_kq_quiet:
  assumes "proactor_at p s = Some r"
  shows "wp (proactor_net_wake os p s) (\<lambda>_ t. kq_quiet p s t) (\<lambda>_ _. False)"
  using assms proactor_at_SomeD [OF assms]
  by (auto simp: proactor_net_wake_def sys_write_def Let_def kq_quiet_def wakes_def
      intro!: exI [of _ "pr_stop r"])

lemma stop_kq_quiet:
  assumes "proactor_at p s = Some r"
  shows "wp (proactor_net_stop os p s) (\<lambda>_ t. kq_quiet p s t \<and>
    (\<exists>r'. proactor_at p t = Some r' \<and> pr_stop r')) (\<lambda>_ _. False)"
proof -
  let ?s = "s\<lparr>heap := (heap s)(p \<mapsto> Proactor_Cell (r\<lparr>pr_stop := True\<rparr>))\<rparr>"
  have p: "p \<noteq> NULL" using proactor_at_SomeD [OF assms] by simp
  then have at: "proactor_at p ?s = Some (r\<lparr>pr_stop := True\<rparr>)" by simp
  have "kq_quiet p s ?s"
    using assms p by (auto simp: kq_quiet_def wakes_def)
  then have step: "kq_quiet p s t" if "kq_quiet p ?s t" for t
    using that by (rule kq_quiet_trans)
  have "wp (proactor_net_wake os p ?s) (\<lambda>_ t. kq_quiet p s t \<and>
      (\<exists>r'. proactor_at p t = Some r' \<and> pr_stop r')) (\<lambda>_ _. False)"
    by (rule wp_mono [OF wake_kq_quiet [OF at]])
      (use step at in \<open>auto simp: kq_quiet_def simp del: proactor_at_upd\<close>)
  then show ?thesis
    using assms p by (simp add: proactor_net_stop_def)
qed

lemma do_kq_call_quiet:
  assumes "proactor_at p s \<noteq> None"
  shows "wp (do_kq_call os p c s) (\<lambda>_ t. kq_quiet p s t) (\<lambda>_ _. False)"
proof -
  obtain r where r: "proactor_at p s = Some r" using assms by auto
  show ?thesis
  proof (cases c)
    case Kq_Stop
    then show ?thesis using stop_kq_quiet [OF r, of os] by (auto elim: wp_mono)
  next
    case Kq_Wake
    then show ?thesis using wake_kq_quiet [OF r, of os] by simp
  next
    case Kq_Get_Status
    then show ?thesis using r proactor_at_SomeD [OF r] by (simp add: proactor_net_get_status_def)
  qed
qed

lemma kq_quiet_at: "kq_quiet p s t \<Longrightarrow> proactor_at p s \<noteq> None \<Longrightarrow> proactor_at p t \<noteq> None"
  by (auto simp: kq_quiet_def)

interpretation kq_api: kq_application "kq_api_app os p script" p for os p script
proof
  fix s cb assume at: "proactor_at p s \<noteq> None"
  show "wp (kq_api_app os p script cb s) (\<lambda>_ t. kq_quiet p s t) (\<lambda>_ _. False)"
    unfolding kq_api_app_def
  proof (rule wp_for_each)
    fix c t assume t: "kq_quiet p s t"
    from do_kq_call_quiet [OF kq_quiet_at [OF t at], of os c]
    show "wp (do_kq_call os p c t) (\<lambda>_ u. kq_quiet p s u) (\<lambda>_ _. False)"
      by (rule wp_mono) (auto intro: kq_quiet_trans [OF t])
  qed simp
qed

section \<open>The run loop\<close>

definition kq_stopped :: "ptr \<Rightarrow> kq_state \<Rightarrow> bool" where
  "kq_stopped p s = (case proactor_at p s of None \<Rightarrow> False | Some r \<Rightarrow> pr_stop r)"

interpretation kq_run_loop: stop_loop "kq_stopped p" "kq_round os app n p" "kq_loop os app n p"
  for os app n p
proof
  fix k s
  show "kq_loop os app n p (Suc k) s =
      (if kq_stopped p s then Ret () s
       else and_then (kq_round os app n p s) (\<lambda>_. kq_loop os app n p k))"
  proof (cases "proactor_at p s")
    case None
    then obtain f where "load_proactor p s = Fault f" using load_proactor_None by blast
    then show ?thesis by (simp add: kq_stopped_def None kq_round_def)
  qed (simp add: kq_stopped_def)
qed simp

section \<open>Accepting\<close>

lemma accept_fails:
  assumes "accept_efault os"
  shows "sys_accept_at os fd addr sizeof_sockaddr s =
    Ret (- 1, addr) (emit (EvExt (EvAcceptAt fd sizeof_sockaddr (- 1))) s)"
proof -
  have "fst (os_accept_at os (trace s) fd sizeof_sockaddr) = - 1"
    using assms by (simp add: accept_efault_def)
  then show ?thesis by (cases "os_accept_at os (trace s) fd sizeof_sockaddr") (simp add: sys_accept_at_def)
qed

section \<open>Reading from a socket\<close>

text \<open>
  A socket with a receive callback, and a buffer whose recorded length is \<open>n\<close> and whose block has
  at least \<open>n\<close> bytes.
\<close>

definition read_shape :: "ptr \<Rightarrow> ptr \<Rightarrow> nat \<Rightarrow> kq_state \<Rightarrow> bool" where
  "read_shape p sock n s \<longleftrightarrow>
     (\<exists>pr k buf old. proactor_at p s = Some pr \<and>
        sock \<noteq> NULL \<and> heap s sock = Some (Socket_Cell k) \<and> sk_receive_cb k \<noteq> NULL \<and>
        sk_buffer k \<noteq> NULL \<and> heap s (sk_buffer k) = Some (Buf_Cell buf) \<and>
        pb_data buf \<noteq> NULL \<and> heap s (pb_data buf) = Some (Data_Cell old) \<and>
        unat (pb_data_length buf) = n \<and> n \<le> length old)"

lemma read_shape_quiet:
  assumes "kq_quiet p s t" and "read_shape p sock n s"
  shows "read_shape p sock n t"
proof -
  obtain pr k buf old where at: "proactor_at p s = Some pr"
    and sh: "sock \<noteq> NULL" "heap s sock = Some (Socket_Cell k)" "sk_receive_cb k \<noteq> NULL"
      "sk_buffer k \<noteq> NULL" "heap s (sk_buffer k) = Some (Buf_Cell buf)"
      "pb_data buf \<noteq> NULL" "heap s (pb_data buf) = Some (Data_Cell old)"
      "unat (pb_data_length buf) = n" "n \<le> length old"
    using assms(2) unfolding read_shape_def by blast
  have "p \<noteq> sock" "p \<noteq> sk_buffer k" "p \<noteq> pb_data buf"
    using proactor_at_SomeD [OF at] sh by auto
  then have "heap t sock = heap s sock" "heap t (sk_buffer k) = heap s (sk_buffer k)"
    "heap t (pb_data buf) = heap s (pb_data buf)"
    using assms(1) by (simp_all add: kq_quiet_def)
  moreover obtain pr' where "proactor_at p t = Some pr'"
    using kq_quiet_at [OF assms(1)] at by fastforce
  ultimately show ?thesis
    using sh unfolding read_shape_def by auto
qed

lemma read_shape_frame [simp]:
  "read_shape p sock n (emit e s) = read_shape p sock n s"
  "read_shape p sock n (log_to f g l m s) = read_shape p sock n s"
  by (simp_all add: read_shape_def)

text \<open>For each call of \<open>recvfrom\<close>, how many bytes were asked for and how many arrived.\<close>

fun recv_of :: "kq_x posix_ev \<Rightarrow> (nat \<times> nat) list" where
  "recv_of (EvExt (EvRecvfrom fd n r)) =
     [(n, case r of None \<Rightarrow> 0 | Some (bs, addr) \<Rightarrow> length bs)]"
| "recv_of _ = []"

definition recv_log :: "kq_trace \<Rightarrow> (nat \<times> nat) list" where
  "recv_log tr = concat (map recv_of tr)"

lemma recv_log_simps [simp]:
  "recv_log [] = []" "recv_log (e # es) = recv_of e @ recv_log es"
  "recv_log (xs @ ys) = recv_log xs @ recv_log ys"
  by (simp_all add: recv_log_def)

lemma recv_log_wakes: "wakes es \<Longrightarrow> recv_log es = []"
  by (induction es) (auto simp: wakes_def)

text \<open>What one read leaves: the request was for \<open>n\<close> bytes, and the length is that of the chunk.\<close>

definition read_post :: "ptr \<Rightarrow> ptr \<Rightarrow> nat \<Rightarrow> kq_state \<Rightarrow> kq_state \<Rightarrow> bool" where
  "read_post p sock n s t \<longleftrightarrow>
     (\<exists>es got. trace t = trace s @ es \<and> recv_log es = [(n, got)] \<and> got \<le> n \<and>
        read_shape p sock (if got = 0 then n else got) t)"

lemma read_post_log [simp]: "read_post p sock n s (log_to f g l m t) = read_post p sock n s t"
  by (simp add: read_post_def)

lemma read_post_quiet:
  assumes "read_post p sock n s t" and "kq_quiet p (emit (EvExt cb) t) u"
    and "recv_of (EvExt cb) = []"
  shows "read_post p sock n s u"
proof -
  obtain es got where t: "trace t = trace s @ es" "recv_log es = [(n, got)]" "got \<le> n"
    "read_shape p sock (if got = 0 then n else got) t"
    using assms(1) unfolding read_post_def by blast
  obtain fs where "trace u = trace s @ (es @ EvExt cb # fs)" "wakes fs"
    using assms(2) t(1) by (auto simp: kq_quiet_def)
  moreover have "read_shape p sock (if got = 0 then n else got) u"
    by (rule read_shape_quiet [OF assms(2)]) (use t(4) in simp)
  ultimately show ?thesis
    unfolding read_post_def using t(2,3) assms(3) recv_log_wakes [of fs]
    by (intro exI [of _ "es @ EvExt cb # fs"] exI [of _ got]) simp
qed

lemma call_read_post:
  assumes "read_post p sock n s t" and "proactor_at p t \<noteq> None" and "recv_of (EvExt cb) = []"
  shows "wp (call_cb (kq_api_app os p script) cb t) (\<lambda>_ u. read_post p sock n s u) (\<lambda>_ _. False)"
  by (rule wp_mono [OF kq_api.call_quiet [OF assms(2)] read_post_quiet [OF assms(1) _ assms(3)]])

lemma read_ready_step:
  assumes ok: "kq_os_ok os" and shape: "read_shape p sock n s"
  shows "wp (process_read_ready os (kq_api_app os p script) p sock s)
    (\<lambda>rc t. rc = STATUS_OK \<and> read_post p sock n s t) (\<lambda>_ _. False)"
proof -
  obtain pr k buf old where at: "proactor_at p s = Some pr"
    and sh: "sock \<noteq> NULL" "heap s sock = Some (Socket_Cell k)" "sk_receive_cb k \<noteq> NULL"
      "sk_buffer k \<noteq> NULL" "heap s (sk_buffer k) = Some (Buf_Cell buf)"
      "pb_data buf \<noteq> NULL" "heap s (pb_data buf) = Some (Data_Cell old)"
      "unat (pb_data_length buf) = n" "n \<le> length old"
    using shape unfolding read_shape_def by blast
  note p = proactor_at_SomeD [OF at]
  have ne: "p \<noteq> sock" "p \<noteq> sk_buffer k" "p \<noteq> pb_data buf" "sk_buffer k \<noteq> sock"
    "pb_data buf \<noteq> sock" "pb_data buf \<noteq> sk_buffer k"
    using p sh by auto
  let ?r = "os_recvfrom os (trace s) (sk_sock k) n"
  let ?s1 = "emit (EvExt (EvRecvfrom (sk_sock k) n ?r))
    (log_to info ''process_read_ready'' 381 ''Starting.'' s)"
  note defs = process_read_ready_def load_buf_def sys_recvfrom_def store_received_def
    update_socket_def Let_def
  show ?thesis
  proof (cases ?r)
    case None
    then have "read_post p sock n s ?s1" unfolding read_post_def using shape by simp
    then show ?thesis
      using sh None by (simp add: defs)
  next
    case (Some ba)
    obtain bs addr where r: "?r = Some (bs, addr)" using Some by (cases ba) auto
    then have len: "length bs \<le> n" using ok unfolding kq_os_ok_def by blast
    let ?k = "k\<lparr>sk_remote_addr := addr\<rparr>"
    show ?thesis
    proof (cases "bs = []")
      case True
      let ?s2 = "?s1\<lparr>heap := (heap s)(sock \<mapsto> Socket_Cell ?k)\<rparr>"
      have at2: "proactor_at p ?s2 = Some pr"
        using at ne p by (simp add: proactor_at_def)
      have "read_shape p sock n ?s2"
        using sh ne at2 unfolding read_shape_def by (intro exI [of _ pr] exI [of _ ?k]) simp
      then have "read_post p sock n s ?s2"
        unfolding read_post_def by (simp add: r True)
      then show ?thesis
        using sh r True at2 call_read_post [of p sock n s ?s2] by (simp add: defs)
    next
      case False
      let ?d = "Data_Cell (bs @ drop (length bs) old)"
      let ?b = "Buf_Cell (buf\<lparr>pb_data_length := of_nat (length bs)\<rparr>)"
      let ?s2 = "?s1\<lparr>heap := (heap s)(pb_data buf \<mapsto> ?d, sock \<mapsto> Socket_Cell ?k, sk_buffer k \<mapsto> ?b)\<rparr>"
      have at2: "proactor_at p ?s2 = Some pr"
        using at ne p by (simp add: proactor_at_def)
      have "length bs < 2 ^ 64"
        using len sh(8) unsigned_less [of "pb_data_length buf", where ?'a = nat] by simp
      then have n2: "unat (of_nat (length bs) :: size_t) = length bs" by (simp add: unat_of_nat)
      have "read_shape p sock (length bs) ?s2"
        using sh ne at2 n2 unfolding read_shape_def
        by (intro exI [of _ pr] exI [of _ ?k]) simp
      then have "read_post p sock n s ?s2"
        unfolding read_post_def by (simp add: r False len)
      then show ?thesis
        using sh ne r False len at2 call_read_post [of p sock n s ?s2] by (simp add: defs)
    qed
  qed
qed

section \<open>Only the loops may go on for ever\<close>

lemma kq_access_fuel [simp]:
  "load_proactor p s \<noteq> Out_Of_Fuel" "load_socket p s \<noteq> Out_Of_Fuel"
  "update_proactor p f s \<noteq> Out_Of_Fuel" "update_socket p g s \<noteq> Out_Of_Fuel"
  "load_buf p s \<noteq> Out_Of_Fuel" "store_received p bs s \<noteq> Out_Of_Fuel"
  "store_cell p c s \<noteq> Out_Of_Fuel" "sys_malloc os k c s \<noteq> Out_Of_Fuel"
  by (simp_all add: kq_access_defs load_cell_def store_cell_def sys_malloc_def and_then_eq_Fuel_iff
      split: option.split kq_cell.split)

lemma kq_calls_fuel [simp]: "do_kq_call os p c s \<noteq> Out_Of_Fuel"
  by (cases c) (auto simp: proactor_net_stop_def proactor_net_wake_def proactor_net_get_status_def
      sys_write_def Let_def and_then_eq_Fuel_iff)

lemma call_cb_fuel [simp]: "call_cb (kq_api_app os p script) cb s \<noteq> Out_Of_Fuel"
  by (simp add: call_cb_def kq_api_app_def for_each_fuel)

lemma process_fuel [simp]:
  "process_accept_ready os (kq_api_app os p script) p q s \<noteq> Out_Of_Fuel"
  "process_read_ready os (kq_api_app os p script) p q s \<noteq> Out_Of_Fuel"
  by (auto simp: process_accept_ready_def process_read_ready_def Let_def sys_accept_at_def
      load_cell_def sys_recvfrom_def and_then_eq_Fuel_iff split: option.splits prod.splits if_splits)

lemma kq_dispatch_fuel [simp]: "kq_dispatch os (kq_api_app os p script) p e s \<noteq> Out_Of_Fuel"
  by (auto simp: kq_dispatch_def sys_read_def Let_def process_write_ready_def and_then_eq_Fuel_iff
      split: prod.split option.split)

lemma stop_fuel [simp]: "proactor_net_stop os p s \<noteq> Out_Of_Fuel"
  using kq_calls_fuel [of os p Kq_Stop s] by simp

lemma dispose_steps_fuel [simp]:
  "dispose_event (kq_api_app os p script) p s \<noteq> Out_Of_Fuel"
  "dispose_descriptors p s \<noteq> Out_Of_Fuel"
  by (auto simp: dispose_event_def dispose_descriptors_def sys_close_def and_then_eq_Fuel_iff)

section \<open>The list of sockets\<close>

fun sock_list :: "(ptr \<Rightarrow> kq_cell option) \<Rightarrow> ptr \<Rightarrow> (ptr \<times> proactor_socket_t) list \<Rightarrow> bool" where
  "sock_list h q [] = (q = NULL)"
| "sock_list h q ((a, k) # xs) =
     (q = a \<and> a \<noteq> NULL \<and> h a = Some (Socket_Cell k) \<and> sock_list h (sk_next k) xs)"

lemma sock_list_unique: "sock_list h q xs \<Longrightarrow> sock_list h q ys \<Longrightarrow> xs = ys"
proof (induction xs arbitrary: q ys)
  case Nil
  then show ?case by (cases ys) auto
next
  case (Cons x xs)
  then show ?case by (cases x; cases ys) auto
qed

lemma sock_list_append:
  "sock_list h q (xs @ (a, k) # ys) \<Longrightarrow> sock_list h a ((a, k) # ys)"
  by (induction xs arbitrary: q) auto

text \<open>A list that ends in the null pointer visits no socket twice.\<close>

lemma sock_list_distinct: "sock_list h q xs \<Longrightarrow> distinct (map fst xs)"
proof (induction xs arbitrary: q)
  case (Cons x xs)
  obtain a k where x: "x = (a, k)" by (cases x)
  have "a \<notin> set (map fst xs)"
  proof
    assume "a \<in> set (map fst xs)"
    then obtain k' where "(a, k') \<in> set xs" by auto
    then obtain ys zs where xs: "xs = ys @ (a, k') # zs" by (meson split_list)
    then have "sock_list h q (((a, k) # ys) @ (a, k') # zs)" using Cons.prems x by simp
    then have "sock_list h a ((a, k') # zs)" by (rule sock_list_append)
    moreover have "sock_list h a ((a, k) # xs)" using Cons.prems x by simp
    ultimately have "(a, k') # zs = (a, k) # xs" by (rule sock_list_unique)
    then show False using xs by simp
  qed
  then show ?case using Cons x by auto
qed simp

lemma sock_list_sockets:
  "sock_list h q xs \<Longrightarrow> (a, k) \<in> set xs \<Longrightarrow> h a = Some (Socket_Cell k)"
  by (induction h q xs rule: sock_list.induct) auto

lemma sock_list_cong:
  "sock_list h q xs \<Longrightarrow> (\<And>a. a \<in> fst ` set xs \<Longrightarrow> h' a = h a) \<Longrightarrow> sock_list h' q xs"
  by (induction h q xs rule: sock_list.induct) auto

section \<open>Disposing of the sockets\<close>

text \<open>The events of a disposal: descriptors closed, objects released, close callbacks called.\<close>

fun is_teardown :: "kq_x posix_ev \<Rightarrow> bool" where
  "is_teardown (EvClose fd) = True"
| "is_teardown (EvFree q) = True"
| "is_teardown (EvExt (CbSockClose cb h st sd ad)) = True"
| "is_teardown _ = False"

definition teardown :: "kq_os \<Rightarrow> (ptr \<times> proactor_socket_t) list \<Rightarrow> kq_trace" where
  "teardown os xs = concat (map (\<lambda>(a, k).
     (if sk_close_cb k \<noteq> NULL
      then [EvExt (CbSockClose (sk_close_cb k) (os_socket_to_handle os (sk_sock k)) (sk_status k)
              (sk_sock_data k) None)]
      else []) @ [EvClose (sk_sock k), EvFree a]) xs)"

text \<open>The descriptors that an event opens; the failures among them are \<open>-1\<close>.\<close>

fun opens :: "kq_x posix_ev \<Rightarrow> int list" where
  "opens (EvExt (EvKqueue r)) = [r]"
| "opens (EvPipe (Some (a, b))) = [a, b]"
| "opens (EvSocket r) = [r]"
| "opens (EvExt (EvAcceptAt fd q r)) = [r]"
| "opens _ = []"

abbreviation opens_none :: "kq_trace \<Rightarrow> bool" where
  "opens_none \<equiv> list_all (\<lambda>e. opens e = [])"

definition disposed ::
    "kq_os \<Rightarrow> ptr \<Rightarrow> (ptr \<times> proactor_socket_t) list \<Rightarrow> kq_state \<Rightarrow> kq_state \<Rightarrow> bool" where
  "disposed os p xs s t \<longleftrightarrow>
     (\<exists>es. trace t = trace s @ es \<and> filter is_teardown es = teardown os xs \<and> opens_none es) \<and>
     (\<forall>q. q \<noteq> p \<longrightarrow> heap t q = (if q \<in> fst ` set xs then None else heap s q)) \<and>
     (\<forall>r. proactor_at p s = Some r \<longrightarrow> (\<exists>b. proactor_at p t = Some (r\<lparr>pr_stop := b\<rparr>)))"

lemma teardown_append: "teardown os (xs @ ys) = teardown os xs @ teardown os ys"
  by (simp add: teardown_def)

lemma disposed_append:
  assumes "disposed os p xs s t" and "disposed os p ys t u"
  shows "disposed os p (xs @ ys) s u"
proof -
  obtain es fs where "trace u = trace s @ (es @ fs)"
    "filter is_teardown (es @ fs) = teardown os (xs @ ys)" "opens_none (es @ fs)"
    using assms unfolding disposed_def teardown_append by auto
  then have "\<exists>es. trace u = trace s @ es \<and> filter is_teardown es = teardown os (xs @ ys) \<and>
      opens_none es" by blast
  moreover have "\<forall>q. q \<noteq> p \<longrightarrow> heap u q = (if q \<in> fst ` set (xs @ ys) then None else heap s q)"
    using assms unfolding disposed_def by (simp add: image_Un)
  moreover have "\<forall>r. proactor_at p s = Some r \<longrightarrow> (\<exists>b. proactor_at p u = Some (r\<lparr>pr_stop := b\<rparr>))"
  proof (intro allI impI)
    fix r assume "proactor_at p s = Some r"
    then obtain b where "proactor_at p t = Some (r\<lparr>pr_stop := b\<rparr>)"
      using assms(1) unfolding disposed_def by blast
    then obtain c where "proactor_at p u = Some (r\<lparr>pr_stop := b\<rparr>\<lparr>pr_stop := c\<rparr>)"
      using assms(2) unfolding disposed_def by blast
    then show "\<exists>b. proactor_at p u = Some (r\<lparr>pr_stop := b\<rparr>)" by auto
  qed
  ultimately show ?thesis unfolding disposed_def by blast
qed

lemma filter_wakes: "wakes es \<Longrightarrow> filter is_teardown es = [] \<and> opens_none es"
  by (induction es) (auto simp: wakes_def)

lemma quiet_disposed: "kq_quiet p s t \<Longrightarrow> disposed os p [] s t"
  unfolding kq_quiet_def disposed_def teardown_def using filter_wakes by fastforce

lemma emit_disposed: "\<not> is_teardown e \<Longrightarrow> opens e = [] \<Longrightarrow> disposed os p [] s (emit e s)"
  by (simp add: disposed_def teardown_def stop_same)

lemma disposed_log [simp]: "disposed os p xs (log_to f g l m s) t = disposed os p xs s t"
  by (simp add: disposed_def)

lemma disposed_at: "disposed os p xs s t \<Longrightarrow> proactor_at p s = Some r \<Longrightarrow>
    \<exists>b. proactor_at p t = Some (r\<lparr>pr_stop := b\<rparr>)"
  by (simp add: disposed_def)

lemma dispose_event_correct:
  assumes "disposed os p [] s t" and "proactor_at p t \<noteq> None"
  shows "wp (dispose_event (kq_api_app os p script) p t) (\<lambda>_ u. disposed os p [] s u)
    (\<lambda>_ _. False)"
proof -
  obtain r where r: "proactor_at p t = Some r" using assms(2) by auto
  have "disposed os p [] s u"
    if "kq_quiet p (emit (EvExt (CbProactor cb q ev st ad)) t) u" for cb q ev st ad u
    using disposed_append [OF disposed_append [OF assms(1) emit_disposed] quiet_disposed [OF that]]
    by simp
  then show ?thesis
    using assms r by (auto simp: dispose_event_def intro!: wp_mono [OF kq_api.call_quiet])
qed

lemma stop_disposed:
  assumes "proactor_at p s = Some r"
  shows "wp (proactor_net_stop os p s) (\<lambda>_ t. disposed os p [] s t) (\<lambda>_ _. False)"
  using stop_kq_quiet [OF assms, of os] by (auto elim!: wp_mono dest: quiet_disposed)

definition closed_at_end :: "proactor_t \<Rightarrow> kq_trace" where
  "closed_at_end r =
     (if fst (pr_wakeup_fds r) \<noteq> - 1
      then [EvClose (fst (pr_wakeup_fds r)), EvClose (snd (pr_wakeup_fds r))] else []) @
     [EvClose (pr_kq r)]"

lemma dispose_descriptors_correct:
  assumes "proactor_at p t = Some r"
  shows "wp (dispose_descriptors p t) (\<lambda>_ u. trace u = trace t @ closed_at_end r \<and> heap u = heap t)
    (\<lambda>_ _. False)"
  using assms by (simp add: dispose_descriptors_def sys_close_def INVALID_SOCKET_def closed_at_end_def)

lemma dispose_one:
  assumes at: "proactor_at p s \<noteq> None" and a: "a \<noteq> NULL" "heap s a = Some (Socket_Cell k)"
    and Q: "\<And>t. disposed os p [(a, k)] s t \<Longrightarrow> wp (cont t) Q X"
  shows "wp
    (and_then
      (if sk_close_cb k \<noteq> NULL
       then call_cb (kq_api_app os p script) (CbSockClose (sk_close_cb k)
              (os_socket_to_handle os (sk_sock k)) (sk_status k) (sk_sock_data k) None) s
       else Ret () s) (\<lambda>_ s.
     and_then (load_socket a s) (\<lambda>sk s.
     and_then (sys_close (sk_sock sk) s) (\<lambda>_ s.
     and_then (sys_free a s) (\<lambda>_. cont))))) Q X"
proof -
  let ?e = "EvExt (CbSockClose (sk_close_cb k) (os_socket_to_handle os (sk_sock k)) (sk_status k)
    (sk_sock_data k) None)"
  let ?es = "if sk_close_cb k \<noteq> NULL then [?e] else []"
  obtain r where r: "proactor_at p s = Some r" using at by auto
  have ap: "a \<noteq> p" using proactor_at_SomeD [OF r] a by auto
  let ?R = "\<lambda>t. (\<exists>es. trace t = trace s @ ?es @ es \<and> wakes es) \<and>
    (\<forall>q. q \<noteq> p \<longrightarrow> heap t q = heap s q) \<and> (\<exists>b. proactor_at p t = Some (r\<lparr>pr_stop := b\<rparr>))"
  have quiet: "?R t" if "kq_quiet p (emit ?e s) t" and "sk_close_cb k \<noteq> NULL" for t
    using that r by (auto simp: kq_quiet_def)
  have same: "?R s" if "sk_close_cb k = NULL"
    using that r stop_same [of r] by (simp add: wakes_def)
  have "wp (if sk_close_cb k \<noteq> NULL
       then call_cb (kq_api_app os p script) (CbSockClose (sk_close_cb k)
              (os_socket_to_handle os (sk_sock k)) (sk_status k) (sk_sock_data k) None) s
       else Ret () s) (\<lambda>_. ?R) X"
    using same quiet by (auto intro!: wp_mono [OF kq_api.call_quiet [OF at]])
  then show ?thesis
  proof (rule wp_seq)
    fix u t assume R: "?R t"
    let ?t = "(emit (EvFree a) (emit (EvClose (sk_sock k)) t))\<lparr>heap := (heap t)(a := None)\<rparr>"
    have k: "heap t a = Some (Socket_Cell k)" using R a ap by simp
    obtain es where es: "trace t = trace s @ ?es @ es" "wakes es" using R by blast
    have "trace ?t = trace s @ (?es @ es @ [EvClose (sk_sock k), EvFree a])"
      using es by simp
    moreover have "filter is_teardown (?es @ es @ [EvClose (sk_sock k), EvFree a]) =
        teardown os [(a, k)]"
      using filter_wakes [OF es(2)] by (simp add: teardown_def)
    moreover have "\<forall>q. q \<noteq> p \<longrightarrow> heap ?t q = (if q = a then None else heap s q)"
      using R by simp
    moreover have "\<exists>b. proactor_at p ?t = Some (r\<lparr>pr_stop := b\<rparr>)"
      using R ap by (auto simp: proactor_at_def split: if_splits)
    ultimately have "disposed os p [(a, k)] s ?t"
      unfolding disposed_def using r filter_wakes [OF es(2)] by auto
    from Q [OF this]
    show "wp (and_then (load_socket a t) (\<lambda>sk s. and_then (sys_close (sk_sock sk) s) (\<lambda>_ s.
        and_then (sys_free a s) (\<lambda>_. cont)))) Q X"
      using a k by (simp add: sys_close_def sys_free_def)
  qed
qed

lemma dispose_one_returns:
  assumes "proactor_at p s \<noteq> None" and "a \<noteq> NULL" "heap s a = Some (Socket_Cell k)"
  shows "\<exists>t. disposed os p [(a, k)] s t \<and>
    dispose_sockets os (kq_api_app os p script) (Suc n) a s =
      dispose_sockets os (kq_api_app os p script) n (sk_next k) t"
proof -
  let ?rest = "dispose_sockets os (kq_api_app os p script) n (sk_next k)"
  let ?steps = "\<lambda>cont. and_then
      (if sk_close_cb k \<noteq> NULL
       then call_cb (kq_api_app os p script) (CbSockClose (sk_close_cb k)
              (os_socket_to_handle os (sk_sock k)) (sk_status k) (sk_sock_data k) None) s
       else Ret () s) (\<lambda>_ s.
     and_then (load_socket a s) (\<lambda>sk s.
     and_then (sys_close (sk_sock sk) s) (\<lambda>_ s.
     and_then (sys_free a s) (\<lambda>_. cont))))"
  have run: "wp (?steps (Ret ())) (\<lambda>_ t. disposed os p [(a, k)] s t) (\<lambda>_ _. False)"
    by (rule dispose_one [OF assms]) simp
  have fuel: "?steps (Ret ()) \<noteq> Out_Of_Fuel"
    by (auto simp: and_then_eq_Fuel_iff sys_close_def sys_free_def drop_cell_def
        split: option.splits if_splits)
  from wp_total [OF run fuel]
  obtain t where t: "?steps (Ret ()) = Ret () t" "disposed os p [(a, k)] s t"
    by auto
  have "?steps ?rest = and_then (?steps (Ret ())) (\<lambda>_. ?rest)"
    unfolding and_then_assoc by simp
  then show ?thesis
    using t assms by (auto simp: Let_def)
qed

lemma dispose_sockets_correct:
  assumes "proactor_at p s \<noteq> None" and "sock_list (heap s) q xs" and "length xs < n"
  shows "\<exists>t. dispose_sockets os (kq_api_app os p script) n q s = Ret () t \<and> disposed os p xs s t"
  using assms
proof (induction xs arbitrary: q s n)
  case Nil
  then show ?case
    by (cases n) (auto simp: disposed_def teardown_def stop_same)
next
  case (Cons x xs)
  obtain a k where x: "x = (a, k)" by (cases x)
  with Cons.prems have q: "q = a" "a \<noteq> NULL" "heap s a = Some (Socket_Cell k)"
    "sock_list (heap s) (sk_next k) xs" by auto
  obtain m where n: "n = Suc m" "length xs < m" using Cons.prems(3) by (cases n) auto
  have dist: "a \<notin> fst ` set xs" using sock_list_distinct [OF Cons.prems(2)] x by simp
  obtain t where t: "disposed os p [(a, k)] s t"
    "dispose_sockets os (kq_api_app os p script) (Suc m) a s =
       dispose_sockets os (kq_api_app os p script) m (sk_next k) t"
    using dispose_one_returns [OF Cons.prems(1) q(2,3)] by blast
  have p: "p \<notin> fst ` set xs"
    using sock_list_sockets [OF q(4), of p] Cons.prems(1) proactor_at_SomeD by fastforce
  have "sock_list (heap t) (sk_next k) xs"
    using q(4)
  proof (rule sock_list_cong)
    fix b assume "b \<in> fst ` set xs"
    then have "b \<noteq> p" "b \<noteq> a" using dist p by blast+
    then show "heap t b = heap s b" using t(1) by (simp add: disposed_def)
  qed
  moreover have "proactor_at p t \<noteq> None"
    using t(1) Cons.prems(1) by (auto simp: disposed_def)
  ultimately obtain u where u:
    "dispose_sockets os (kq_api_app os p script) m (sk_next k) t = Ret () u" "disposed os p xs t u"
    using Cons.IH n(2) by blast
  have "disposed os p (x # xs) s u"
    using disposed_append [OF t(1) u(2)] x by simp
  then show ?case using t(2) u(1) q(1) n(1) by simp
qed

lemma dispose_list_correct:
  assumes "disposed os p [] s t" and "proactor_at p s = Some r"
    and "sock_list (heap s) q xs" and "length xs < n"
  shows "\<exists>u. dispose_sockets os (kq_api_app os p script) n q t = Ret () u \<and> disposed os p xs s u"
proof -
  have p: "p \<notin> fst ` set xs"
    using sock_list_sockets [OF assms(3), of p] proactor_at_SomeD [OF assms(2)] by fastforce
  have "sock_list (heap t) q xs"
    using assms(3)
  proof (rule sock_list_cong)
    fix a assume "a \<in> fst ` set xs"
    then have "a \<noteq> p" using p by blast
    then show "heap t a = heap s a" using assms(1) by (simp add: disposed_def)
  qed
  moreover have "proactor_at p t \<noteq> None" using disposed_at [OF assms(1,2)] by auto
  ultimately obtain u where "dispose_sockets os (kq_api_app os p script) n q t = Ret () u"
    "disposed os p xs t u"
    using assms(4) dispose_sockets_correct by blast
  then show ?thesis using disposed_append [OF assms(1), of xs u] by auto
qed

section \<open>Rounds that only wake and tick\<close>

text \<open>
  The kernel reports what was registered: \<open>udata\<close> and filter of an event are those of a change
  that added it.
\<close>

definition reports_registered :: "kq_os \<Rightarrow> bool" where
  "reports_registered os \<longleftrightarrow>
     (\<forall>h kq n ts evs i f u. os_kevent_wait os h kq n ts = Kq_Events evs \<longrightarrow> (i, f, u) \<in> set evs \<longrightarrow>
        (\<exists>q cs rc. EvExt (EvChange q cs rc) \<in> set h \<and> (i, f, EV_ADD, u) \<in> set cs))"

fun idle_event :: "kq_x posix_ev \<Rightarrow> bool" where
  "idle_event (EvRead fd n r) = True"
| "idle_event (EvWrite fd bs r) = True"
| "idle_event (EvExt (EvKevent kq n ts r)) = True"
| "idle_event (EvExt (CbProactor cb p ev st ad)) = True"
| "idle_event _ = False"

definition idle_step :: "ptr \<Rightarrow> kq_state \<Rightarrow> kq_state \<Rightarrow> bool" where
  "idle_step p s t \<longleftrightarrow>
     brk t = brk s \<and> (\<forall>q. q \<noteq> p \<longrightarrow> heap t q = heap s q) \<and>
     (\<exists>es. trace t = trace s @ es \<and> list_all idle_event es) \<and>
     (\<forall>r. proactor_at p s = Some r \<longrightarrow>
        (\<exists>b. proactor_at p t = Some (r\<lparr>pr_stop := b\<rparr>) \<and> (pr_stop r \<longrightarrow> b)))"

text \<open>Nothing but the wake pipe, with read end \<open>w\<close>, is registered, and there are no sockets.\<close>

definition only_wake :: "int \<Rightarrow> kq_trace \<Rightarrow> bool" where
  "only_wake w h \<longleftrightarrow>
     (\<forall>q cs rc. EvExt (EvChange q cs rc) \<in> set h \<longrightarrow> (\<forall>c \<in> set cs. c = (w, EVFILT_READ, EV_ADD, NULL)))"

definition kq_idle :: "ptr \<Rightarrow> kq_state \<Rightarrow> bool" where
  "kq_idle p s \<longleftrightarrow>
     (\<exists>r. proactor_at p s = Some r \<and> only_wake (fst (pr_wakeup_fds r)) (trace s))"

lemma wakes_idle: "wakes es \<Longrightarrow> list_all idle_event es"
  by (induction es) (auto simp: wakes_def)

lemma kq_quiet_idle: "kq_quiet p s t \<Longrightarrow> idle_step p s t"
  unfolding kq_quiet_def idle_step_def using wakes_idle by blast

lemma idle_step_refl [simp]: "idle_step p s s"
  by (rule kq_quiet_idle) simp

lemma idle_step_trans: "idle_step p s t \<Longrightarrow> idle_step p t u \<Longrightarrow> idle_step p s u"
  unfolding idle_step_def by (fastforce simp: append_assoc)

lemma idle_step_emit: "idle_event e \<Longrightarrow> idle_step p s (emit e s)"
  by (simp add: idle_step_def stop_keep)

lemma idle_step_log [simp]: "idle_step p s (log_to f g l m t) = idle_step p s t"
  by (simp add: idle_step_def)

lemma idle_step_log2 [simp]: "idle_step p (log_to f g l m s) t = idle_step p s t"
  by (simp add: idle_step_def)

lemma idle_no_change: "list_all idle_event es \<Longrightarrow> EvExt (EvChange q cs rc) \<notin> set es"
  by (auto simp: list_all_iff)

lemma kq_idle_step: "idle_step p s t \<Longrightarrow> kq_idle p s \<Longrightarrow> kq_idle p t"
  unfolding idle_step_def kq_idle_def only_wake_def using idle_no_change by fastforce

lemma kq_idle_at: "kq_idle p s \<Longrightarrow> proactor_at p s \<noteq> None"
  by (auto simp: kq_idle_def)

lemma call_idle:
  assumes "proactor_at p s \<noteq> None"
  shows "wp (call_cb (kq_api_app os p script) (CbProactor cb q ev st ad) s)
    (\<lambda>_ t. idle_step p s t) (\<lambda>_ _. False)"
proof (rule wp_mono [OF kq_api.call_quiet [OF assms]])
  fix a t assume "kq_quiet p (emit (EvExt (CbProactor cb q ev st ad)) s) t"
  then show "idle_step p s t"
    by (intro idle_step_trans [OF idle_step_emit kq_quiet_idle]) simp_all
qed

lemma tick_round_idle:
  assumes at: "proactor_at p s \<noteq> None" and null: "\<And>h. os_indeterminate os h = NULL" and "0 < n"
  shows "wp (tick_round os (kq_api_app os p script) n p s) (\<lambda>_ t. idle_step p s t) (\<lambda>_ _. False)"
proof -
  obtain r where r: "proactor_at p s = Some r" using at by auto
  obtain m where n: "n = Suc m" using \<open>0 < n\<close> by (cases n) auto
  show ?thesis
    using call_idle [OF at] by (simp add: tick_round_def r null n)
qed

lemma dispatch_idle:
  assumes "kq_os_ok os" and "proactor_at p s = Some r" and "i = fst (pr_wakeup_fds r)"
  shows "wp (kq_dispatch os app p (i, f, u) s) (\<lambda>_ t. idle_step p s t) (\<lambda>_ _. False)"
proof -
  have "posix_ok os" using assms(1) by (simp add: kq_os_ok_def)
  then show ?thesis
    using assms(2,3) posix_okD(1) [of os]
    by (auto simp: kq_dispatch_def sys_read_def Let_def split: option.split
        intro!: idle_step_trans [OF _ idle_step_emit])
qed

lemma dispatches_idle:
  assumes ok: "kq_os_ok os" "reports_registered os" and idle: "kq_idle p s"
    and r: "proactor_at p s = Some r"
    and evs: "os_kevent_wait os (trace s) kq k ts = Kq_Events evs"
  shows "wp (for_each (kq_dispatch os (kq_api_app os p script) p) evs
      (emit (EvExt (EvKevent kq k ts (Kq_Events evs))) s))
    (\<lambda>_ t. idle_step p s t) (\<lambda>_ _. False)"
proof (rule wp_for_each)
    fix e t assume e: "e \<in> set evs" and t: "idle_step p s t"
    obtain i f u where e2: "e = (i, f, u)" by (cases e)
    then obtain q cs rc where "EvExt (EvChange q cs rc) \<in> set (trace s)" "(i, f, EV_ADD, u) \<in> set cs"
      using ok(2) e evs unfolding reports_registered_def by blast
    then have i: "i = fst (pr_wakeup_fds r)" using idle r unfolding kq_idle_def only_wake_def by fastforce
    obtain b where b: "proactor_at p t = Some (r\<lparr>pr_stop := b\<rparr>)"
      using t r unfolding idle_step_def by blast
    have "wp (kq_dispatch os (kq_api_app os p script) p e t) (\<lambda>_ u. idle_step p t u) (\<lambda>_ _. False)"
      using dispatch_idle [OF ok(1) b] i e2 by simp
    then show "wp (kq_dispatch os (kq_api_app os p script) p e t)
        (\<lambda>_ u. idle_step p s u) (\<lambda>_ _. False)"
      by (rule wp_mono) (auto intro: idle_step_trans [OF t])
qed (rule idle_step_emit, simp)

lemma kq_round_idle:
  assumes ok: "kq_os_ok os" "reports_registered os" and idle: "kq_idle p s"
    and null: "\<And>h. os_indeterminate os h = NULL" and n: "0 < n"
  shows "wp (kq_round os (kq_api_app os p script) n p s) (\<lambda>_ t. idle_step p s t) (\<lambda>_ _. False)"
proof -
  obtain r where r: "proactor_at p s = Some r" using kq_idle_at [OF idle] by auto
  let ?r = "os_kevent_wait os (trace s) (pr_kq r) NUM_EVENTS (pr_tick_time_spec r)"
  let ?s = "emit (EvExt (EvKevent (pr_kq r) NUM_EVENTS (pr_tick_time_spec r) ?r)) s"
  have step: "idle_step p s ?s" by (simp add: idle_step_emit)
  have tick: "wp (tick_round os (kq_api_app os p script) n p t) (\<lambda>_ u. idle_step p s u) (\<lambda>_ _. False)"
    if t: "idle_step p s t" for t
    by (rule wp_mono [OF tick_round_idle [OF kq_idle_at [OF kq_idle_step [OF t idle]] null n]])
      (auto intro: idle_step_trans [OF t])
  have evs: "wp (for_each (kq_dispatch os (kq_api_app os p script) p) evs ?s)
      (\<lambda>_ t. idle_step p s t) (\<lambda>_ _. False)" if "?r = Kq_Events evs" for evs
    using dispatches_idle [OF ok idle r that] that by simp
  have "length evs \<le> NUM_EVENTS" if "?r = Kq_Events evs" for evs
    using ok(1) that unfolding kq_os_ok_def by blast
  then show ?thesis
    using r tick [OF step] step tick evs
    by (auto simp: kq_round_def sys_kevent_wait_def Let_def split: kq_wait.split
        elim!: wp_mono)
qed

section \<open>Stopping\<close>

text \<open>The ticks of the proactor so far, and an application that stops it on the \<open>m\<close>-th tick.\<close>

fun is_tick :: "kq_x posix_ev \<Rightarrow> bool" where
  "is_tick (EvExt (CbProactor cb q PROACTOR_EVENT_TICK st ad)) = True"
| "is_tick _ = False"

definition ticks :: "kq_trace \<Rightarrow> nat" where
  "ticks tr = length (filter is_tick tr)"

definition stops_at_tick :: "nat \<Rightarrow> (kq_trace \<Rightarrow> kq_x \<Rightarrow> kq_call list) \<Rightarrow> bool" where
  "stops_at_tick m script \<longleftrightarrow>
     (\<forall>h cb q st ad. m \<le> ticks h \<longrightarrow>
        Kq_Stop \<in> set (script h (CbProactor cb q PROACTOR_EVENT_TICK st ad)))"

lemma ticks_simps [simp]:
  "ticks [] = 0" "ticks (xs @ ys) = ticks xs + ticks ys"
  "ticks (e # es) = (if is_tick e then Suc (ticks es) else ticks es)"
  by (simp_all add: ticks_def)

lemma kq_quiet_stopped: "kq_quiet p s t \<Longrightarrow> kq_stopped p s \<Longrightarrow> kq_stopped p t"
  by (auto simp: kq_quiet_def kq_stopped_def split: option.splits)

lemma do_kq_calls_quiet:
  assumes "proactor_at p s \<noteq> None"
  shows "wp (for_each (do_kq_call os p) cs s) (\<lambda>_ t. kq_quiet p s t) (\<lambda>_ _. False)"
proof (rule wp_for_each)
  fix c t assume t: "kq_quiet p s t"
  show "wp (do_kq_call os p c t) (\<lambda>_ u. kq_quiet p s u) (\<lambda>_ _. False)"
    by (rule wp_mono [OF do_kq_call_quiet [OF kq_quiet_at [OF t assms]]])
      (auto intro: kq_quiet_trans [OF t])
qed simp

lemma do_kq_calls_stop:
  assumes at: "proactor_at p s \<noteq> None" and "Kq_Stop \<in> set cs"
  shows "wp (for_each (do_kq_call os p) cs s) (\<lambda>_ t. kq_quiet p s t \<and> kq_stopped p t)
    (\<lambda>_ _. False)"
proof -
  from assms(2) obtain xs ys where cs: "cs = xs @ Kq_Stop # ys" by (auto dest: split_list)
  show ?thesis
    unfolding cs for_each_append
  proof (rule wp_seq [OF do_kq_calls_quiet [OF at]])
    fix a t assume t: "kq_quiet p s t"
    then obtain r where r: "proactor_at p t = Some r" using kq_quiet_at [OF t at] by auto
    show "wp (for_each (do_kq_call os p) (Kq_Stop # ys) t)
        (\<lambda>_ u. kq_quiet p s u \<and> kq_stopped p u) (\<lambda>_ _. False)"
      unfolding for_each.simps do_kq_call.simps
    proof (rule wp_seq [OF stop_kq_quiet [OF r]])
      fix a u assume u: "kq_quiet p t u \<and> (\<exists>r'. proactor_at p u = Some r' \<and> pr_stop r')"
      then have "kq_stopped p u" and at: "proactor_at p u \<noteq> None"
        by (auto simp: kq_stopped_def)
      with u show "wp (for_each (do_kq_call os p) ys u)
          (\<lambda>_ v. kq_quiet p s v \<and> kq_stopped p v) (\<lambda>_ _. False)"
        by (intro wp_mono [OF do_kq_calls_quiet [OF at]])
          (auto intro: kq_quiet_trans [OF t] kq_quiet_trans kq_quiet_stopped)
    qed
  qed
qed

lemma tick_round_progress:
  assumes r: "proactor_at p s = Some r" "pr_event_cb r \<noteq> NULL"
    and null: "\<And>h. os_indeterminate os h = NULL" and "0 < n" and stops: "stops_at_tick m script"
  shows "wp (tick_round os (kq_api_app os p script) n p s)
    (\<lambda>_ t. ticks (trace s) < ticks (trace t) \<and> (m \<le> Suc (ticks (trace s)) \<longrightarrow> kq_stopped p t))
    (\<lambda>_ _. False)"
proof -
  let ?cb = "CbProactor (pr_event_cb r) p PROACTOR_EVENT_TICK STATUS_OK (pr_app_data r)"
  let ?s = "emit (EvExt ?cb) s"
  let ?cs = "script (trace ?s) ?cb"
  obtain k where n: "n = Suc k" using \<open>0 < n\<close> by (cases n) auto
  have at: "proactor_at p ?s \<noteq> None" using r by simp
  have "wp (call_cb (kq_api_app os p script) ?cb s)
      (\<lambda>_ t. kq_quiet p ?s t \<and> (m \<le> Suc (ticks (trace s)) \<longrightarrow> kq_stopped p t)) (\<lambda>_ _. False)"
  proof (cases "m \<le> Suc (ticks (trace s))")
    case True
    then have "Kq_Stop \<in> set ?cs" using stops by (simp add: stops_at_tick_def)
    from do_kq_calls_stop [OF at this, of os] show ?thesis
      unfolding call_cb_def kq_api_app_def by (rule wp_mono) auto
  next
    case False
    from do_kq_calls_quiet [OF at, of os ?cs] show ?thesis
      unfolding call_cb_def kq_api_app_def by (rule wp_mono) (use False in auto)
  qed
  then have "wp (call_cb (kq_api_app os p script) ?cb s)
      (\<lambda>_ t. ticks (trace s) < ticks (trace t) \<and> (m \<le> Suc (ticks (trace s)) \<longrightarrow> kq_stopped p t))
      (\<lambda>_ _. False)"
    by (rule wp_mono) (auto simp: kq_quiet_def)
  then show ?thesis
    using r by (simp add: tick_round_def null n)
qed

lemma idle_step_ticks: "idle_step p s t \<Longrightarrow> ticks (trace s) \<le> ticks (trace t)"
  by (auto simp: idle_step_def)

lemma kq_round_progress:
  assumes ok: "kq_os_ok os" "reports_registered os" and idle: "kq_idle p s"
    and null: "\<And>h. os_indeterminate os h = NULL" and n: "0 < n"
    and cb: "proactor_at p s = Some r" "pr_event_cb r \<noteq> NULL"
    and int: "\<And>h kq n ts. os_kevent_wait os h kq n ts \<noteq> Kq_Error EINTR"
    and stops: "stops_at_tick m script"
  shows "wp (kq_round os (kq_api_app os p script) n p s)
    (\<lambda>_ t. ticks (trace s) < ticks (trace t) \<and> (m \<le> Suc (ticks (trace s)) \<longrightarrow> kq_stopped p t))
    (\<lambda>_ _. False)"
proof -
  let ?Q = "\<lambda>t. ticks (trace s) < ticks (trace t) \<and> (m \<le> Suc (ticks (trace s)) \<longrightarrow> kq_stopped p t)"
  let ?r = "os_kevent_wait os (trace s) (pr_kq r) NUM_EVENTS (pr_tick_time_spec r)"
  let ?s = "emit (EvExt (EvKevent (pr_kq r) NUM_EVENTS (pr_tick_time_spec r) ?r)) s"
  have step: "idle_step p s ?s" by (simp add: idle_step_emit)
  have tick: "wp (tick_round os (kq_api_app os p script) n p t) (\<lambda>_. ?Q) (\<lambda>_ _. False)"
    if t: "idle_step p s t" for t
  proof -
    obtain b where "proactor_at p t = Some (r\<lparr>pr_stop := b\<rparr>)"
      using t cb(1) unfolding idle_step_def by blast
    from tick_round_progress [OF this _ null n stops] cb(2)
    have "wp (tick_round os (kq_api_app os p script) n p t)
        (\<lambda>_ u. ticks (trace t) < ticks (trace u) \<and> (m \<le> Suc (ticks (trace t)) \<longrightarrow> kq_stopped p u))
        (\<lambda>_ _. False)" by simp
    then show ?thesis
      by (rule wp_mono) (use idle_step_ticks [OF t] in auto)
  qed
  have evs: "wp (for_each (kq_dispatch os (kq_api_app os p script) p) evs ?s)
      (\<lambda>_ t. idle_step p s t) (\<lambda>_ _. False)" if "?r = Kq_Events evs" for evs
    using dispatches_idle [OF ok idle cb(1) that] that by simp
  have "length evs \<le> NUM_EVENTS" if "?r = Kq_Events evs" for evs
    using ok(1) that unfolding kq_os_ok_def by blast
  then show ?thesis
    using cb(1) tick [OF step] tick evs int
    by (auto simp: kq_round_def sys_kevent_wait_def Let_def split: kq_wait.split
        elim!: wp_mono)
qed

text \<open>A round ends, if the pointer that the tick loop starts from is null.\<close>

lemma kq_round_fuel:
  assumes "\<And>h. os_indeterminate os h = NULL" and "0 < n"
  shows "kq_round os (kq_api_app os p script) n p s \<noteq> Out_Of_Fuel"
proof -
  obtain m where n: "n = Suc m" using assms(2) by (cases n) auto
  have tick: "tick_round os (kq_api_app os p script) n p t \<noteq> Out_Of_Fuel" for t
    by (simp add: tick_round_def assms(1) n and_then_eq_Fuel_iff)
  then show ?thesis
    by (auto simp: kq_round_def sys_kevent_wait_def Let_def and_then_eq_Fuel_iff for_each_fuel
        split: kq_wait.split)
qed

section \<open>The uninitialised pointer of the tick loop\<close>

text \<open>An address below the allocated ones that does not hold a socket never will.\<close>

definition no_socket :: "ptr \<Rightarrow> kq_state \<Rightarrow> bool" where
  "no_socket q s \<longleftrightarrow> q \<le> brk s \<and> (\<forall>k. heap s q \<noteq> Some (Socket_Cell k))"

lemma no_socket_frame [simp]:
  "no_socket q (emit e s) = no_socket q s" "no_socket q (log_to f g n m s) = no_socket q s"
  by (simp_all add: no_socket_def)

lemma no_socket_new: "no_socket q s \<Longrightarrow> no_socket q (new_cell c s)"
  by (auto simp: no_socket_def)

lemma no_socket_upd:
  "no_socket q s \<Longrightarrow> (\<forall>k. c \<noteq> Socket_Cell k) \<or> (\<exists>k. heap s p = Some (Socket_Cell k)) \<Longrightarrow>
     no_socket q (s\<lparr>heap := (heap s)(p \<mapsto> c)\<rparr>)"
  by (auto simp: no_socket_def)

lemma load_socket_wild:
  assumes "no_socket q s"
  shows "\<exists>f. load_socket q s = Fault f"
  using assms
  by (auto simp: no_socket_def load_socket_def load_cell_def split: option.split kq_cell.split)

lemma fails_or_access:
  "(\<And>r. P r s) \<Longrightarrow> fails_or (load_proactor p s) P"
  "(\<And>k. Q k s) \<Longrightarrow> fails_or (load_socket p s) Q"
  "(\<And>b. R b s) \<Longrightarrow> fails_or (load_buf p s) R"
  "(\<And>c. S c s) \<Longrightarrow> fails_or (load_cell p s) S"
  by (auto simp: kq_access_defs load_cell_def split: option.split kq_cell.split)

lemma fails_or_update:
  "no_socket q s \<Longrightarrow> (\<And>t. no_socket q t \<Longrightarrow> Q () t) \<Longrightarrow> fails_or (update_proactor p f s) Q"
  "no_socket q s \<Longrightarrow> (\<And>t. no_socket q t \<Longrightarrow> Q () t) \<Longrightarrow> fails_or (update_socket p g s) Q"
  "no_socket q s \<Longrightarrow> (\<And>t. no_socket q t \<Longrightarrow> Q () t) \<Longrightarrow> fails_or (store_cell p (Buf_Cell b) s) Q"
  "no_socket q s \<Longrightarrow> (\<And>t. no_socket q t \<Longrightarrow> Q () t) \<Longrightarrow> fails_or (store_received p bs s) Q"
  by (auto simp: kq_access_defs load_cell_def store_cell_def no_socket_upd
      split: option.split kq_cell.split)

lemma do_kq_call_wild:
  assumes "no_socket q s"
  shows "fails_or (do_kq_call os p c s) (\<lambda>_. no_socket q)"
proof (cases c)
  case Kq_Stop
  then show ?thesis
    using assms by (auto simp: proactor_net_stop_def proactor_net_wake_def sys_write_def Let_def
        intro!: fails_or_access fails_or_update [OF assms])
next
  case Kq_Wake
  then show ?thesis
    using assms by (auto simp: proactor_net_wake_def sys_write_def Let_def
        intro!: fails_or_access)
next
  case Kq_Get_Status
  then show ?thesis
    using assms by (auto simp: proactor_net_get_status_def intro!: fails_or_access)
qed

lemma call_cb_wild:
  assumes "no_socket q s"
  shows "fails_or (call_cb (kq_api_app os p script) cb s) (\<lambda>_. no_socket q)"
  unfolding call_cb_def kq_api_app_def
  by (rule fails_or_for_each) (use assms do_kq_call_wild in auto)

lemma fails_or_call:
  "no_socket q s \<Longrightarrow> (\<And>t. no_socket q t \<Longrightarrow> Q () t) \<Longrightarrow>
     fails_or (call_cb (kq_api_app os p script) cb s) Q"
  using call_cb_wild [of q s os p script cb]
  by (cases "call_cb (kq_api_app os p script) cb s") auto

lemma accept_ready_wild:
  assumes "no_socket q s"
  shows "fails_or (process_accept_ready os (kq_api_app os p script) p x s) (\<lambda>_. no_socket q)"
  using assms
  by (auto simp: process_accept_ready_def Let_def sys_malloc_def sys_accept_at_def no_socket_new
      split: prod.split intro!: fails_or_access fails_or_update [of q] fails_or_call [of q])

lemma read_ready_wild:
  assumes "no_socket q s"
  shows "fails_or (process_read_ready os (kq_api_app os p script) p x s) (\<lambda>_. no_socket q)"
  using assms
  by (auto simp: process_read_ready_def Let_def sys_recvfrom_def split: option.split prod.split
      intro!: fails_or_access fails_or_update [of q] fails_or_call [of q])

lemma dispatch_wild:
  assumes "no_socket q s"
  shows "fails_or (kq_dispatch os (kq_api_app os p script) p e s) (\<lambda>_. no_socket q)"
  using assms accept_ready_wild read_ready_wild
  by (auto simp: kq_dispatch_def sys_read_def Let_def process_write_ready_def
      split: prod.split option.split intro!: fails_or_access elim!: fails_or_mono)

lemma tick_round_wild:
  assumes "no_socket q s" and "\<And>h. os_indeterminate os h = q" and "q \<noteq> NULL" and "0 < n"
  shows "fails_or (tick_round os (kq_api_app os p script) n p s) (\<lambda>_ _. False)"
proof -
  obtain m where n: "n = Suc m" using assms(4) by (cases n) auto
  have "fails_or (tick_sockets (kq_api_app os p script) p (Suc m) q t) (\<lambda>_ _. False)"
    if t: "no_socket q t" for t
  proof -
    obtain f where "load_socket q t = Fault f" using load_socket_wild [OF t] by blast
    then show ?thesis using assms(3) by simp
  qed
  then show ?thesis
    using assms(1) by (auto simp: tick_round_def assms(2) n simp del: tick_sockets.simps
        intro!: fails_or_access fails_or_call [of q])
qed

lemma kq_round_wild:
  assumes s: "no_socket q s" and ind: "\<And>h. os_indeterminate os h = q" "q \<noteq> NULL" and n: "0 < n"
    and r: "proactor_at p s = Some r"
    and int: "os_kevent_wait os (trace s) (pr_kq r) NUM_EVENTS (pr_tick_time_spec r) \<noteq>
      Kq_Error EINTR"
  shows "fails_or (kq_round os (kq_api_app os p script) n p s) (\<lambda>_ _. False)"
proof -
  let ?r = "os_kevent_wait os (trace s) (pr_kq r) NUM_EVENTS (pr_tick_time_spec r)"
  let ?s = "emit (EvExt (EvKevent (pr_kq r) NUM_EVENTS (pr_tick_time_spec r) ?r)) s"
  have tick: "fails_or (tick_round os (kq_api_app os p script) n p t) (\<lambda>_ _. False)"
    if "no_socket q t" for t
    using that ind n by (rule tick_round_wild)
  have evs: "fails_or (for_each (kq_dispatch os (kq_api_app os p script) p) evs ?s)
      (\<lambda>_ t. fails_or (tick_round os (kq_api_app os p script) n p t) (\<lambda>_ _. False))" for evs
  proof (rule fails_or_mono)
    show "fails_or (for_each (kq_dispatch os (kq_api_app os p script) p) evs ?s) (\<lambda>_. no_socket q)"
      by (rule fails_or_for_each) (use s dispatch_wild in auto)
  qed (rule tick)
  then show ?thesis
    using s r int tick evs
    by (cases ?r) (auto simp: kq_round_def sys_kevent_wait_def Let_def)
qed

end
