(* ===== verification/Kevent_Types.thy ===== *)
theory Kevent_Types
  imports Kevent_Props
begin

text \<open>
  A typing of the objects of the kqueue back end. A heap is well typed if every pointer in an
  object is null or points to an object of the declared type, a socket that can receive has a
  buffer, and the recorded length of a buffer is within its block. The run loop keeps a heap well
  typed and commits no access error on one.
\<close>

section \<open>Types of objects\<close>

fun same_kind :: "kq_cell \<Rightarrow> kq_cell \<Rightarrow> bool" where
  "same_kind (Proactor_Cell a) (Proactor_Cell b) = True"
| "same_kind (Socket_Cell a) (Socket_Cell b) = True"
| "same_kind (Buf_Cell a) (Buf_Cell b) = True"
| "same_kind (Data_Cell a) (Data_Cell b) = (length a = length b)"
| "same_kind _ _ = False"

type_synonym kq_heap = "ptr \<Rightarrow> kq_cell option"

definition socket_at :: "kq_heap \<Rightarrow> ptr \<Rightarrow> bool" where
  "socket_at h q \<longleftrightarrow> q \<noteq> NULL \<and> (case h q of Some (Socket_Cell k) \<Rightarrow> True | _ \<Rightarrow> False)"

definition buf_at :: "kq_heap \<Rightarrow> ptr \<Rightarrow> bool" where
  "buf_at h q \<longleftrightarrow> q \<noteq> NULL \<and> (case h q of Some (Buf_Cell b) \<Rightarrow> True | _ \<Rightarrow> False)"

definition block_at :: "kq_heap \<Rightarrow> ptr \<Rightarrow> nat \<Rightarrow> bool" where
  "block_at h q n \<longleftrightarrow>
     q \<noteq> NULL \<and> (case h q of Some (Data_Cell bs) \<Rightarrow> n \<le> length bs | _ \<Rightarrow> False)"

fun cell_typed :: "kq_heap \<Rightarrow> kq_cell \<Rightarrow> bool" where
  "cell_typed h (Proactor_Cell r) = (pr_sockets r = NULL \<or> socket_at h (pr_sockets r))"
| "cell_typed h (Socket_Cell k) =
     ((sk_next k = NULL \<or> socket_at h (sk_next k)) \<and>
      (sk_receive_cb k \<noteq> NULL \<longrightarrow> buf_at h (sk_buffer k)))"
| "cell_typed h (Buf_Cell b) = block_at h (pb_data b) (unat (pb_data_length b))"
| "cell_typed h (Data_Cell bs) = True"

definition heap_typed :: "kq_heap \<Rightarrow> bool" where
  "heap_typed h \<longleftrightarrow> (\<forall>q c. h q = Some c \<longrightarrow> cell_typed h c)"

text \<open>The state is well typed, \<open>p\<close> is a proactor, and the elements of \<open>S\<close> are sockets.\<close>

definition kq_typed :: "ptr \<Rightarrow> ptr set \<Rightarrow> kq_state \<Rightarrow> bool" where
  "kq_typed p S s \<longleftrightarrow>
     heap_bounded s \<and> heap_typed (heap s) \<and> proactor_at p s \<noteq> None \<and>
     (\<forall>q \<in> S. socket_at (heap s) q)"

lemma socket_at_iff: "socket_at h q \<longleftrightarrow> q \<noteq> NULL \<and> (\<exists>k. h q = Some (Socket_Cell k))"
  by (auto simp: socket_at_def split: option.split kq_cell.split)

lemma buf_at_iff: "buf_at h q \<longleftrightarrow> q \<noteq> NULL \<and> (\<exists>b. h q = Some (Buf_Cell b))"
  by (auto simp: buf_at_def split: option.split kq_cell.split)

lemma block_at_iff:
  "block_at h q n \<longleftrightarrow> q \<noteq> NULL \<and> (\<exists>bs. h q = Some (Data_Cell bs) \<and> n \<le> length bs)"
  by (auto simp: block_at_def split: option.split kq_cell.split)

lemmas at_iffs = socket_at_iff buf_at_iff block_at_iff

section \<open>Changes that keep the types\<close>

definition heap_ext :: "kq_heap \<Rightarrow> kq_heap \<Rightarrow> bool" where
  "heap_ext h h' \<longleftrightarrow> (\<forall>q c. h q = Some c \<longrightarrow> (\<exists>c'. h' q = Some c' \<and> same_kind c c'))"

lemma same_kind_refl [simp]: "same_kind c c"
  by (cases c) simp_all

lemma same_kind_cases:
  "same_kind (Socket_Cell k) c \<longleftrightarrow> (\<exists>k'. c = Socket_Cell k')"
  "same_kind (Buf_Cell b) c \<longleftrightarrow> (\<exists>b'. c = Buf_Cell b')"
  "same_kind (Data_Cell bs) c \<longleftrightarrow> (\<exists>bs'. c = Data_Cell bs' \<and> length bs = length bs')"
  "same_kind (Proactor_Cell r) c \<longleftrightarrow> (\<exists>r'. c = Proactor_Cell r')"
  by (cases c; simp)+

lemma at_ext:
  assumes "heap_ext h h'"
  shows "socket_at h q \<Longrightarrow> socket_at h' q" and "buf_at h q \<Longrightarrow> buf_at h' q"
    and "block_at h q n \<Longrightarrow> block_at h' q n"
  using assms unfolding heap_ext_def at_iffs by (fastforce simp: same_kind_cases)+

lemma cell_typed_ext: "heap_ext h h' \<Longrightarrow> cell_typed h c \<Longrightarrow> cell_typed h' c"
  by (cases c) (auto intro: at_ext)

lemma heap_typed_update:
  assumes "heap_typed h" and "h q = Some c" and "same_kind c c'" and "cell_typed h c'"
  shows "heap_typed (h(q \<mapsto> c')) \<and> heap_ext h (h(q \<mapsto> c'))"
proof -
  have ext: "heap_ext h (h(q \<mapsto> c'))"
    using assms(2,3) by (auto simp: heap_ext_def)
  then show ?thesis
    using assms(1,4) cell_typed_ext [OF ext] by (auto simp: heap_typed_def)
qed

lemma heap_typed_new:
  assumes "heap_typed h" and "h q = None" and "cell_typed h c"
  shows "heap_typed (h(q \<mapsto> c)) \<and> heap_ext h (h(q \<mapsto> c))"
proof -
  have ext: "heap_ext h (h(q \<mapsto> c))"
    using assms(2) by (auto simp: heap_ext_def)
  then show ?thesis
    using assms(1,3) cell_typed_ext [OF ext] by (auto simp: heap_typed_def)
qed

lemma proactor_at_ext:
  "proactor_at p s \<noteq> None \<Longrightarrow> heap_ext (heap s) (heap t) \<Longrightarrow> proactor_at p t \<noteq> None"
  by (fastforce simp: heap_ext_def same_kind_cases proactor_at_def dest: proactor_at_SomeD)

lemma kq_typed_frame [simp]:
  "kq_typed p S (emit e s) = kq_typed p S s"
  "kq_typed p S (log_to f g n m s) = kq_typed p S s"
  by (simp_all add: kq_typed_def heap_bounded_def)

lemma kq_typed_subset: "kq_typed p S s \<Longrightarrow> T \<subseteq> S \<Longrightarrow> kq_typed p T s"
  by (auto simp: kq_typed_def)

lemma kq_typed_cell: "kq_typed p S s \<Longrightarrow> heap s q = Some c \<Longrightarrow> cell_typed (heap s) c"
  by (simp add: kq_typed_def heap_typed_def)

lemma kq_typed_update:
  assumes "kq_typed p S s" and "heap s q = Some c" and "same_kind c c'"
    and "cell_typed (heap s) c'"
  shows "kq_typed p S (s\<lparr>heap := (heap s)(q \<mapsto> c')\<rparr>)"
proof -
  from assms have "heap_typed ((heap s)(q \<mapsto> c')) \<and> heap_ext (heap s) ((heap s)(q \<mapsto> c'))"
    by (intro heap_typed_update) (simp_all add: kq_typed_def)
  then show ?thesis
    using assms(1,2) proactor_at_ext [of p s "s\<lparr>heap := (heap s)(q \<mapsto> c')\<rparr>"]
    by (auto simp: kq_typed_def heap_bounded_def intro: at_ext)
qed

lemma kq_typed_new:
  assumes "kq_typed p S s" and "cell_typed (heap s) (Socket_Cell k)"
  shows "kq_typed p (insert (Suc (brk s)) S) (new_cell (Socket_Cell k) s)"
proof -
  let ?s = "new_cell (Socket_Cell k) s"
  have "heap s (Suc (brk s)) = None"
    using assms(1) heap_bounded_fresh by (auto simp: kq_typed_def)
  with assms have "heap_typed (heap ?s) \<and> heap_ext (heap s) (heap ?s)"
    using heap_typed_new [of "heap s" "Suc (brk s)" "Socket_Cell k"] by (simp add: kq_typed_def)
  then show ?thesis
    using assms(1) proactor_at_ext [of p s ?s]
    by (auto simp: kq_typed_def heap_bounded_new_cell socket_at_iff intro: at_ext)
qed

lemma kq_typed_quiet:
  assumes "kq_typed p S s" and "kq_quiet p s t"
  shows "kq_typed p S t"
proof -
  obtain r where r: "proactor_at p s = Some r" using assms(1) by (auto simp: kq_typed_def)
  then obtain b where b: "proactor_at p t = Some (r\<lparr>pr_stop := b\<rparr>)"
    using assms(2) unfolding kq_quiet_def by blast
  have "heap t = (heap s)(p \<mapsto> Proactor_Cell (r\<lparr>pr_stop := b\<rparr>))"
    using assms(2) proactor_at_SomeD [OF b] by (auto simp: kq_quiet_def fun_eq_iff)
  moreover have "kq_typed p S (s\<lparr>heap := (heap s)(p \<mapsto> Proactor_Cell (r\<lparr>pr_stop := b\<rparr>))\<rparr>)"
    using proactor_at_SomeD [OF r] kq_typed_cell [OF assms(1)]
    by (intro kq_typed_update [OF assms(1), of p "Proactor_Cell r"]) force+
  moreover have "brk t = brk s" using assms(2) by (simp add: kq_quiet_def)
  ultimately show ?thesis
    using b by (simp add: kq_typed_def heap_bounded_def)
qed

section \<open>Accesses to a well-typed state\<close>

lemma typed_proactor:
  assumes "kq_typed p S s"
  obtains r where "proactor_at p s = Some r" "p \<noteq> NULL" "heap s p = Some (Proactor_Cell r)"
  using assms proactor_at_SomeD by (fastforce simp: kq_typed_def)

lemma typed_socket:
  assumes "kq_typed p S s" and "q \<in> S"
  obtains k where "q \<noteq> NULL" "heap s q = Some (Socket_Cell k)"
  using assms by (auto simp: kq_typed_def socket_at_iff)

lemma wp_load_proactor:
  "kq_typed p S s \<Longrightarrow> (\<And>r. wp (f r s) Q X) \<Longrightarrow> wp (and_then (load_proactor p s) f) Q X"
  by (erule typed_proactor) simp

lemma wp_load_socket:
  assumes "kq_typed p S s" and "q \<in> S"
    and "\<And>k. heap s q = Some (Socket_Cell k) \<Longrightarrow> wp (f k s) Q X"
  shows "wp (and_then (load_socket q s) f) Q X"
  by (rule typed_socket [OF assms(1,2)]) (simp add: assms(3))

lemma wp_update_socket:
  assumes "kq_typed p S s" and "q \<in> S"
    and "\<And>k. sk_next (g k) = sk_next k \<and> sk_buffer (g k) = sk_buffer k \<and>
      sk_receive_cb (g k) = sk_receive_cb k"
    and "\<And>t. kq_typed p S t \<Longrightarrow> wp (f () t) Q X"
  shows "wp (and_then (update_socket q g s) f) Q X"
proof -
  obtain k where q: "q \<noteq> NULL" "heap s q = Some (Socket_Cell k)"
    using typed_socket [OF assms(1,2)] .
  have "kq_typed p S (s\<lparr>heap := (heap s)(q \<mapsto> Socket_Cell (g k))\<rparr>)"
    using kq_typed_cell [OF assms(1) q(2)] assms(3)
    by (intro kq_typed_update [OF assms(1) q(2)]) simp_all
  then show ?thesis
    using assms(4) q by (simp add: update_socket_def)
qed

lemma wp_call_typed:
  assumes "kq_typed p S s" and "\<And>t. kq_typed p S t \<Longrightarrow> wp (f () t) Q (\<lambda>_ _. False)"
  shows "wp (and_then (call_cb (kq_api_app os p script) cb s) f) Q (\<lambda>_ _. False)"
proof -
  have "proactor_at p s \<noteq> None" using assms(1) by (simp add: kq_typed_def)
  from kq_api.call_quiet [OF this] show ?thesis
  proof (rule wp_seq)
    fix a t assume "kq_quiet p (emit (EvExt cb) s) t"
    then have "kq_typed p S t" using kq_typed_quiet [of p S "emit (EvExt cb) s" t] assms(1) by simp
    then show "wp (f a t) Q (\<lambda>_ _. False)" using assms(2) by simp
  qed
qed

section \<open>The operations keep a state well typed\<close>

lemmas wp_typed = wp_load_proactor wp_load_socket wp_update_socket wp_call_typed

lemma read_ready_typed:
  assumes ok: "kq_os_ok os" and typed: "kq_typed p S s" and q: "q \<in> S"
  shows "wp (process_read_ready os (kq_api_app os p script) p q s) (\<lambda>_ t. kq_typed p S t)
    (\<lambda>_ _. False)"
proof -
  obtain k where k: "q \<noteq> NULL" "heap s q = Some (Socket_Cell k)"
    using typed_socket [OF typed q] .
  show ?thesis
  proof (cases "sk_receive_cb k = NULL")
    case True
    then show ?thesis
      using k typed by (simp add: process_read_ready_def Let_def)
  next
    case False
    then obtain b where b: "sk_buffer k \<noteq> NULL" "heap s (sk_buffer k) = Some (Buf_Cell b)"
      using kq_typed_cell [OF typed k(2)] by (auto simp: buf_at_iff)
    then obtain old where d: "pb_data b \<noteq> NULL" "heap s (pb_data b) = Some (Data_Cell old)"
      "unat (pb_data_length b) \<le> length old"
      using kq_typed_cell [OF typed b(2)] by (auto simp: block_at_iff)
    let ?n = "unat (pb_data_length b)"
    let ?r = "os_recvfrom os (trace s) (sk_sock k) ?n"
    let ?s1 = "emit (EvExt (EvRecvfrom (sk_sock k) ?n ?r))
      (log_to info ''process_read_ready'' 381 ''Starting.'' s)"
    have ne: "sk_buffer k \<noteq> q" "pb_data b \<noteq> q" "pb_data b \<noteq> sk_buffer k"
      using k b d by auto
    note defs = process_read_ready_def load_buf_def sys_recvfrom_def store_received_def
      update_socket_def Let_def
    obtain pr where pr: "proactor_at p s = Some pr" "p \<noteq> NULL" "heap s p = Some (Proactor_Cell pr)"
      by (rule typed_proactor [OF typed])
    then have np: "p \<noteq> q" "p \<noteq> sk_buffer k" "p \<noteq> pb_data b"
      using k b d by auto
    have typed1: "kq_typed p S ?s1" using typed by simp
    show ?thesis
    proof (cases ?r)
      case None
      then show ?thesis using k b False typed by (simp add: defs)
    next
      case (Some ba)
      obtain bs addr where r: "?r = Some (bs, addr)" using Some by (cases ba) auto
      then have len: "length bs \<le> ?n" using ok unfolding kq_os_ok_def by blast
      let ?k = "k\<lparr>sk_remote_addr := addr\<rparr>"
      let ?d = "Data_Cell (bs @ drop (length bs) old)"
      let ?b = "Buf_Cell (b\<lparr>pb_data_length := of_nat (length bs)\<rparr>)"
      show ?thesis
      proof (cases "bs = []")
        case True
        let ?s2 = "?s1\<lparr>heap := (heap ?s1)(q \<mapsto> Socket_Cell ?k)\<rparr>"
        have "kq_typed p S ?s2"
          using kq_typed_cell [OF typed k(2)] k
          by (intro kq_typed_update [OF typed1, of q "Socket_Cell k"]) simp_all
        from wp_call_typed [OF this, of "\<lambda>_. Ret ()" "\<lambda>_ t. kq_typed p S t"] show ?thesis
          using k b r True False pr np typed typed1 \<open>kq_typed p S ?s2\<close>
          by (simp add: defs proactor_at_def)
      next
        case ne_bs: False
        let ?s2 = "?s1\<lparr>heap := (heap ?s1)(pb_data b \<mapsto> ?d)\<rparr>"
        let ?s3 = "?s2\<lparr>heap := (heap ?s2)(q \<mapsto> Socket_Cell ?k)\<rparr>"
        let ?s4 = "?s3\<lparr>heap := (heap ?s3)(sk_buffer k \<mapsto> ?b)\<rparr>"
        have n2: "unat (of_nat (length bs) :: size_t) \<le> length old"
          using len d(3) by (simp add: unat_of_nat)
        have typed2: "kq_typed p S ?s2"
          using d len by (intro kq_typed_update [OF typed1, of "pb_data b" "Data_Cell old"]) simp_all
        have k2: "heap ?s2 q = Some (Socket_Cell k)" using k ne by simp
        have typed3: "kq_typed p S ?s3"
          using kq_typed_cell [OF typed2 k2] k2
          by (intro kq_typed_update [OF typed2, of q "Socket_Cell k"]) simp_all
        have "block_at (heap ?s3) (pb_data b) (unat (of_nat (length bs) :: size_t))"
          using d ne n2 len by (simp add: block_at_iff)
        then have typed4: "kq_typed p S ?s4"
          using b ne by (intro kq_typed_update [OF typed3, of "sk_buffer k" "Buf_Cell b"]) simp_all
        from wp_call_typed [OF this, of "\<lambda>_. Ret ()" "\<lambda>_ t. kq_typed p S t"] show ?thesis
          using k b d ne r ne_bs False pr np len typed4 by (simp add: defs proactor_at_def)
      qed
    qed
  qed
qed

lemma accept_ready_typed:
  assumes efault: "accept_efault os" and typed: "kq_typed p S s" and q: "q \<in> S"
  shows "wp (process_accept_ready os (kq_api_app os p script) p q s) (\<lambda>_ t. kq_typed p S t)
    (\<lambda>_ _. False)"
proof -
  let ?Q = "\<lambda>_ t. kq_typed p S t" and ?X = "\<lambda>_ _. False"
  let ?s = "log_to info ''process_accept_ready'' 332 ''Starting.'' s"
  let ?c = "Suc (brk s)"
  let ?t = "emit (EvMalloc sizeof_proactor_socket_t ?c) (new_cell (Socket_Cell zero_socket) ?s)"
  let ?S = "insert ?c S"
  obtain k where k: "q \<noteq> NULL" "heap s q = Some (Socket_Cell k)"
    using typed_socket [OF typed q] .
  have new: "kq_typed p ?S ?t"
    using kq_typed_new [of p S ?s zero_socket] typed by (simp add: zero_socket_def)
  have sub: "kq_typed p S u" if "kq_typed p ?S u" for u
    using that by (rule kq_typed_subset) auto
  have q': "q \<in> ?S" and c: "?c \<in> ?S" using q by auto
  show ?thesis
  proof (cases "sk_accept_cb k = NULL \<or> \<not> os_malloc os (trace s) sizeof_proactor_socket_t")
    case True
    then show ?thesis
      using k typed by (auto simp: process_accept_ready_def Let_def sys_malloc_def)
  next
    case False
    have call: "wp (and_then (call_cb (kq_api_app os p script) cb u)
        (\<lambda>_ s. Ret rc (log_to info f n m s))) ?Q ?X" if "kq_typed p ?S u" for cb u rc f n m
      using that sub by (intro wp_call_typed [of p ?S]) simp_all
    have load: "wp (and_then (load_socket q u) (\<lambda>ls s.
        and_then (load_proactor p s) (\<lambda>pr s.
        and_then (call_cb (kq_api_app os p script) (cb ls pr) s)
          (\<lambda>_ s. Ret rc (log_to info f n m s))))) ?Q ?X"
      if "kq_typed p ?S u" for cb u rc f n m
      by (rule wp_load_socket [OF that q'], rule wp_load_proactor [OF that], rule call [OF that])
    show ?thesis
      using False k
      apply (simp add: process_accept_ready_def Let_def sys_malloc_def del: wp_and_then)
      apply (rule wp_update_socket [OF new c], simp)
      apply (rule wp_load_socket [OF _ q'], assumption)
      apply (simp add: accept_fails [OF efault] del: wp_and_then)
      apply (rule wp_update_socket [of p ?S, OF _ c], simp, simp)
      apply (simp add: load del: wp_and_then)
      done
  qed
qed

section \<open>The run loop keeps a state well typed\<close>

text \<open>
  The kernel hands back the pointers it was given, here null or an element of \<open>S\<close>; so is the value
  of the uninitialised pointer that the loop over the sockets starts from.
\<close>

definition udata_in :: "ptr set \<Rightarrow> kq_os \<Rightarrow> bool" where
  "udata_in S os \<longleftrightarrow>
     (\<forall>h kq n ts evs i f u. os_kevent_wait os h kq n ts = Kq_Events evs \<longrightarrow> (i, f, u) \<in> set evs \<longrightarrow>
        u \<in> insert NULL S)"

definition indeterminate_in :: "ptr set \<Rightarrow> kq_os \<Rightarrow> bool" where
  "indeterminate_in S os \<longleftrightarrow> (\<forall>h. os_indeterminate os h \<in> insert NULL S)"

lemma dispatch_typed:
  assumes ok: "kq_os_ok os" "accept_efault os" and typed: "kq_typed p S s" and u: "u \<in> insert NULL S"
  shows "wp (kq_dispatch os (kq_api_app os p script) p (i, f, u) s) (\<lambda>_ t. kq_typed p S t)
    (\<lambda>_ _. False)"
proof -
  obtain pr where pr: "proactor_at p s = Some pr" by (rule typed_proactor [OF typed])
  have len: "length bs \<le> 1" if "os_read os h fd 1 = Some bs" for h fd bs
    using ok(1) posix_okD(1) that unfolding kq_os_ok_def by blast
  show ?thesis
  proof (cases "f = EVFILT_READ \<and> u \<noteq> NULL")
    case True
    then have "u \<in> S" using u by simp
    moreover obtain k where "heap s u = Some (Socket_Cell k)"
      using typed_socket [OF typed \<open>u \<in> S\<close>] .
    ultimately show ?thesis
      using True pr typed len accept_ready_typed [OF ok(2) typed, of u script]
        read_ready_typed [OF ok(1) typed, of u script]
      by (auto simp: kq_dispatch_def sys_read_def Let_def process_write_ready_def
          split: option.split)
  next
    case False
    then show ?thesis
      using pr typed len
      by (auto simp: kq_dispatch_def sys_read_def Let_def process_write_ready_def
          split: option.split)
  qed
qed

lemma tick_sockets_typed:
  assumes "kq_typed p S s" and "q = NULL \<or> socket_at (heap s) q"
  shows "wp (tick_sockets (kq_api_app os p script) p n q s) (\<lambda>_ t. kq_typed p S t) (\<lambda>_ _. False)"
  using assms
proof (induction n arbitrary: q s)
  case 0
  show ?case by simp
next
  case (Suc n)
  let ?app = "kq_api_app os p script"
  show ?case
  proof (cases "q = NULL")
    case True
    then show ?thesis using Suc.prems by simp
  next
    case False
    let ?S = "insert q S"
    have typed: "kq_typed p ?S s" and q: "q \<in> ?S"
      using Suc.prems False by (auto simp: kq_typed_def)
    obtain k where k: "heap s q = Some (Socket_Cell k)"
      using typed_socket [OF typed q] .
    have next_typed: "wp (and_then (load_socket q t) (\<lambda>sk. tick_sockets ?app p n (sk_next sk)))
        (\<lambda>_ u. kq_typed p S u) (\<lambda>_ _. False)" if t: "kq_typed p ?S t" for t
    proof (rule wp_load_socket [OF t q])
      fix k' assume "heap t q = Some (Socket_Cell k')"
      then have "sk_next k' = NULL \<or> socket_at (heap t) (sk_next k')"
        using kq_typed_cell [OF t] by fastforce
      moreover have "kq_typed p S t" using t by (rule kq_typed_subset) auto
      ultimately show "wp (tick_sockets ?app p n (sk_next k') t) (\<lambda>_ u. kq_typed p S u)
          (\<lambda>_ _. False)"
        by (intro Suc.IH)
    qed
    have call: "wp (and_then (call_cb ?app cb s) (\<lambda>_ s.
        and_then (load_socket q s) (\<lambda>sk. tick_sockets ?app p n (sk_next sk))))
        (\<lambda>_ u. kq_typed p S u) (\<lambda>_ _. False)" for cb
      by (rule wp_call_typed [OF typed next_typed])
    obtain pr where pr: "proactor_at p s = Some pr" by (rule typed_proactor [OF typed])
    show ?thesis
      using False k pr call next_typed [OF typed] by simp
  qed
qed

lemma tick_round_typed:
  assumes typed: "kq_typed p S s" and ind: "indeterminate_in S os"
  shows "wp (tick_round os (kq_api_app os p script) n p s) (\<lambda>_ t. kq_typed p S t) (\<lambda>_ _. False)"
proof -
  have tick: "wp (tick_sockets (kq_api_app os p script) p n (os_indeterminate os (trace t)) t)
      (\<lambda>_ u. kq_typed p S u) (\<lambda>_ _. False)" if "kq_typed p S t" for t
    using that ind by (intro tick_sockets_typed) (auto simp: indeterminate_in_def kq_typed_def)
  have "wp (and_then (call_cb (kq_api_app os p script) cb s)
      (\<lambda>_ s. tick_sockets (kq_api_app os p script) p n (os_indeterminate os (trace s)) s))
      (\<lambda>_ u. kq_typed p S u) (\<lambda>_ _. False)" for cb
    by (rule wp_call_typed [OF typed tick])
  moreover obtain pr where "proactor_at p s = Some pr" by (rule typed_proactor [OF typed])
  ultimately show ?thesis
    using tick [OF typed] by (simp add: tick_round_def)
qed

lemma kq_round_typed:
  assumes ok: "kq_os_ok os" "accept_efault os" and typed: "kq_typed p S s" and ud: "udata_in S os"
    and ind: "indeterminate_in S os"
  shows "wp (kq_round os (kq_api_app os p script) n p s) (\<lambda>_ t. kq_typed p S t) (\<lambda>_ _. False)"
proof -
  obtain r where r: "proactor_at p s = Some r" by (rule typed_proactor [OF typed])
  let ?r = "os_kevent_wait os (trace s) (pr_kq r) NUM_EVENTS (pr_tick_time_spec r)"
  let ?s = "emit (EvExt (EvKevent (pr_kq r) NUM_EVENTS (pr_tick_time_spec r) ?r)) s"
  have evs: "wp (for_each (kq_dispatch os (kq_api_app os p script) p) evs ?s)
      (\<lambda>_ t. kq_typed p S t) (\<lambda>_ _. False)" if evs: "?r = Kq_Events evs" for evs
  proof (rule wp_for_each)
    fix e t assume e: "e \<in> set evs" and t: "kq_typed p S t"
    obtain i f u where ifu: "e = (i, f, u)" by (cases e)
    then have "u \<in> insert NULL S" using ud e evs unfolding udata_in_def by blast
    then show "wp (kq_dispatch os (kq_api_app os p script) p e t) (\<lambda>_ t. kq_typed p S t)
        (\<lambda>_ _. False)"
      unfolding ifu by (rule dispatch_typed [OF ok t])
  qed (use typed in simp)
  have "length evs \<le> NUM_EVENTS" if "?r = Kq_Events evs" for evs
    using ok(1) that unfolding kq_os_ok_def by blast
  then show ?thesis
    using r typed tick_round_typed [OF _ ind] evs
    by (auto simp: kq_round_def sys_kevent_wait_def Let_def split: kq_wait.split elim!: wp_mono)
qed

lemma kq_loop_typed:
  assumes "kq_os_ok os" and "accept_efault os" and "kq_typed p S s" and "udata_in S os"
    and "indeterminate_in S os"
  shows "wp (kq_loop os (kq_api_app os p script) n p k s)
    (\<lambda>_ t. kq_typed p S t \<and> kq_stopped p t) (\<lambda>_ _. False)"
  using kq_round_typed [OF assms(1,2) _ assms(4,5)] assms(3)
  by (intro kq_run_loop.run_invariant) auto

end
