(* ===== verification/Kevent_Theorems.thy ===== *)
theory Kevent_Theorems
  imports Kevent_Types
begin

text \<open>The properties of the kqueue back end, with a small concrete system to exercise them on.\<close>

section \<open>Creation\<close>

text \<open>
  Claim C22. Creating a proactor: it never ends the process; without memory it returns the null
  pointer and allocates nothing; otherwise it returns a fresh proactor that is not stopped, has
  no sockets and the given callback, data and period, and whose status is \<open>STATUS_OK\<close> exactly if
  kernel queue and pipe were opened and the read end of the pipe is watched, and
  \<open>STATUS_INTERNAL_FAILURE\<close> otherwise.
\<close>

theorem kq_create_correct:
  "wp (proactor_net_create os cb sd ad ms s)
    (\<lambda>p t. if os_malloc os (trace s) sizeof_proactor_t
       then p = Suc (brk s) \<and>
         heap t = (heap s)(p := heap t p) \<and>
         (\<exists>r. proactor_at p t = Some r \<and> \<not> pr_stop r \<and> pr_sockets r = NULL \<and>
            pr_event_cb r = cb \<and> pr_app_data r = ad \<and> pr_tick_time_spec r = tick_time_spec ms \<and>
            pr_status r \<in> {STATUS_OK, STATUS_INTERNAL_FAILURE} \<and>
            (pr_status r = STATUS_OK \<longleftrightarrow> pr_kq r \<noteq> - 1 \<and>
               (\<exists>es fds rc. trace t = trace s @ es \<and> rc \<noteq> - 1 \<and> pr_wakeup_fds r = fds \<and>
                  EvPipe (Some fds) \<in> set es \<and>
                  EvExt (EvChange (pr_kq r) [(fst fds, EVFILT_READ, EV_ADD, NULL)] rc) \<in> set es)))
       else p = NULL \<and> heap t = heap s)
    (\<lambda>_ _. False)"
  by (simp add: proactor_net_create_def create_steps_def sys_malloc_def kq_access_defs kq_sys_defs
      zero_proactor_def proactor_at_def split: option.split)

text \<open>
  The tick period: seconds and nanoseconds add up to exactly the requested number of
  milliseconds, for every 64-bit period, and the nanoseconds are below one second.
\<close>

theorem kq_tick_period_exact:
  "uint (ts_sec (tick_time_spec ms)) * 1000000000 + uint (ts_nsec (tick_time_spec ms)) =
     uint ms * 1000000 \<and>
   uint (ts_nsec (tick_time_spec ms)) < 1000000000"
proof -
  have "uint (ms mod 1000) = uint ms mod 1000" "uint (ms div 1000) = uint ms div 1000"
    by (simp_all add: uint_mod uint_div)
  moreover have "uint ((ms mod 1000) * 1000000) = uint (ms mod 1000) * 1000000"
  proof -
    have "uint (ms mod 1000) * uint (1000000 :: u64) < 2 ^ 64"
      by (simp add: uint_mod)
    then show ?thesis by (simp add: uint_word_ariths)
  qed
  ultimately show ?thesis
    by (simp add: tick_time_spec_def) presburger
qed

section \<open>A concrete system\<close>

text \<open>
  Queue 3, wake pipe 4 and 5; \<open>recvfrom\<close> delivers one byte; \<open>accept\<close> rejects an address that is
  not valid; \<open>kevent\<close> reports the wake pipe. The application stops the loop at the first tick.
\<close>

definition kq_demo_os :: kq_os where
  "kq_demo_os = \<lparr>
     os_read = (\<lambda>h fd n. Some (take n [1])),
     os_write = (\<lambda>h fd bs. int (length bs)),
     os_pipe = (\<lambda>h. Some (4, 5)),
     os_socket = (\<lambda>h. 6),
     os_bind = (\<lambda>h fd a. 0),
     os_listen = (\<lambda>h fd n. 0),
     os_connect = (\<lambda>h fd a. 0),
     os_accept = (\<lambda>h fd. 7),
     os_inet_pton = (\<lambda>a. Some 0x7F000001),
     os_malloc = (\<lambda>h n. True),
     os_kqueue = (\<lambda>h. 3),
     os_kevent_change = (\<lambda>h kq cs. 0),
     os_kevent_wait = (\<lambda>h kq n ts.
       if \<exists>e \<in> set h. e = EvExt (EvChange 3 [(4, EVFILT_READ, EV_ADD, NULL)] 0)
       then Kq_Events (take n [(4, EVFILT_READ, NULL)]) else Kq_Events []),
     os_recvfrom = (\<lambda>h fd n. Some (take n [42], [])),
     os_accept_at = (\<lambda>h fd q. (- 1, [])),
     os_indeterminate = (\<lambda>h. NULL),
     os_socket_to_handle = (\<lambda>fd. 100 + nat fd)\<rparr>"

definition kq_demo_script :: "kq_trace \<Rightarrow> kq_x \<Rightarrow> kq_call list" where
  "kq_demo_script h cb =
     (case cb of CbProactor _ _ PROACTOR_EVENT_TICK _ _ \<Rightarrow> [Kq_Stop] | _ \<Rightarrow> [])"

definition demo_proactor :: proactor_t where
  "demo_proactor = zero_proactor\<lparr>pr_kq := 3, pr_wakeup_fds := (4, 5), pr_event_cb := 500,
     pr_sockets := 2\<rparr>"

definition demo_client :: proactor_socket_t where
  "demo_client = zero_socket\<lparr>sk_sock := 8, sk_socket_type := PROACTOR_SOCK_TCP_CLIENT,
     sk_buffer := 3, sk_receive_cb := 600, sk_close_cb := 601\<rparr>"

definition demo_listener :: proactor_socket_t where
  "demo_listener = zero_socket\<lparr>sk_sock := 9, sk_accept_cb := 602\<rparr>"

text \<open>A proactor with the sockets 2 and 5; socket 2 has a buffer of four bytes.\<close>

definition demo_kq_state :: kq_state where
  "demo_kq_state = \<lparr>trace = [],
     heap = [1 \<mapsto> Proactor_Cell demo_proactor,
             2 \<mapsto> Socket_Cell (demo_client\<lparr>sk_next := 5\<rparr>),
             3 \<mapsto> Buf_Cell \<lparr>pb_data = 4, pb_data_length = 4\<rparr>,
             4 \<mapsto> Data_Cell [0, 0, 0, 0],
             5 \<mapsto> Socket_Cell demo_listener],
     brk = 5, kq_log = debug_initial\<rparr>"

lemma kq_demo_ok: "kq_os_ok kq_demo_os" "reports_registered kq_demo_os" "accept_efault kq_demo_os"
proof -
  show "accept_efault kq_demo_os"
    by (simp add: accept_efault_def kq_demo_os_def)
  show "kq_os_ok kq_demo_os"
    by (auto simp: kq_os_ok_def posix_ok_def kq_demo_os_def)
  show "reports_registered kq_demo_os"
    unfolding reports_registered_def
  proof (intro allI impI)
    fix h kq n ts evs i f u
    assume "os_kevent_wait kq_demo_os h kq n ts = Kq_Events evs" and "(i, f, u) \<in> set evs"
    then have "EvExt (EvChange 3 [(4, EVFILT_READ, EV_ADD, NULL)] 0) \<in> set h"
      "(i, f, u) = (4, EVFILT_READ, NULL)"
      by (cases n; auto simp: kq_demo_os_def split: if_splits)+
    then show "\<exists>q cs rc. EvExt (EvChange q cs rc) \<in> set h \<and> (i, f, EV_ADD, u) \<in> set cs"
      by force
  qed
qed

lemma demo_kq_at: "proactor_at 1 demo_kq_state = Some demo_proactor"
  by (simp add: proactor_at_def demo_kq_state_def)

lemma demo_kq_list:
  "sock_list (heap demo_kq_state) 2 [(2, demo_client\<lparr>sk_next := 5\<rparr>), (5, demo_listener)]"
  by (simp add: demo_kq_state_def demo_listener_def zero_socket_def demo_client_def)

section \<open>Sockets\<close>

text \<open>What each read asks for and gets: \<open>n\<close> is the length of the last chunk.\<close>

fun shrinks :: "nat \<Rightarrow> (nat \<times> nat) list \<Rightarrow> bool" where
  "shrinks n [] = True"
| "shrinks n ((asked, got) # xs) =
     (asked = n \<and> got \<le> n \<and> shrinks (if got = 0 then n else got) xs)"

text \<open>
  Claim C15. The receive buffer only shrinks: each read asks for as many bytes as the last chunk
  had (the first one for the length of the buffer), so that after a chunk of one byte every later
  read is for one byte, however large the block is. No read touches memory outside of the block.
\<close>

theorem kq_reads_shrink:
  assumes "kq_os_ok os" and "read_shape p sock n s"
  shows "wp (for_each (\<lambda>_ s. and_then
      (process_read_ready os (kq_api_app os p script) p sock s) (\<lambda>_. Ret ())) (replicate k ()) s)
    (\<lambda>_ t. \<exists>es. trace t = trace s @ es \<and> length (recv_log es) = k \<and> shrinks n (recv_log es))
    (\<lambda>_ _. False)"
  using assms(2)
proof (induction k arbitrary: n s)
  case 0
  then show ?case by simp
next
  case (Suc k)
  have step: "wp (and_then (process_read_ready os (kq_api_app os p script) p sock s) (\<lambda>_. Ret ()))
      (\<lambda>_ t. read_post p sock n s t) (\<lambda>_ _. False)"
    using read_ready_step [OF assms(1) Suc.prems, of script] by (auto elim: wp_mono)
  show ?case
    unfolding replicate_Suc for_each.simps
  proof (rule wp_seq [OF step])
    fix a t assume "read_post p sock n s t"
    then obtain es got where t: "trace t = trace s @ es" "recv_log es = [(n, got)]" "got \<le> n"
      "read_shape p sock (if got = 0 then n else got) t"
      unfolding read_post_def by blast
    show "wp (for_each (\<lambda>_ s. and_then
        (process_read_ready os (kq_api_app os p script) p sock s) (\<lambda>_. Ret ())) (replicate k ()) t)
      (\<lambda>_ u. \<exists>es. trace u = trace s @ es \<and> length (recv_log es) = Suc k \<and> shrinks n (recv_log es))
      (\<lambda>_ _. False)"
      by (rule wp_mono [OF Suc.IH [OF t(4)]]) (use t(1-3) in force)+
  qed
qed

theorem kq_reads_shrink_witness:
  "wp (for_each (\<lambda>_ s. and_then
      (process_read_ready kq_demo_os (kq_api_app kq_demo_os 1 kq_demo_script) 1 2 s)
        (\<lambda>_. Ret ())) (replicate 3 ()) demo_kq_state)
    (\<lambda>_ t. \<exists>es. trace t = trace demo_kq_state @ es \<and> length (recv_log es) = 3 \<and>
       shrinks 4 (recv_log es)) (\<lambda>_ _. False)"
proof (rule kq_reads_shrink [OF kq_demo_ok(1)])
  show "read_shape 1 2 4 demo_kq_state"
    unfolding read_shape_def
    by (intro exI [of _ demo_proactor] exI [of _ "demo_client\<lparr>sk_next := 5\<rparr>"])
      (simp add: demo_kq_state_def proactor_at_def demo_client_def)
qed

text \<open>The state after the disposal of a proactor \<open>r\<close> with the sockets \<open>xs\<close>.\<close>

definition dispose_done ::
    "kq_os \<Rightarrow> ptr \<Rightarrow> proactor_t \<Rightarrow> (ptr \<times> proactor_socket_t) list \<Rightarrow> kq_state \<Rightarrow> kq_state \<Rightarrow> bool" where
  "dispose_done os p r xs s t \<longleftrightarrow>
     (\<exists>es. trace t = trace s @ es \<and>
        filter is_teardown es = teardown os xs @ closed_at_end r \<and> opens_none es) \<and>
     (\<forall>q. q \<noteq> p \<longrightarrow> heap t q = (if q \<in> fst ` set xs then None else heap s q)) \<and>
     proactor_at p t \<noteq> None"

lemma dispose_done_log [simp]:
  "dispose_done os p r xs s (log_to lv fn line msg t) = dispose_done os p r xs s t"
  by (simp add: dispose_done_def)

lemma dispose_descriptors_done:
  assumes r: "proactor_at p s = Some r" and t: "disposed os p xs s t"
  shows "wp (dispose_descriptors p t) (\<lambda>_. dispose_done os p r xs s) (\<lambda>_ _. False)"
proof -
  obtain b where b: "proactor_at p t = Some (r\<lparr>pr_stop := b\<rparr>)"
    using disposed_at [OF t r] by blast
  have "filter is_teardown (closed_at_end r) = closed_at_end r" "opens_none (closed_at_end r)"
    by (simp_all add: closed_at_end_def)
  moreover have "proactor_at p u = proactor_at p t" if "heap u = heap t" for u
    using that by (simp add: proactor_at_def)
  ultimately have post: "dispose_done os p r xs s u"
    if "trace u = trace t @ closed_at_end r" "heap u = heap t" for u
    using that t b by (auto simp: disposed_def dispose_done_def)
  have "closed_at_end (r\<lparr>pr_stop := b\<rparr>) = closed_at_end r" by (simp add: closed_at_end_def)
  from dispose_descriptors_correct [OF b, unfolded this] show ?thesis
    by (rule wp_mono) (use post in auto)
qed

lemma dispose_all_done:
  assumes "proactor_at p s = Some r" and "sock_list (heap s) (pr_sockets r) xs"
    and "length xs < n"
  shows "\<exists>t. proactor_net_dispose os (kq_api_app os p script) n p s = Ret () t \<and>
    dispose_done os p r xs s t"
proof -
  let ?app = "kq_api_app os p script"
  let ?s = "log_to info ''proactor_net_dispose'' 167 ''Starting.'' s"
  have r: "proactor_at p ?s = Some r" using assms(1) by simp
  from wp_total [OF stop_disposed [OF r, of os] stop_fuel]
  obtain t where t: "proactor_net_stop os p ?s = Ret () t" "disposed os p [] s t" by auto
  have "proactor_at p t \<noteq> None" using disposed_at [OF t(2) assms(1)] by auto
  from wp_total [OF dispose_event_correct [OF t(2) this, of script] dispose_steps_fuel(1)]
  obtain u where u: "dispose_event ?app p t = Ret () u" "disposed os p [] s u" by auto
  obtain b where b: "proactor_at p u = Some (r\<lparr>pr_stop := b\<rparr>)"
    using disposed_at [OF u(2) assms(1)] by blast
  obtain v where v: "dispose_sockets os ?app n (pr_sockets r) u = Ret () v" "disposed os p xs s v"
    using dispose_list_correct [OF u(2) assms, of script] by blast
  from wp_total [OF dispose_descriptors_done [OF assms(1) v(2)] dispose_steps_fuel(2)]
  obtain w where w: "dispose_descriptors p v = Ret () w" "dispose_done os p r xs s w" by auto
  show ?thesis
    using t u b v w proactor_at_SomeD [OF assms(1)]
    by (simp add: proactor_net_dispose_def Let_def)
qed

text \<open>
  Claim C14. Disposal returns: as soon as the bound on the walk over the sockets exceeds their
  number, the walk ends, and every socket of the list has been announced to its close callback (if
  any), closed and released, once and in list order; then the wake pipe and the queue are closed;
  nothing else is released, and the proactor itself stays allocated.
\<close>

theorem kq_dispose_correct:
  assumes "proactor_at p s = Some r" and "sock_list (heap s) (pr_sockets r) xs"
    and "length xs < n"
  shows "\<exists>t es. proactor_net_dispose os (kq_api_app os p script) n p s = Ret () t \<and>
    trace t = trace s @ es \<and> filter is_teardown es = teardown os xs @ closed_at_end r \<and>
    (\<forall>q. q \<noteq> p \<longrightarrow> heap t q = (if q \<in> fst ` set xs then None else heap s q)) \<and>
    proactor_at p t \<noteq> None"
  using dispose_all_done [OF assms, of os script] by (auto simp: dispose_done_def)

theorem kq_dispose_correct_witness:
  "\<exists>t es. proactor_net_dispose kq_demo_os (kq_api_app kq_demo_os 1 kq_demo_script) 3 1 demo_kq_state =
      Ret () t \<and> trace t = trace demo_kq_state @ es \<and>
    filter is_teardown es =
      [EvExt (CbSockClose 601 108 STATUS_OK NULL None), EvClose 8, EvFree 2, EvClose 9,
       EvFree 5, EvClose 4, EvClose 5, EvClose 3] \<and>
    heap t 2 = None \<and> heap t 5 = None \<and> heap t 3 \<noteq> None \<and> proactor_at 1 t \<noteq> None"
proof -
  have "teardown kq_demo_os [(2, demo_client\<lparr>sk_next := 5\<rparr>), (5, demo_listener)] @
      closed_at_end demo_proactor =
      [EvExt (CbSockClose 601 108 STATUS_OK NULL None), EvClose 8, EvFree 2, EvClose 9,
       EvFree 5, EvClose 4, EvClose 5, EvClose 3]"
    by (simp add: teardown_def closed_at_end_def demo_client_def demo_listener_def
        demo_proactor_def zero_socket_def kq_demo_os_def)
  moreover have L: "sock_list (heap demo_kq_state) (pr_sockets demo_proactor)
      [(2, demo_client\<lparr>sk_next := 5\<rparr>), (5, demo_listener)]"
    using demo_kq_list by (simp add: demo_proactor_def)
  moreover have "heap demo_kq_state 3 \<noteq> None" by (simp add: demo_kq_state_def)
  ultimately show ?thesis
    using kq_dispose_correct [OF demo_kq_at L, of 3 kq_demo_os kq_demo_script] by auto
qed

text \<open>
  Claim C23. Accepting, on every branch: without a callback nothing is accepted; without memory
  the connection stays in the backlog. Otherwise \<open>accept\<close> is called with the number 16 for the
  address of the length. If the kernel rejects this, the callback gets a fresh client socket with
  the descriptor that was returned, no address, and the status \<open>STATUS_INTERNAL_FAILURE\<close>; nothing
  is released, and the new socket is not put on the list of the proactor, which stays as it is. If
  the kernel accepts a connection, it uses 16 as an address, which is an access error: no
  connection is ever accepted.
\<close>

theorem kq_accept_correct:
  assumes "proactor_at p s = Some r" and "heap_bounded s"
    and "ls \<noteq> NULL" and "heap s ls = Some (Socket_Cell k)"
    and "c = Suc (brk s)" and "h = trace s @ [EvMalloc sizeof_proactor_socket_t c]"
    and "os_accept_at os h (sk_sock k) 16 = (fd, addr)"
  shows "if sk_accept_cb k \<noteq> NULL \<and> os_malloc os (trace s) sizeof_proactor_socket_t \<and> 0 \<le> fd
    then \<exists>f. process_accept_ready os (kq_api_app os p script) p ls s = Fault f
    else wp (process_accept_ready os (kq_api_app os p script) p ls s)
      (\<lambda>rc t.
         if sk_accept_cb k = NULL
         then rc = STATUS_NULL_PTR \<and> trace t = trace s \<and> heap t = heap s
         else if \<not> os_malloc os (trace s) sizeof_proactor_socket_t
         then rc = STATUS_NO_RESOURCE \<and> heap t = heap s \<and>
           trace t = trace s @ [EvMalloc sizeof_proactor_socket_t NULL]
         else rc = STATUS_INTERNAL_FAILURE \<and>
           heap t c = Some (Socket_Cell (zero_socket\<lparr>sk_socket_type := PROACTOR_SOCK_TCP_CLIENT,
             sk_sock := fd\<rparr>)) \<and>
           (\<exists>es. trace t = h @ [EvExt (EvAcceptAt (sk_sock k) 16 fd),
              EvExt (CbSockAccept (sk_accept_cb k) ls c STATUS_INTERNAL_FAILURE (sk_sock_data k)
                (pr_app_data r))] @ es \<and> wakes es) \<and>
           (\<exists>b. proactor_at p t = Some (r\<lparr>pr_stop := b\<rparr>)))
      (\<lambda>_ _. False)"
proof -
  note p = proactor_at_SomeD [OF assms(1)]
  have c: "p \<noteq> c" "ls \<noteq> c" "p \<noteq> ls" "c = Suc (brk s)" "c \<noteq> NULL"
    using heap_bounded_fresh [OF assms(2)] p assms(4,5) by auto
  note defs = process_accept_ready_def Let_def sys_malloc_def update_socket_def sys_accept_at_def
    sizeof_sockaddr_def
  have acc: "os_accept_at os (trace s @ [EvMalloc sizeof_proactor_socket_t (Suc (brk s))])
      (sk_sock k) 16 = (fd, addr)"
    using assms(5-7) by simp
  consider "sk_accept_cb k = NULL \<or> \<not> os_malloc os (trace s) sizeof_proactor_socket_t"
    | "sk_accept_cb k \<noteq> NULL" "os_malloc os (trace s) sizeof_proactor_socket_t" "0 \<le> fd"
    | "sk_accept_cb k \<noteq> NULL" "os_malloc os (trace s) sizeof_proactor_socket_t" "fd < 0"
    by linarith
  then show ?thesis
  proof cases
    case 1
    then show ?thesis using assms(1-4) by (auto simp: defs)
  next
    case 2
    then show ?thesis
      using assms(1-4) c acc by (auto simp: defs load_cell_def split: option.split)
  next
    case 3
    let ?cb = "CbSockAccept (sk_accept_cb k) ls c STATUS_INTERNAL_FAILURE (sk_sock_data k)
      (pr_app_data r)"
    have call: "wp (call_cb (kq_api_app os p script) ?cb u)
      (\<lambda>_ t. heap t c = heap u c \<and> (\<exists>es. trace t = trace u @ EvExt ?cb # es \<and> wakes es) \<and>
         (\<exists>b. proactor_at p t = Some (r\<lparr>pr_stop := b\<rparr>)))
      (\<lambda>_ _. False)" if u: "proactor_at p u = Some r" for u
      by (rule wp_mono [OF kq_api.call_quiet]) (use u c in \<open>auto simp: kq_quiet_def\<close>)
    have at: "proactor_at p (t\<lparr>heap := (heap s)(c \<mapsto> x)\<rparr>) = Some r" for t :: kq_state and x
      using p c by (simp add: proactor_at_def)
    show ?thesis
      using 3 assms(1-4,6) c at acc socket_type_defs
      by (auto simp: defs intro!: wp_mono [OF call [unfolded c(4)]])
  qed
qed

lemma demo_kq_bounded: "heap_bounded demo_kq_state"
  by (simp add: heap_bounded_def demo_kq_state_def)

theorem kq_accept_correct_witness:
  "wp (process_accept_ready kq_demo_os (kq_api_app kq_demo_os 1 kq_demo_script) 1 5 demo_kq_state)
    (\<lambda>rc t. rc = STATUS_INTERNAL_FAILURE \<and> heap t 6 = Some (Socket_Cell (zero_socket\<lparr>
       sk_socket_type := PROACTOR_SOCK_TCP_CLIENT, sk_sock := - 1\<rparr>))) (\<lambda>_ _. False)"
proof -
  have L: "heap demo_kq_state 5 = Some (Socket_Cell demo_listener)" "(5::ptr) \<noteq> NULL"
    by (simp_all add: demo_kq_state_def)
  have "sk_accept_cb demo_listener = 602" "os_malloc kq_demo_os h n"
    "os_accept_at kq_demo_os h fd q = (- 1, [])" "brk demo_kq_state = 5" for h n fd q
    by (simp_all add: demo_listener_def kq_demo_os_def demo_kq_state_def)
  then show ?thesis
    using kq_accept_correct [OF demo_kq_at demo_kq_bounded L(2,1) refl refl, of kq_demo_os "- 1" "[]"
        kq_demo_script]
    by (auto elim!: wp_mono)
qed

section \<open>The run loop\<close>

lemma create_at:
  assumes "proactor_net_create os cb sd ad ms s = Ret p t" and "p \<noteq> NULL"
  shows "\<exists>r. proactor_at p t = Some r \<and> pr_event_cb r = cb"
  using assms
  by (auto simp: proactor_net_create_def create_steps_def sys_malloc_def kq_access_defs kq_sys_defs
      zero_proactor_def proactor_at_def split: option.splits if_splits)

lemma create_idle:
  assumes "proactor_net_create os cb sd ad ms s = Ret p t" and "p \<noteq> NULL"
    and "\<And>q cs rc. EvExt (EvChange q cs rc) \<notin> set (trace s)"
  shows "kq_idle p t"
  using assms
  by (auto simp: proactor_net_create_def create_steps_def sys_malloc_def kq_access_defs kq_sys_defs
      zero_proactor_def proactor_at_def kq_idle_def only_wake_def
      split: option.splits if_splits)

text \<open>
  Claim C37. The tick loop starts from an uninitialised pointer: if the variable holds the address
  of something other than a socket (an address below the next one to be allocated), the first
  round of a running proactor ends in an access error, unless its wait is interrupted: whatever the
  proactor's list of sockets is, whatever events the kernel reports, and whatever the callbacks do.
\<close>

theorem kq_run_wild_pointer:
  assumes "proactor_at p s = Some r" and "\<not> pr_stop r"
    and "os_kevent_wait os (trace s) (pr_kq r) NUM_EVENTS (pr_tick_time_spec r) \<noteq> Kq_Error EINTR"
    and "\<And>h. os_indeterminate os h = q" and "q \<noteq> NULL" and "q \<le> brk s"
    and "\<And>k. heap s q \<noteq> Some (Socket_Cell k)" and "0 < n"
  shows "\<exists>f. proactor_net_run os (kq_api_app os p script) n p (Suc k) s = Fault f"
proof -
  have "no_socket q s" using assms(6,7) by (simp add: no_socket_def)
  from kq_round_wild [OF this assms(4,5,8,1,3)]
  obtain f where "kq_round os (kq_api_app os p script) n p s = Fault f"
    by (auto simp: fails_or_False)
  then show ?thesis
    using assms(1,2) proactor_at_SomeD [OF assms(1)] by (simp add: proactor_net_run_def)
qed

text \<open>The variable holds the address 3, that of a buffer; the application stops at the first tick.\<close>

definition wild_os :: kq_os where
  "wild_os = kq_demo_os\<lparr>os_indeterminate := (\<lambda>h. 3), os_kevent_wait := (\<lambda>h kq n ts.
     Kq_Events (take n [(8, EVFILT_READ, 2), (9, EVFILT_READ, 5)]))\<rparr>"

theorem kq_run_wild_pointer_witness:
  "\<exists>f. proactor_net_run wild_os (kq_api_app wild_os 1 kq_demo_script) 3 1 (Suc 0) demo_kq_state =
     Fault f"
  by (rule kq_run_wild_pointer [OF demo_kq_at, where q = 3])
    (simp_all add: demo_proactor_def zero_proactor_def wild_os_def demo_kq_state_def)

text \<open>
  With the interface that exists the back end performs no network input or output: on
  a proactor just created, if that pointer is null and the kernel reports only what was
  registered, any number of rounds makes no other calls than waiting, reading and writing the wake
  pipe and calling the proactor's callback, and changes no object except for the stop flag.
\<close>

theorem kq_run_no_network:
  assumes "kq_os_ok os" and "reports_registered os" and "\<And>h. os_indeterminate os h = NULL"
    and "0 < n" and "proactor_net_create os cb sd ad ms s = Ret p t" and "p \<noteq> NULL"
    and "\<And>q cs rc. EvExt (EvChange q cs rc) \<notin> set (trace s)"
  shows "wp (for_each (\<lambda>_. kq_round os (kq_api_app os p script) n p) (replicate k ()) t)
    (\<lambda>_ u. \<exists>es. trace u = trace t @ es \<and> list_all idle_event es \<and>
       (\<forall>q. q \<noteq> p \<longrightarrow> heap u q = heap t q)) (\<lambda>_ _. False)"
proof -
  have idle: "kq_idle p t"
    using assms(5-7) by (rule create_idle)
  have "wp (for_each (\<lambda>_. kq_round os (kq_api_app os p script) n p) (replicate k ()) t)
      (\<lambda>_ u. idle_step p t u) (\<lambda>_ _. False)"
  proof (rule wp_for_each)
    fix u assume u: "idle_step p t u"
    show "wp (kq_round os (kq_api_app os p script) n p u) (\<lambda>_ v. idle_step p t v) (\<lambda>_ _. False)"
      by (rule wp_mono [OF kq_round_idle [OF assms(1,2) kq_idle_step [OF u idle] assms(3,4)]])
        (auto intro: idle_step_trans [OF u])
  qed simp
  then show ?thesis
    by (rule wp_mono) (auto simp: idle_step_def)
qed

definition kq_fresh :: kq_state where
  "kq_fresh = \<lparr>trace = [], heap = Map.empty, brk = 0, kq_log = debug_initial\<rparr>"

definition kq_created :: kq_state where
  "kq_created = (case proactor_net_create kq_demo_os 500 NULL 501 1500 kq_fresh of
     Ret p t \<Rightarrow> t | _ \<Rightarrow> kq_fresh)"

lemma kq_created_ret: "proactor_net_create kq_demo_os 500 NULL 501 1500 kq_fresh = Ret 1 kq_created"
  by (simp add: kq_created_def proactor_net_create_def create_steps_def sys_malloc_def
      kq_access_defs kq_sys_defs kq_demo_os_def kq_fresh_def)

theorem kq_run_no_network_witness:
  "wp (for_each (\<lambda>_. kq_round kq_demo_os (kq_api_app kq_demo_os 1 kq_demo_script) 1 1)
      (replicate 7 ()) kq_created)
    (\<lambda>_ u. \<exists>es. trace u = trace kq_created @ es \<and> list_all idle_event es \<and>
       (\<forall>q. q \<noteq> 1 \<longrightarrow> heap u q = heap kq_created q)) (\<lambda>_ _. False)"
  by (rule kq_run_no_network [OF kq_demo_ok(1,2) _ _ kq_created_ret])
    (simp_all add: kq_demo_os_def kq_fresh_def)

text \<open>An application that never stops the proactor leaves it as it is.\<close>

definition never_stops :: "(kq_trace \<Rightarrow> kq_x \<Rightarrow> kq_call list) \<Rightarrow> bool" where
  "never_stops script \<longleftrightarrow> (\<forall>h cb. Kq_Stop \<notin> set (script h cb))"

lemma never_stops_call:
  assumes "never_stops script" and "proactor_at p s = Some r"
  shows "wp (call_cb (kq_api_app os p script) cb s) (\<lambda>_ t. proactor_at p t = Some r) (\<lambda>_ _. False)"
  unfolding call_cb_def kq_api_app_def
proof (rule wp_for_each)
  fix c t assume "c \<in> set (script (trace (emit (EvExt cb) s)) cb)" and t: "proactor_at p t = Some r"
  then have "c \<noteq> Kq_Stop" using assms(1) by (auto simp: never_stops_def)
  then show "wp (do_kq_call os p c t) (\<lambda>_ u. proactor_at p u = Some r) (\<lambda>_ _. False)"
    using t proactor_at_SomeD [OF t]
    by (cases c) (auto simp: proactor_net_wake_def proactor_net_get_status_def sys_write_def Let_def)
qed (use assms(2) in simp)

text \<open>
  Claim C36. Errors of \<open>kevent\<close> are not noticed: if every wait fails, interrupted or not, and no
  callback stops the proactor, the loop goes on for ever, provided that the uninitialised pointer
  of the tick loop is null in every round.
\<close>

theorem kq_run_ignores_errors:
  assumes "proactor_at p s = Some r" and "\<not> pr_stop r" and "never_stops script"
    and "\<And>h kq m ts. \<exists>e. os_kevent_wait os h kq m ts = Kq_Error e"
    and "\<And>h. os_indeterminate os h = NULL" and "0 < n"
  shows "proactor_net_run os (kq_api_app os p script) n p k s = Out_Of_Fuel"
proof -
  let ?app = "kq_api_app os p script"
  have "kq_loop os ?app n p k t = Out_Of_Fuel" if "proactor_at p t = Some r" for t
    using that
  proof (induction k arbitrary: t)
    case (Suc k)
    obtain m where n: "n = Suc m" using \<open>0 < n\<close> by (cases n) auto
    have tick: "wp (tick_round os ?app n p u) (\<lambda>_ v. proactor_at p v = Some r) (\<lambda>_ _. False)"
      if "proactor_at p u = Some r" for u
      using that never_stops_call [OF assms(3) that] by (simp add: tick_round_def assms(5) n)
    obtain e where "os_kevent_wait os (trace t) (pr_kq r) NUM_EVENTS (pr_tick_time_spec r) = Kq_Error e"
      using assms(4) by blast
    then have "wp (kq_round os ?app n p t) (\<lambda>_ v. proactor_at p v = Some r) (\<lambda>_ _. False)"
      using Suc.prems tick by (simp add: kq_round_def sys_kevent_wait_def Let_def)
    from wp_total [OF this kq_round_fuel [OF assms(5,6)]]
    show ?case using Suc assms(2) by auto
  qed simp
  then show ?thesis
    using assms(1) proactor_at_SomeD [OF assms(1)] by (simp add: proactor_net_run_def)
qed

definition failing_os :: kq_os where
  "failing_os = kq_demo_os\<lparr>os_kevent_wait := (\<lambda>h kq n ts. Kq_Error 9)\<rparr>"

definition waking_script :: "kq_trace \<Rightarrow> kq_x \<Rightarrow> kq_call list" where
  "waking_script h cb = [Kq_Wake, Kq_Get_Status]"

theorem kq_run_ignores_errors_witness:
  "proactor_net_run failing_os (kq_api_app failing_os 1 waking_script) 1 1 1000 demo_kq_state =
   Out_Of_Fuel"
  by (rule kq_run_ignores_errors [OF demo_kq_at])
    (simp_all add: demo_proactor_def zero_proactor_def failing_os_def kq_demo_os_def
      never_stops_def waking_script_def)

lemma run_idle_returns:
  assumes "kq_os_ok os" and "reports_registered os" and "\<And>h. os_indeterminate os h = NULL"
    and "0 < n" and "proactor_net_create os cb sd ad ms s = Ret p t" and "p \<noteq> NULL"
    and "\<And>q cs rc. EvExt (EvChange q cs rc) \<notin> set (trace s)"
    and "cb \<noteq> NULL" and "stops_at_tick m script"
    and "\<And>h kq j ts. os_kevent_wait os h kq j ts \<noteq> Kq_Error EINTR"
  shows "\<exists>u. proactor_net_run os (kq_api_app os p script) n p (m + 2) t = Ret () u \<and>
    idle_step p t u \<and> kq_stopped p u"
proof -
  let ?app = "kq_api_app os p script"
  let ?loop = "kq_loop os ?app n p"
  have idle: "kq_idle p t" using assms(5-7) by (rule create_idle)
  obtain r where r: "proactor_at p t = Some r" "pr_event_cb r = cb"
    using create_at [OF assms(5,6)] by blast
  let ?J = "\<lambda>u. idle_step p t u"
  let ?rank = "\<lambda>u. m - ticks (trace u)"
  have round: "wp (kq_round os ?app n p u) (\<lambda>_ v. ?J v) (\<lambda>_ _. False)"
    "wp (kq_round os ?app n p u) (\<lambda>_ v. ticks (trace u) < ticks (trace v) \<and>
       (m \<le> Suc (ticks (trace u)) \<longrightarrow> kq_stopped p v)) (\<lambda>_ _. False)" if u: "?J u" for u
  proof -
    note ui = kq_idle_step [OF u idle]
    show "wp (kq_round os ?app n p u) (\<lambda>_ v. ?J v) (\<lambda>_ _. False)"
      by (rule wp_mono [OF kq_round_idle [OF assms(1,2) ui assms(3,4)]])
        (auto intro: idle_step_trans [OF u])
    obtain b where b: "proactor_at p u = Some (r\<lparr>pr_stop := b\<rparr>)"
      using u r unfolding idle_step_def by blast
    show "wp (kq_round os ?app n p u) (\<lambda>_ v. ticks (trace u) < ticks (trace v) \<and>
       (m \<le> Suc (ticks (trace u)) \<longrightarrow> kq_stopped p v)) (\<lambda>_ _. False)"
      using r(2) assms(8)
      by (intro kq_round_progress [OF assms(1,2) ui assms(3,4) b _ assms(10,9)]) simp
  qed
  have "?loop (Suc (Suc (?rank t))) t \<noteq> Out_Of_Fuel"
  proof (rule kq_run_loop.run_terminates [where J = ?J])
    fix u assume u: "?J u"
    show "kq_round os ?app n p u \<noteq> Out_Of_Fuel" by (rule kq_round_fuel [OF assms(3,4)])
    fix v assume "kq_round os ?app n p u = Ret () v"
    then show "?J v \<and> (kq_stopped p v \<or> ?rank v < ?rank u)"
      using round [OF u] by auto
  qed simp
  then have fuel: "?loop (m + 2) t \<noteq> Out_Of_Fuel"
    using kq_run_loop.run_more_fuel [of os ?app n p "Suc (Suc (?rank t))" t "m - ?rank t"] by simp
  have "wp (?loop (m + 2) t) (\<lambda>_ u. ?J u \<and> kq_stopped p u) (\<lambda>_ _. False)"
    using round(1) by (intro kq_run_loop.run_invariant) auto
  from wp_total [OF this fuel] show ?thesis
    unfolding proactor_net_run_def if_not_P [OF assms(6)] by auto
qed

text \<open>
  Claim C19. The loop ends: on a proactor just created by a program that has registered no events
  before, with a callback that stops it on its \<open>m\<close>-th tick, the run loop returns within \<open>m + 2\<close>
  tests of the flag, with the flag set - provided that the uninitialised pointer of the tick loop
  is null in every round, that the kernel reports only events that were registered, and that no
  wait is interrupted by a signal (an interrupted round makes no tick).
\<close>

theorem kq_run_returns:
  assumes "kq_os_ok os" and "reports_registered os" and "\<And>h. os_indeterminate os h = NULL"
    and "0 < n" and "proactor_net_create os cb sd ad ms s = Ret p t" and "p \<noteq> NULL"
    and "\<And>q cs rc. EvExt (EvChange q cs rc) \<notin> set (trace s)"
    and "cb \<noteq> NULL" and "stops_at_tick m script"
    and "\<And>h kq j ts. os_kevent_wait os h kq j ts \<noteq> Kq_Error EINTR"
  shows "\<exists>u. proactor_net_run os (kq_api_app os p script) n p (m + 2) t = Ret () u \<and> kq_stopped p u"
  using run_idle_returns [OF assms] by blast

theorem kq_run_returns_witness:
  "\<exists>u. proactor_net_run kq_demo_os (kq_api_app kq_demo_os 1 kq_demo_script) 1 1 (1 + 2) kq_created =
     Ret () u \<and> kq_stopped 1 u"
  by (rule kq_run_returns [OF kq_demo_ok(1,2) _ _ kq_created_ret])
    (simp_all add: kq_demo_os_def kq_fresh_def stops_at_tick_def kq_demo_script_def)

text \<open>
  Null pointers: every function of the interface accepts the null pointer; it makes no
  system call and changes no object, and the status is then \<open>STATUS_NULL_PTR\<close>.
\<close>

theorem kq_null_safe:
  "wp (proactor_net_get_status NULL s) (\<lambda>rc t. rc = STATUS_NULL_PTR \<and> t = s) (\<lambda>_ _. False) \<and>
   proactor_net_stop os NULL s = Ret () s \<and> proactor_net_wake os NULL s = Ret () s \<and>
   wp (proactor_net_run os app n NULL k s) (\<lambda>_ t. trace t = trace s \<and> heap t = heap s)
     (\<lambda>_ _. False) \<and> proactor_net_run os app n NULL k s \<noteq> Out_Of_Fuel \<and>
   wp (proactor_net_dispose os app n NULL s) (\<lambda>_ t. trace t = trace s \<and> heap t = heap s)
     (\<lambda>_ _. False)"
  by (simp add: proactor_net_get_status_def proactor_net_stop_def proactor_net_wake_def
      proactor_net_run_def proactor_net_dispose_def Let_def)

section \<open>Types\<close>

text \<open>
  Claim C9. Type safety: on a well-typed heap, if the kernel reports only events that carry null
  or the address of a socket, if the uninitialised pointer of the tick loop is null or the address
  of a socket in every round, and if \<open>accept\<close> rejects the number it is given for the address of
  the length, then the run loop dereferences no null, dangling or ill-typed pointer and writes
  outside of no block, whatever data are received, accepts are tried, and API calls are made by
  the callbacks; it does not end the process, and when it returns the heap is well typed and the
  proactor stopped.
\<close>

theorem kq_run_typed:
  assumes "kq_os_ok os" and "accept_efault os" and "kq_typed p S s" and "udata_in S os"
    and "indeterminate_in S os"
  shows "wp (proactor_net_run os (kq_api_app os p script) n p k s)
    (\<lambda>_ t. kq_typed p S t \<and> kq_stopped p t) (\<lambda>_ _. False)"
proof -
  have "p \<noteq> NULL" by (rule typed_proactor [OF assms(3)])
  then show ?thesis
    using kq_loop_typed [OF assms] by (simp add: proactor_net_run_def)
qed

definition busy_os :: kq_os where
  "busy_os = kq_demo_os\<lparr>os_kevent_wait := (\<lambda>h kq n ts.
     Kq_Events (take n [(8, EVFILT_READ, 2), (9, EVFILT_READ, 5), (4, EVFILT_READ, NULL)]))\<rparr>"

lemma busy_os_ok: "kq_os_ok busy_os" "accept_efault busy_os" "udata_in {2, 5} busy_os" "indeterminate_in {2, 5} busy_os"
proof -
  show "kq_os_ok busy_os"
    using kq_demo_ok(1) unfolding kq_os_ok_def posix_ok_def busy_os_def
    by (auto simp: kq_demo_os_def)
  show "accept_efault busy_os"
    by (simp add: accept_efault_def busy_os_def kq_demo_os_def)
  show "udata_in {2, 5} busy_os"
    by (auto simp: udata_in_def busy_os_def dest!: in_set_takeD)
  show "indeterminate_in {2, 5} busy_os"
    by (simp add: indeterminate_in_def busy_os_def kq_demo_os_def)
qed

lemma demo_kq_typed: "kq_typed 1 {2, 5} demo_kq_state"
  by (auto simp: kq_typed_def heap_typed_def heap_bounded_def at_iffs proactor_at_def demo_kq_state_def
      demo_proactor_def zero_proactor_def demo_client_def demo_listener_def zero_socket_def
      split: if_splits)

theorem kq_run_typed_witness:
  "wp (proactor_net_run busy_os (kq_api_app busy_os 1 kq_demo_script) 3 1 4 demo_kq_state)
    (\<lambda>_ t. kq_typed 1 {2, 5} t \<and> kq_stopped 1 t) (\<lambda>_ _. False)"
  by (rule kq_run_typed [OF busy_os_ok(1,2) demo_kq_typed busy_os_ok(3,4)])

end
