(* ===== verification/Kevent_Lifecycle.thy ===== *)
theory Kevent_Lifecycle
  imports Kevent_Theorems "HOL-Library.Multiset"
begin

text \<open>
  The life of a proactor of the kqueue back end, from its creation over the run loop to its
  disposal: which descriptors are opened and closed on the way, and what stays allocated.
\<close>

section \<open>Descriptors opened and closed\<close>

fun closes :: "kq_x posix_ev \<Rightarrow> int list" where
  "closes (EvClose fd) = [fd]"
| "closes _ = []"

text \<open>A failed call opens nothing, and closing \<open>-1\<close> closes nothing.\<close>

definition opened :: "kq_trace \<Rightarrow> int list" where
  "opened es = filter (\<lambda>fd. fd \<noteq> - 1) (concat (map opens es))"

definition closed :: "kq_trace \<Rightarrow> int list" where
  "closed es = filter (\<lambda>fd. fd \<noteq> - 1) (concat (map closes es))"

lemma opened_closed_simps [simp]:
  "opened [] = []" "opened (es @ fs) = opened es @ opened fs"
  "opened (e # es) = filter (\<lambda>fd. fd \<noteq> - 1) (opens e) @ opened es"
  "closed [] = []" "closed (es @ fs) = closed es @ closed fs"
  "closed (e # es) = filter (\<lambda>fd. fd \<noteq> - 1) (closes e) @ closed es"
  by (simp_all add: opened_def closed_def)

lemma opens_none_opened: "opens_none es \<Longrightarrow> opened es = []"
  by (induction es) simp_all

lemma closes_teardown: "\<not> is_teardown e \<Longrightarrow> closes e = []"
  by (induction e rule: closes.induct) simp_all

lemma closed_teardown: "closed es = closed (filter is_teardown es)"
  by (induction es) (simp_all add: closes_teardown)

lemma idle_event_neutral: "idle_event e \<Longrightarrow> opens e = [] \<and> closes e = []"
  by (induction e rule: idle_event.induct) simp_all

lemma idle_neutral: "list_all idle_event es \<Longrightarrow> opened es = [] \<and> closed es = []"
  by (induction es) (simp_all add: idle_event_neutral)

section \<open>Creation and disposal\<close>

text \<open>What the creation of \<open>r\<close> at \<open>p\<close> opens, and what it leaves alone.\<close>

definition opened_for ::
    "kq_os \<Rightarrow> kq_state \<Rightarrow> ptr \<Rightarrow> proactor_t \<Rightarrow> kq_state \<Rightarrow> bool" where
  "opened_for os s p r t \<longleftrightarrow> pr_sockets r = NULL \<and> (\<forall>q. q \<noteq> p \<longrightarrow> heap t q = heap s q) \<and>
    ((\<exists>h. os_pipe os h = Some (pr_wakeup_fds r)) \<or> pr_wakeup_fds r = (- 1, - 1)) \<and>
    (\<exists>es. trace t = trace s @ es \<and> closed es = [] \<and> opened es =
      filter (\<lambda>fd. fd \<noteq> - 1) [pr_kq r, fst (pr_wakeup_fds r), snd (pr_wakeup_fds r)])"

lemma create_opens:
  "wp (proactor_net_create os cb sd ad ms s)
    (\<lambda>p t. p \<noteq> NULL \<longrightarrow> (\<forall>r. proactor_at p t = Some r \<longrightarrow> opened_for os s p r t))
    (\<lambda>_ _. False)"
  by (simp add: proactor_net_create_def create_steps_def sys_malloc_def kq_access_defs kq_sys_defs
      zero_proactor_def proactor_at_def INVALID_SOCKET_def opened_for_def split: option.split)
    (auto intro: exI)

section \<open>Properties\<close>

text \<open>
  Claim C10. The life of a proactor without sockets, however much of its creation succeeded, in a
  program that has registered no events before: with a callback that stops it on its \<open>m\<close>-th tick
  the run loop returns and the disposal returns after it; every descriptor that was opened on the
  way is closed exactly once and no other is, and of the memory the proactor itself, and nothing
  else, is still allocated. This needs that the uninitialised pointer of the tick loop is null in
  every round, that the kernel reports only events that were registered, that no wait is
  interrupted, and that a pipe gets descriptors that are not negative.
\<close>

theorem kq_lifecycle:
  assumes "kq_os_ok os" and "reports_registered os" and "\<And>h. os_indeterminate os h = NULL"
    and "0 < n" and "proactor_net_create os cb sd ad ms s = Ret p t" and "p \<noteq> NULL"
    and "\<And>q cs rc. EvExt (EvChange q cs rc) \<notin> set (trace s)"
    and "cb \<noteq> NULL" and "stops_at_tick m script"
    and "\<And>h kq j ts. os_kevent_wait os h kq j ts \<noteq> Kq_Error EINTR"
    and "\<And>h fds. os_pipe os h = Some fds \<Longrightarrow> 0 \<le> fst fds"
  shows "\<exists>u v es. proactor_net_run os (kq_api_app os p script) n p (m + 2) t = Ret () u \<and>
    proactor_net_dispose os (kq_api_app os p script) n p u = Ret () v \<and>
    trace v = trace s @ es \<and> mset (closed es) = mset (opened es) \<and>
    (\<forall>q. heap v q \<noteq> None \<longleftrightarrow> heap s q \<noteq> None \<or> q = p)"
proof -
  obtain r where r: "proactor_at p t = Some r" using create_at [OF assms(5,6)] by blast
  then have "opened_for os s p r t"
    using create_opens [of os cb sd ad ms s] assms(5,6) by simp
  note create = this [unfolded opened_for_def]
  have pair: "snd (pr_wakeup_fds r) = - 1" if "fst (pr_wakeup_fds r) = - 1"
    using create assms(11) that by (metis neg_0_le_iff_le not_one_le_zero snd_conv)
  obtain u where u: "proactor_net_run os (kq_api_app os p script) n p (m + 2) t = Ret () u"
    "idle_step p t u"
    using run_idle_returns [OF assms(1-10)] by blast
  obtain b where b: "proactor_at p u = Some (r\<lparr>pr_stop := b\<rparr>)"
    using u(2) r unfolding idle_step_def by blast
  have "sock_list (heap u) (pr_sockets (r\<lparr>pr_stop := b\<rparr>)) []" and "length [] < n"
    using create assms(4) by simp_all
  from dispose_all_done [OF b this, of os script]
  obtain v where v: "proactor_net_dispose os (kq_api_app os p script) n p u = Ret () v"
    "dispose_done os p (r\<lparr>pr_stop := b\<rparr>) [] u v" by blast
  obtain xs where xs: "trace t = trace s @ xs" "closed xs = []"
    "opened xs = filter (\<lambda>fd. fd \<noteq> - 1) [pr_kq r, fst (pr_wakeup_fds r), snd (pr_wakeup_fds r)]"
    using create by blast
  obtain ys where ys: "trace u = trace t @ ys" "opened ys = []" "closed ys = []"
    using u(2) idle_neutral unfolding idle_step_def by blast
  obtain zs where zs: "trace v = trace u @ zs" "filter is_teardown zs = closed_at_end r" "opened zs = []"
    using v(2) opens_none_opened by (auto simp: dispose_done_def teardown_def closed_at_end_def)
  have "trace v = trace s @ (xs @ ys @ zs)" using xs ys zs by simp
  moreover have "mset (closed (xs @ ys @ zs)) = mset (opened (xs @ ys @ zs))"
    using xs ys zs closed_teardown [of zs] pair
    by (auto simp: closed_at_end_def)
  moreover have "heap v q \<noteq> None \<longleftrightarrow> heap s q \<noteq> None \<or> q = p" for q
    using v(2) u(2) create by (auto simp: dispose_done_def idle_step_def proactor_at_def split: option.splits)
  ultimately show ?thesis using u(1) v(1) by blast
qed

theorem kq_lifecycle_witness:
  "\<exists>u v es. proactor_net_run kq_demo_os (kq_api_app kq_demo_os 1 kq_demo_script) 1 1 (1 + 2) kq_created =
      Ret () u \<and>
    proactor_net_dispose kq_demo_os (kq_api_app kq_demo_os 1 kq_demo_script) 1 1 u = Ret () v \<and>
    trace v = trace kq_fresh @ es \<and> mset (closed es) = mset (opened es) \<and>
    (\<forall>q. heap v q \<noteq> None \<longleftrightarrow> heap kq_fresh q \<noteq> None \<or> q = 1)"
  by (rule kq_lifecycle [OF kq_demo_ok(1,2) _ _ kq_created_ret])
    (simp_all add: kq_demo_os_def kq_fresh_def stops_at_tick_def kq_demo_script_def)

end
