(* ===== verification/Kevent_Statics.thy ===== *)
theory Kevent_Statics
  imports Interfaces Send_Request Kevent
begin

text \<open>
  The end of \<open>src/util/proactor_net_kevent.c\<close>: two event handlers, three setters and a send that
  work on static variables. The file uses but does not declare these variables, the type
  \<open>send_request_t\<close>, \<open>BUFFER_SIZE\<close> and \<open>handle_error\<close>: the variables are the fields of a record,
  the members of the type those that the code assigns, and \<open>BUFFER_SIZE\<close> and \<open>handle_error\<close> are
  parameters.
\<close>

section \<open>System calls and state\<close>

datatype ks_x =
    EvChange_ks int "(int \<times> kq_filter \<times> kq_flag) list" int
  | CbReceive_ks ptr int "byte list" ptr
  | CbSent_ks ptr int ptr

record ks_os = "ks_x posix" +
  os_kchange :: "ks_x posix_ev list \<Rightarrow> int \<Rightarrow> (int \<times> kq_filter \<times> kq_flag) list \<Rightarrow> int"
  os_BUFFER_SIZE :: nat

record ks_state = "(ks_x posix_ev, send_cell) mach" +
  ks_kq :: int
  receive_callback_ks :: ptr
  send_complete_callback_ks :: ptr
  accept_callback_ks :: ptr
  receive_callback_user_data_ks :: ptr
  send_complete_callback_user_data_ks :: ptr
  accept_callback_user_data_ks :: ptr
  current_send_request_ks :: ptr

type_synonym 'a ks_run = "ks_state \<Rightarrow> ('a, ks_state) outcome"
type_synonym ks_app = "ks_x \<Rightarrow> unit ks_run"
type_synonym ks_err = "string \<Rightarrow> unit ks_run"

text \<open>
  \<open>kevent(kq, changes, n, NULL, 0, NULL)\<close> reads \<open>n\<close> changes; the list is the whole array that the
  pointer points into.
\<close>

definition sys_kchange ::
    "ks_os \<Rightarrow> int \<Rightarrow> (int \<times> kq_filter \<times> kq_flag) list \<Rightarrow> nat \<Rightarrow> int ks_run" where
  "sys_kchange os kq changes n s =
     (if n \<le> length changes
      then let cs = take n changes; r = os_kchange os (trace s) kq cs in
           Ret r (emit (EvExt (EvChange_ks kq cs r)) s)
      else Fault Out_Of_Bounds)"

definition call_ks :: "ks_app \<Rightarrow> ks_x \<Rightarrow> unit ks_run" where
  "call_ks app cb s = app cb (emit (EvExt cb) s)"

definition check_ks :: "ks_err \<Rightarrow> bool \<Rightarrow> string \<Rightarrow> unit ks_run" where
  "check_ks err failed msg s = (if failed then err msg s else Ret () s)"

section \<open>Event handlers\<close>

text \<open>
  Both \<open>EV_SET\<close> fill the one variable \<open>ev\<close>, so that the second replaces the first; \<open>kevent\<close> is
  told of two changes.
\<close>

definition handle_data_event_ks :: "ks_os \<Rightarrow> ks_err \<Rightarrow> ks_app \<Rightarrow> int \<Rightarrow> unit ks_run" where
  "handle_data_event_ks os err app fd s =
     and_then (sys_read os fd (os_BUFFER_SIZE os) s) (\<lambda>(bytes_read, buffer) s.
     if bytes_read \<le> 0
     then let s = (if bytes_read < 0 then emit (EvPerror ''read'') s else s) in
          and_then (sys_close fd s) (\<lambda>_ s.
          let ev = (fd, EVFILT_READ, EV_DELETE);
              ev = (fd, EVFILT_WRITE, EV_DELETE) in
          and_then (sys_kchange os (ks_kq s) [ev] 2 s) (\<lambda>rc s.
          check_ks err (rc = - 1) ''kevent'' s))
     else if receive_callback_ks s \<noteq> NULL
     then call_ks app (CbReceive_ks (receive_callback_ks s) fd buffer
            (receive_callback_user_data_ks s)) s
     else Ret () s)"

definition handle_write_event_ks :: "ks_os \<Rightarrow> ks_app \<Rightarrow> int \<Rightarrow> unit ks_run" where
  "handle_write_event_ks os app fd s =
     (if current_send_request_ks s \<noteq> NULL
      then
        and_then (load_request (current_send_request_ks s) s) (\<lambda>r s.
        and_then (read_block (sr_data r) (unat (sr_offset r))
            (unat (sr_length r - sr_offset r)) s) (\<lambda>bs s.
        and_then (sys_write os fd bs s) (\<lambda>bytes_sent s.
        if bytes_sent < 0 then Ret () (emit (EvPerror ''write'') s)
        else
          and_then (update_request (current_send_request_ks s)
              (\<lambda>r. r\<lparr>sr_offset := sr_offset r + word_of_int bytes_sent\<rparr>) s) (\<lambda>_ s.
          and_then (load_request (current_send_request_ks s) s) (\<lambda>r s.
          if sr_offset r \<ge> sr_length r
          then
            and_then
              (if send_complete_callback_ks s \<noteq> NULL
               then call_ks app (CbSent_ks (send_complete_callback_ks s) fd
                      (send_complete_callback_user_data_ks s)) s
               else Ret () s) (\<lambda>_ s.
            and_then (load_request (current_send_request_ks s) s) (\<lambda>r s.
            and_then (sys_free (sr_data r) s) (\<lambda>_ s.
            and_then (sys_free (current_send_request_ks s) s) (\<lambda>_ s.
            Ret () (s\<lparr>current_send_request_ks := NULL\<rparr>)))))
          else Ret () s)))))
      else Ret () s)"

section \<open>Callbacks and sending\<close>

definition proactor_net_set_receive_callback :: "ptr \<Rightarrow> ptr \<Rightarrow> ks_state \<Rightarrow> ks_state" where
  "proactor_net_set_receive_callback cb user_data s =
     s\<lparr>receive_callback_ks := cb, receive_callback_user_data_ks := user_data\<rparr>"

definition proactor_net_set_send_complete_callback :: "ptr \<Rightarrow> ptr \<Rightarrow> ks_state \<Rightarrow> ks_state" where
  "proactor_net_set_send_complete_callback cb user_data s =
     s\<lparr>send_complete_callback_ks := cb, send_complete_callback_user_data_ks := user_data\<rparr>"

definition proactor_net_set_accept_callback :: "ptr \<Rightarrow> ptr \<Rightarrow> ks_state \<Rightarrow> ks_state" where
  "proactor_net_set_accept_callback cb user_data s =
     s\<lparr>accept_callback_ks := cb, accept_callback_user_data_ks := user_data\<rparr>"

definition proactor_net_send :: "ks_os \<Rightarrow> ks_err \<Rightarrow> int \<Rightarrow> byte list \<Rightarrow> size_t \<Rightarrow> int ks_run" where
  "proactor_net_send os err socket data len s =
     (if current_send_request_ks s \<noteq> NULL then Ret (- 1) s
      else
        and_then (sys_malloc os sizeof_SendRequest (Raw_Cell sizeof_SendRequest) s) (\<lambda>p s.
        let s = s\<lparr>current_send_request_ks := p\<rparr> in
        and_then (check_ks err (current_send_request_ks s = NULL) ''malloc'' s) (\<lambda>_ s.
        and_then (sys_malloc os (unat len) (Raw_Cell (unat len)) s) (\<lambda>d s.
        and_then (update_request (current_send_request_ks s) (\<lambda>r. r\<lparr>sr_data := d\<rparr>) s) (\<lambda>_ s.
        and_then (load_request (current_send_request_ks s) s) (\<lambda>r s.
        and_then (check_ks err (sr_data r = NULL) ''malloc'' s) (\<lambda>_ s.
        and_then (load_request (current_send_request_ks s) s) (\<lambda>r s.
        and_then (memcpy_to (sr_data r) data (unat len) s) (\<lambda>_ s.
        and_then (update_request (current_send_request_ks s) (\<lambda>r. r\<lparr>sr_length := len\<rparr>) s) (\<lambda>_ s.
        and_then (update_request (current_send_request_ks s) (\<lambda>r. r\<lparr>sr_offset := 0\<rparr>) s) (\<lambda>_ s.
        let ev = (socket, EVFILT_WRITE, EV_ADD) in
        and_then (sys_kchange os (ks_kq s) [ev] 1 s) (\<lambda>rc s.
        and_then (check_ks err (rc = - 1) ''kevent'' s) (\<lambda>_ s.
        Ret 0 s)))))))))))))"

section \<open>Applications that act through the API\<close>

datatype ks_call =
    Ks_Send int "byte list"
  | Ks_Set slot ptr ptr

fun ks_set_cb :: "slot \<Rightarrow> callback \<Rightarrow> ks_state \<Rightarrow> ks_state" where
  "ks_set_cb Receive_Slot (cb, ud) = proactor_net_set_receive_callback cb ud"
| "ks_set_cb Sent_Slot (cb, ud) = proactor_net_set_send_complete_callback cb ud"
| "ks_set_cb Accept_Slot (cb, ud) = proactor_net_set_accept_callback cb ud"

primrec ks_get_cb :: "slot \<Rightarrow> ks_state \<Rightarrow> callback" where
  "ks_get_cb Receive_Slot s = (receive_callback_ks s, receive_callback_user_data_ks s)"
| "ks_get_cb Sent_Slot s = (send_complete_callback_ks s, send_complete_callback_user_data_ks s)"
| "ks_get_cb Accept_Slot s = (accept_callback_ks s, accept_callback_user_data_ks s)"

definition ks_send :: "ks_os \<Rightarrow> ks_err \<Rightarrow> int \<Rightarrow> byte list \<Rightarrow> int ks_run" where
  "ks_send os err socket d = proactor_net_send os err socket d (of_nat (length d))"

primrec do_ks_call :: "ks_os \<Rightarrow> ks_err \<Rightarrow> ks_call \<Rightarrow> unit ks_run" where
  "do_ks_call os err (Ks_Send fd d) s = and_then (ks_send os err fd d s) (\<lambda>_. Ret ())"
| "do_ks_call os err (Ks_Set i cb ud) s = Ret () (ks_set_cb i (cb, ud) s)"

definition ks_api_app ::
    "ks_os \<Rightarrow> ks_err \<Rightarrow> (ks_x posix_ev list \<Rightarrow> ks_x \<Rightarrow> ks_call list) \<Rightarrow> ks_app" where
  "ks_api_app os err script cb s = for_each (do_ks_call os err) (script (trace s) cb) s"

end
