(* ===== verification/Kevent_Statics_Theorems.thy ===== *)
theory Kevent_Statics_Theorems
  imports Kevent_Statics Message_Slot
begin

text \<open>
  The message slot of the kqueue back end keeps the contract \<open>send_slot\<close>, like the one of the
  epoll back end, and refines the outbox; its handlers hand over exactly what they read.
\<close>

section \<open>Frames and the invariant\<close>

lemma ks_emit [simp]:
  "ks_kq (emit e s) = ks_kq s" "receive_callback_ks (emit e s) = receive_callback_ks s"
  "send_complete_callback_ks (emit e s) = send_complete_callback_ks s"
  "accept_callback_ks (emit e s) = accept_callback_ks s"
  "receive_callback_user_data_ks (emit e s) = receive_callback_user_data_ks s"
  "send_complete_callback_user_data_ks (emit e s) = send_complete_callback_user_data_ks s"
  "accept_callback_user_data_ks (emit e s) = accept_callback_user_data_ks s"
  "current_send_request_ks (emit e s) = current_send_request_ks s"
  by (simp_all add: emit_def)

lemma ks_new_cell [simp]:
  "ks_kq (new_cell c s) = ks_kq s"
  "receive_callback_ks (new_cell c s) = receive_callback_ks s"
  "send_complete_callback_ks (new_cell c s) = send_complete_callback_ks s"
  "current_send_request_ks (new_cell c s) = current_send_request_ks s"
  by (simp_all add: new_cell_def)

lemmas ks_sys_defs = sys_defs sys_kchange_def check_ks_def
lemmas ks_setter_defs = proactor_net_set_receive_callback_def
  proactor_net_set_send_complete_callback_def proactor_net_set_accept_callback_def

text \<open>\<open>handle_error\<close> does not return.\<close>

definition err_exits :: "ks_err \<Rightarrow> bool" where
  "err_exits err \<longleftrightarrow> (\<forall>msg s. \<exists>c t. err msg s = Exit c t)"

lemma wp_err [simp]: "err_exits err \<Longrightarrow> wp (err msg s) Q (\<lambda>_ _. True)"
  unfolding err_exits_def by (metis wp.simps(2))

definition ks_inv :: "ks_os \<Rightarrow> ks_err \<Rightarrow> ks_state \<Rightarrow> bool" where
  "ks_inv os err s \<longleftrightarrow> posix_ok os \<and> err_exits err \<and> heap_bounded s \<and>
     slot_shape (current_send_request_ks s) (heap s)"

definition ks_pending :: "ks_state \<Rightarrow> byte list option" where
  "ks_pending s = slot_pending (current_send_request_ks s) (heap s)"

text \<open>The bytes written to any descriptor.\<close>

definition ks_delivered :: "ks_state \<Rightarrow> byte list" where
  "ks_delivered s = sent_stream (- 1) (trace s)"

definition ks_keeps :: "ks_state \<Rightarrow> ks_state \<Rightarrow> bool" where
  "ks_keeps s t \<longleftrightarrow>
     (current_send_request_ks s \<noteq> NULL \<longrightarrow>
        current_send_request_ks t = current_send_request_ks s \<and> heap t = heap s) \<and>
     ks_delivered t = ks_delivered s"

lemma ks_inv_emit [simp]: "ks_inv os err (emit e s) = ks_inv os err s"
  by (simp add: ks_inv_def)

lemma ks_keeps_refl [simp]: "ks_keeps s s"
  by (simp add: ks_keeps_def)

lemma ks_keeps_trans: "ks_keeps s t \<Longrightarrow> ks_keeps t u \<Longrightarrow> ks_keeps s u"
  by (auto simp: ks_keeps_def)

lemma ks_invD:
  assumes "ks_inv os err s"
  shows "posix_ok os" "err_exits err" "heap_bounded s"
    "slot_shape (current_send_request_ks s) (heap s)"
  using assms by (simp_all add: ks_inv_def)

lemma ks_inv_request:
  assumes "ks_inv os err s" and "current_send_request_ks s \<noteq> NULL"
  obtains r bs where "request_in (current_send_request_ks s) (heap s) r bs"
  using assms by (auto simp: ks_inv_def slot_shape_request)

lemma ks_pending_None_iff:
  "ks_inv os err s \<Longrightarrow> ks_pending s = None \<longleftrightarrow> current_send_request_ks s = NULL"
  by (simp add: ks_pending_def ks_inv_def slot_pending_None_iff)

section \<open>Sending\<close>

lemma send_busy_ks:
  "current_send_request_ks s \<noteq> NULL \<Longrightarrow> proactor_net_send os err fd d len s = Ret (- 1) s"
  by (simp add: proactor_net_send_def)

lemma send_free_ks:
  assumes inv: "ks_inv os err s" and free: "current_send_request_ks s = NULL"
    and len: "unat len \<le> length d"
  shows "wp (proactor_net_send os err fd d len s)
    (\<lambda>r t. r = 0 \<and> ks_inv os err t \<and> ks_pending t = Some (take (unat len) d) \<and>
       ks_delivered t = ks_delivered s)
    (\<lambda>_ _. True)"
proof -
  let ?p = "Suc (brk s)" and ?d = "Suc (Suc (brk s))"
  let ?r = "\<lparr>sr_data = ?d, sr_length = len, sr_offset = 0, sr_user_data = None\<rparr>"
  let ?h = "[?d \<mapsto> Bytes_Cell (take (unat len) d), ?p \<mapsto> Request_Cell ?r]"
  have heap: "heap s = Map.empty"
    using inv free by (simp add: ks_inv_def)
  have "request_in ?p ?h ?r (take (unat len) d)"
    using request_in_new [of ?p ?d len d None] len by (simp add: fun_upd_twist)
  then have shape: "slot_shape ?p ?h" "slot_pending ?p ?h = Some (take (unat len) d)"
    using slot_pending_request by (fastforce simp: slot_shape_def)+
  then show ?thesis
    using inv heap len ks_invD(2) [OF inv]
    by (simp add: proactor_net_send_def free sys_malloc_def ks_sys_defs request_defs
      sizeof_SendRequest_def blank_request_def ks_inv_def ks_pending_def ks_delivered_def
      heap_bounded_def emit_def new_cell_def)
qed

lemma ks_send_free:
  assumes "ks_inv os err s" and "ks_pending s = None" and "length d < 2 ^ 64"
  shows "wp (ks_send os err fd d s)
    (\<lambda>r t. r = 0 \<and> ks_inv os err t \<and> ks_pending t = Some d \<and> ks_delivered t = ks_delivered s)
    (\<lambda>_ _. True)"
proof -
  have len: "unat (of_nat (length d) :: size_t) = length d"
    using assms(3) by (simp add: unat_of_nat)
  have "current_send_request_ks s = NULL"
    using ks_pending_None_iff [OF assms(1)] assms(2) by simp
  from send_free_ks [OF assms(1) this, of "of_nat (length d)" d] show ?thesis
    unfolding ks_send_def len by (rule wp_mono) auto
qed

lemma ks_call_inv:
  assumes "ks_inv os err s"
  shows "wp (do_ks_call os err c s) (\<lambda>_ t. ks_inv os err t \<and> ks_keeps s t) (\<lambda>_ _. True)"
proof (cases c)
  case (Ks_Send fd d)
  have "unat (of_nat (length d) :: size_t) \<le> length d" by (simp add: unat_of_nat)
  then have "current_send_request_ks s = NULL \<Longrightarrow>
      wp (ks_send os err fd d s) (\<lambda>_ t. ks_inv os err t \<and> ks_keeps s t) (\<lambda>_ _. True)"
    unfolding ks_send_def
    by (intro wp_mono [OF send_free_ks [OF assms]]) (auto simp: ks_keeps_def)
  then show ?thesis
    using assms by (cases "current_send_request_ks s = NULL")
      (simp_all add: Ks_Send ks_send_def send_busy_ks)
next
  case (Ks_Set i cb ud)
  then show ?thesis
    using assms by (cases i)
      (simp_all add: ks_setter_defs ks_keeps_def ks_inv_def heap_bounded_def ks_delivered_def)
qed

lemma ks_api_inv:
  assumes "ks_inv os err s"
  shows "wp (ks_api_app os err script cb s) (\<lambda>_ t. ks_inv os err t \<and> ks_keeps s t) (\<lambda>_ _. True)"
  unfolding ks_api_app_def
proof (rule wp_for_each)
  fix c t assume "ks_inv os err t \<and> ks_keeps s t"
  then show "wp (do_ks_call os err c t) (\<lambda>_ u. ks_inv os err u \<and> ks_keeps s u) (\<lambda>_ _. True)"
    using ks_call_inv [of os err t c] by (auto elim!: wp_mono intro: ks_keeps_trans)
qed (use assms in simp)

section \<open>The shared write handler\<close>

definition ks_good :: "ks_os \<Rightarrow> ks_err \<Rightarrow> ks_state \<Rightarrow> bool" where
  "ks_good os err s \<longleftrightarrow> posix_ok os \<and> err_exits err"

definition ks_complete :: "ks_app \<Rightarrow> int \<Rightarrow> unit ks_run" where
  "ks_complete app fd s =
     (if send_complete_callback_ks s \<noteq> NULL
      then call_ks app (CbSent_ks (send_complete_callback_ks s) fd
             (send_complete_callback_user_data_ks s)) s
      else Ret () s)"

lemma ks_inv_slot: "ks_inv os err = slot_inv (ks_good os err) current_send_request_ks"
  by (auto simp: fun_eq_iff ks_inv_def slot_inv_def ks_good_def)

lemma ks_keeps_slot: "ks_keeps = slot_keeps (- 1) current_send_request_ks"
  by (simp add: fun_eq_iff ks_keeps_def slot_keeps_def ks_delivered_def)

lemma ks_pending_slot: "ks_pending = slot_out current_send_request_ks"
  by (simp add: fun_eq_iff ks_pending_def slot_out_def)

lemma handle_write_event_ks_slot:
  "handle_write_event_ks os app = write_slot os current_send_request_ks
     (\<lambda>s. s\<lparr>current_send_request_ks := NULL\<rparr>) (ks_complete app)"
  by (intro ext) (unfold handle_write_event_ks_def write_slot_def ks_complete_def, rule refl)

section \<open>The contract with the application\<close>

locale ks_application =
  fixes os :: ks_os and err :: ks_err and app :: ks_app
  assumes app_inv: "ks_inv os err s \<Longrightarrow>
    wp (app cb s) (\<lambda>_ t. ks_inv os err t \<and> ks_keeps s t) (\<lambda>_ _. True)"
begin

lemma call_ks_inv:
  "ks_inv os err s \<Longrightarrow>
     wp (call_ks app cb s) (\<lambda>_ t. ks_inv os err t \<and> ks_keeps s t) (\<lambda>_ _. True)"
  using app_inv [of "emit (EvExt cb) s" cb]
  by (simp add: call_ks_def ks_keeps_def ks_delivered_def)

lemma ks_complete_inv:
  "ks_inv os err s \<Longrightarrow>
     wp (ks_complete app fd s) (\<lambda>_ t. ks_inv os err t \<and> ks_keeps s t) (\<lambda>_ _. True)"
  using call_ks_inv by (simp add: ks_complete_def)

end

sublocale ks_application \<subseteq> ks_write: message_slot os "ks_good os err" current_send_request_ks
    "\<lambda>s. s\<lparr>current_send_request_ks := NULL\<rparr>" "ks_complete app" "- 1"
  by unfold_locales
    (use ks_complete_inv in \<open>simp_all add: ks_good_def ks_inv_slot ks_keeps_slot\<close>)

context ks_application
begin

lemma ks_write_idle:
  "current_send_request_ks s = NULL \<Longrightarrow> handle_write_event_ks os app fd s = Ret () s"
  by (simp add: handle_write_event_ks_slot ks_write.write_idle)

lemmas ks_write_pending = ks_write.write_pending [folded ks_inv_slot ks_pending_slot
    handle_write_event_ks_slot]
lemmas ks_write_law = ks_write.write_law [folded ks_inv_slot ks_pending_slot
    handle_write_event_ks_slot]
lemmas ks_write_steady = ks_write.write_steady [folded ks_inv_slot ks_pending_slot
    handle_write_event_ks_slot]

lemma ks_write_inv:
  assumes "ks_inv os err s"
  shows "wp (handle_write_event_ks os app fd s) (\<lambda>_ t. ks_inv os err t) (\<lambda>_ _. True)"
proof (cases "ks_pending s")
  case None
  then show ?thesis using assms by (simp add: ks_write_idle ks_pending_None_iff)
next
  case (Some p)
  show ?thesis by (rule wp_mono [OF ks_write_pending [OF assms Some]]) auto
qed

end

interpretation ks_api: ks_application os err "ks_api_app os err script" for os err script
  by unfold_locales (rule ks_api_inv)

interpretation ks_slot: send_slot "ks_inv os err" ks_pending ks_delivered "ks_send os err sock"
    "handle_write_event_ks os (ks_api_app os err script)" "- 1" for os err sock script
proof unfold_locales
  fix s bs and d :: "byte list" assume "ks_inv os err s" and "ks_pending s = Some bs"
  then show "ks_send os err sock d s = Ret (- 1) s"
    using ks_pending_None_iff by (fastforce simp: ks_send_def send_busy_ks)
next
  fix s and d :: "byte list"
  assume "ks_inv os err s" and "ks_pending s = None" and "length d < 2 ^ 64"
  then show "wp (ks_send os err sock d s)
      (\<lambda>r t. r = 0 \<and> ks_inv os err t \<and> ks_pending t = Some d \<and>
        ks_delivered t = ks_delivered s) (\<lambda>_ _. True)"
    by (rule ks_send_free)
next
  fix s and fd :: int assume "ks_inv os err s" and "ks_pending s = None"
  then show "handle_write_event_ks os (ks_api_app os err script) fd s = Ret () s"
    by (simp add: ks_api.ks_write_idle ks_pending_None_iff)
next
  fix s bs and fd :: int assume "ks_inv os err s" and "ks_pending s = Some bs" and "fd \<noteq> - 1"
  then show "wp (handle_write_event_ks os (ks_api_app os err script) fd s)
      (\<lambda>_ t. ks_inv os err t \<and> (\<exists>k \<le> length bs.
        ks_delivered t = ks_delivered s @ take k bs \<and>
        ((k < length bs \<or> k = 0) \<and> ks_pending t = Some (drop k bs) \<or>
          k = length bs \<and> ks_pending t = None)))
      (\<lambda>_ _. True)"
    unfolding ks_delivered_def by (rule ks_api.ks_write_law)
qed

interpretation ks_steady: steady_send_slot "ks_inv os err" ks_pending ks_delivered
    "ks_send os err sock" "handle_write_event_ks os (ks_api_app os err script)" "- 1"
    "steady_writes peer os" peer
  for os err sock script peer
proof unfold_locales
  fix s fd bs assume "steady_writes peer os" and "ks_inv os err s"
  then show "peer fd bs \<le> int (length bs)" by (blast intro: steady_peer_bound dest: ks_invD(1))
next
  fix s bs and fd :: int
  assume "steady_writes peer os" and "ks_inv os err s" and "ks_pending s = Some bs"
    and "fd \<noteq> - 1"
  then show "wp (handle_write_event_ks os (ks_api_app os err script) fd s)
      (\<lambda>_ t. ks_inv os err t \<and>
        ks_delivered t = ks_delivered s @ take (nat (peer fd bs)) bs \<and>
        ks_pending t = (if peer fd bs = int (length bs) then None
          else Some (drop (nat (peer fd bs)) bs)))
      (\<lambda>_ _. True)"
    unfolding ks_delivered_def by (intro ks_api.ks_write_steady)
qed

lemma ks_get_set: "ks_get_cb i (ks_set_cb j c s) = (if i = j then c else ks_get_cb i s)"
  by (cases i; cases j; cases c) (simp_all add: ks_setter_defs)

definition ks_others ::
    "ks_state \<Rightarrow> ks_x posix_ev list \<times> (ptr \<Rightarrow> send_cell option) \<times> ptr \<times> int \<times> ptr" where
  "ks_others s = (trace s, heap s, brk s, ks_kq s, current_send_request_ks s)"

lemma ks_others_set: "ks_others (ks_set_cb j c s) = ks_others s"
  by (cases j; cases c) (simp_all add: ks_setter_defs ks_others_def)

interpretation ks_callbacks: callback_slots ks_set_cb ks_get_cb ks_others
  by unfold_locales (simp_all add: ks_get_set ks_others_set)

section \<open>Reachable states\<close>

text \<open>Nothing registered and nothing in flight; the queue is whatever the variable holds.\<close>

definition ks_initial :: "int \<Rightarrow> ks_state" where
  "ks_initial kq = \<lparr>trace = [], heap = Map.empty, brk = 0, ks_kq = kq,
     receive_callback_ks = NULL, send_complete_callback_ks = NULL, accept_callback_ks = NULL,
     receive_callback_user_data_ks = NULL, send_complete_callback_user_data_ks = NULL,
     accept_callback_user_data_ks = NULL, current_send_request_ks = NULL\<rparr>"

inductive ks_reachable ::
    "ks_os \<Rightarrow> ks_err \<Rightarrow> (ks_x posix_ev list \<Rightarrow> ks_x \<Rightarrow> ks_call list) \<Rightarrow> ks_state \<Rightarrow> bool"
    for os err script where
  ks_start: "ks_reachable os err script (ks_initial kq)"
| ks_call: "ks_reachable os err script s \<Longrightarrow> do_ks_call os err c s = Ret () t \<Longrightarrow>
    ks_reachable os err script t"
| ks_data: "ks_reachable os err script s \<Longrightarrow>
    handle_data_event_ks os err (ks_api_app os err script) fd s = Ret () t \<Longrightarrow>
    ks_reachable os err script t"
| ks_writable: "ks_reachable os err script s \<Longrightarrow>
    handle_write_event_ks os (ks_api_app os err script) fd s = Ret () t \<Longrightarrow>
    ks_reachable os err script t"

lemma ks_data_event_cases:
  assumes "posix_ok os"
  shows "handle_data_event_ks os err app fd s =
    (case os_read os (trace s) fd (os_BUFFER_SIZE os) of
       None \<Rightarrow> Fault Out_Of_Bounds
     | Some bs \<Rightarrow>
         let t = emit (EvRead fd (os_BUFFER_SIZE os) (Some bs)) s in
         if bs = [] then Fault Out_Of_Bounds
         else if receive_callback_ks s = NULL then Ret () t
         else call_ks app (CbReceive_ks (receive_callback_ks s) fd bs
                (receive_callback_user_data_ks s)) t)"
  using posix_okD(1) [OF assms, of "trace s" fd "os_BUFFER_SIZE os"]
  by (auto simp: handle_data_event_ks_def ks_sys_defs split: option.split)

lemma ks_data_inv:
  assumes inv: "ks_inv os err s"
    and run: "handle_data_event_ks os err (ks_api_app os err script) fd s = Ret () t"
  shows "ks_inv os err t"
proof -
  let ?e = "EvRead fd (os_BUFFER_SIZE os) (os_read os (trace s) fd (os_BUFFER_SIZE os))"
  have "ks_inv os err u" if "call_ks (ks_api_app os err script) cb (emit ?e s) = Ret () u" for cb u
    using ks_api.call_ks_inv [of os err "emit ?e s" script cb] inv that by simp
  then show ?thesis
    using inv run
    by (auto simp: ks_data_event_cases [OF ks_invD(1) [OF inv]] Let_def
        split: option.splits if_splits)
qed

lemma ks_reachable_inv:
  assumes "ks_reachable os err script s" and "posix_ok os" and "err_exits err"
  shows "ks_inv os err s"
  using assms(1)
proof (induction rule: ks_reachable.induct)
  case (ks_start kq)
  then show ?case using assms(2,3) by (simp add: ks_inv_def ks_initial_def heap_bounded_def)
next
  case (ks_call s c t)
  then show ?case using ks_call_inv [of os err s c] by simp
next
  case (ks_data s fd t)
  then show ?case by (blast intro: ks_data_inv)
next
  case (ks_writable s fd t)
  then show ?case using ks_api.ks_write_inv [of os err s script fd] by simp
qed

section \<open>Properties\<close>

definition ks_outbox :: "ks_state \<Rightarrow> outbox" where
  "ks_outbox s = \<lparr>ob_pending = ks_pending s, ob_sent = ks_delivered s\<rparr>"

text \<open>
  Claim C16. Refinement: any interleaving of sends and write events on the statics of the kqueue back end
  commits no access error, and there is a run of the outbox, one event per operation, that gives
  the same answers and ends in the outbox that the state stands for.
\<close>

theorem ks_refines_outbox:
  assumes "posix_ok os" and "err_exits err" and "ks_reachable os err script s"
    and "list_all (slot_op_ok (- 1)) ops"
  shows "wp (slot_codes (ks_send os err sock)
      (handle_write_event_ks os (ks_api_app os err script)) ops s)
    (\<lambda>rs t. \<exists>es. list_all2 event_of ops es \<and>
       outbox_run es (ks_outbox s) = (rs, ks_outbox t)) (\<lambda>_ _. True)"
  using ks_slot.run_refines [OF ks_reachable_inv [OF assms(3,1,2)] assms(4), of sock script]
  by (rule wp_mono) (simp_all add: ks_slot.box_def ks_outbox_def)

section \<open>Incoming data\<close>

text \<open>The bytes read from a descriptor, and those handed to the receive callback for it.\<close>

fun ks_read_by :: "int \<Rightarrow> ks_x posix_ev \<Rightarrow> byte list" where
  "ks_read_by fd (EvRead f n r) = (if f = fd then outstanding r else [])"
| "ks_read_by fd e = []"

fun ks_handed_by :: "int \<Rightarrow> ks_x posix_ev \<Rightarrow> byte list" where
  "ks_handed_by fd (EvExt (CbReceive_ks cb f bs ud)) = (if f = fd then bs else [])"
| "ks_handed_by fd e = []"

definition ks_read_stream :: "int \<Rightarrow> ks_x posix_ev list \<Rightarrow> byte list" where
  "ks_read_stream fd es = concat (map (ks_read_by fd) es)"

definition ks_handed_stream :: "int \<Rightarrow> ks_x posix_ev list \<Rightarrow> byte list" where
  "ks_handed_stream fd es = concat (map (ks_handed_by fd) es)"

lemma ks_stream_simps [simp]:
  "ks_read_stream fd [] = []" "ks_handed_stream fd [] = []"
  "ks_read_stream fd (es @ fs) = ks_read_stream fd es @ ks_read_stream fd fs"
  "ks_handed_stream fd (es @ fs) = ks_handed_stream fd es @ ks_handed_stream fd fs"
  "ks_read_stream fd (e # es) = ks_read_by fd e @ ks_read_stream fd es"
  "ks_handed_stream fd (e # es) = ks_handed_by fd e @ ks_handed_stream fd es"
  by (simp_all add: ks_read_stream_def ks_handed_stream_def)

text \<open>An event that is a read finds some bytes.\<close>

fun finds_bytes :: "ks_x posix_ev \<Rightarrow> bool" where
  "finds_bytes (EvRead f n r) = (outstanding r \<noteq> [])"
| "finds_bytes e = True"

text \<open>A step that hands over what it reads; the receive callback stays installed.\<close>

definition ks_exact :: "ks_x posix_ev list \<Rightarrow> bool" where
  "ks_exact es \<longleftrightarrow> (\<forall>fd. ks_handed_stream fd es = ks_read_stream fd es) \<and> list_all finds_bytes es"

definition ks_input :: "ks_state \<Rightarrow> ks_state \<Rightarrow> bool" where
  "ks_input s t \<longleftrightarrow> receive_callback_ks t \<noteq> NULL \<and> (\<exists>es. trace t = trace s @ es \<and> ks_exact es)"

fun ks_neutral :: "ks_x posix_ev \<Rightarrow> bool" where
  "ks_neutral (EvRead f n r) = False"
| "ks_neutral (EvExt (CbReceive_ks cb f bs ud)) = False"
| "ks_neutral e = True"

lemma ks_exact_neutral: "ks_neutral e \<Longrightarrow> ks_exact [e]"
  by (cases e rule: ks_neutral.cases) (simp_all add: ks_exact_def)

lemma ks_exact_append: "ks_exact es \<Longrightarrow> ks_exact fs \<Longrightarrow> ks_exact (es @ fs)"
  by (auto simp: ks_exact_def)

lemma ks_input_refl: "receive_callback_ks s \<noteq> NULL \<Longrightarrow> ks_input s s"
  by (auto simp: ks_input_def ks_exact_def)

lemma ks_input_trans:
  assumes "ks_input s t" and "ks_input t u"
  shows "ks_input s u"
proof -
  obtain es fs where "trace u = trace s @ (es @ fs)" "ks_exact es" "ks_exact fs"
    using assms by (auto simp: ks_input_def)
  then show ?thesis using assms(2) ks_exact_append unfolding ks_input_def by blast
qed

lemma ks_input_emit: "ks_input s t \<Longrightarrow> ks_neutral e \<Longrightarrow> ks_input s (emit e t)"
  using ks_exact_append [OF _ ks_exact_neutral] by (fastforce simp: ks_input_def)

lemma ks_input_upd [simp]:
  "ks_input s (t\<lparr>heap := h\<rparr>) = ks_input s t"
  "ks_input s (t\<lparr>current_send_request_ks := q\<rparr>) = ks_input s t"
  "ks_input s (new_cell c t) = ks_input s t"
  by (simp_all add: ks_input_def)

fun ks_keeps_receive :: "ks_call \<Rightarrow> bool" where
  "ks_keeps_receive (Ks_Set Receive_Slot cb ud) = (cb \<noteq> NULL)"
| "ks_keeps_receive c = True"

definition ks_uses ::
    "(ks_call \<Rightarrow> bool) \<Rightarrow> (ks_x posix_ev list \<Rightarrow> ks_x \<Rightarrow> ks_call list) \<Rightarrow> bool" where
  "ks_uses A script \<longleftrightarrow> (\<forall>h cb. list_all A (script h cb))"

lemma wlp_err: "err_exits err \<Longrightarrow> wlp (err msg s) Q"
  unfolding err_exits_def by (metis wlp.simps(2))

lemma do_ks_call_input:
  assumes err: "err_exits err" and t: "ks_input s t" and c: "ks_keeps_receive c"
  shows "wlp (do_ks_call os err c t) (\<lambda>_. ks_input s)"
proof (cases c)
  case (Ks_Send fd d)
  then show ?thesis
    using t by (auto simp: ks_send_def proactor_net_send_def sys_malloc_def ks_sys_defs
        intro!: wlp_request_intros wlp_err [OF err] ks_input_emit)
next
  case (Ks_Set i cb ud)
  then show ?thesis
    using t c by (cases i) (simp_all add: ks_setter_defs ks_input_def)
qed

lemma call_ks_input:
  assumes "err_exits err" and "ks_uses ks_keeps_receive script"
    and t: "ks_input s (emit (EvExt cb) t)"
  shows "wlp (call_ks (ks_api_app os err script) cb t) (\<lambda>_. ks_input s)"
  unfolding call_ks_def ks_api_app_def
  by (rule wlp_for_each)
    (use assms do_ks_call_input in \<open>auto simp: ks_uses_def list_all_iff\<close>)

lemma ks_data_input:
  assumes ok: "posix_ok os" and err: "err_exits err" and app: "ks_uses ks_keeps_receive script"
    and t: "ks_input s t"
  shows "wlp (handle_data_event_ks os err (ks_api_app os err script) fd t) (\<lambda>_. ks_input s)"
proof -
  let ?n = "os_BUFFER_SIZE os"
  let ?cb = "\<lambda>bs. CbReceive_ks (receive_callback_ks t) fd bs (receive_callback_user_data_ks t)"
  have cb: "receive_callback_ks t \<noteq> NULL" using t by (simp add: ks_input_def)
  have call: "wlp (call_ks (ks_api_app os err script) (?cb bs) (emit (EvRead fd ?n (Some bs)) t))
      (\<lambda>_. ks_input s)" if "bs \<noteq> []" for bs
  proof (rule call_ks_input [OF err app])
    have "ks_exact [EvRead fd ?n (Some bs), EvExt (?cb bs)]"
      using that by (simp add: ks_exact_def outstanding_def)
    then have "ks_input t (emit (EvExt (?cb bs)) (emit (EvRead fd ?n (Some bs)) t))"
      using cb unfolding ks_input_def by simp
    with t show "ks_input s (emit (EvExt (?cb bs)) (emit (EvRead fd ?n (Some bs)) t))"
      by (rule ks_input_trans)
  qed
  then show ?thesis
    using cb by (auto simp: ks_data_event_cases [OF ok] Let_def split: option.split)
qed

lemma ks_write_input:
  assumes err: "err_exits err" and app: "ks_uses ks_keeps_receive script" and t: "ks_input s t"
  shows "wlp (handle_write_event_ks os (ks_api_app os err script) fd t) (\<lambda>_. ks_input s)"
proof -
  have finish: "wlp
      (and_then
        (if send_complete_callback_ks u \<noteq> NULL
         then call_ks (ks_api_app os err script) (CbSent_ks (send_complete_callback_ks u) fd
                (send_complete_callback_user_data_ks u)) u
         else Ret () u) (\<lambda>_ s.
       and_then (load_request (current_send_request_ks s) s) (\<lambda>r s.
       and_then (sys_free (sr_data r) s) (\<lambda>_ s.
       and_then (sys_free (current_send_request_ks s) s) (\<lambda>_ s.
       Ret () (s\<lparr>current_send_request_ks := NULL\<rparr>))))))
      (\<lambda>_. ks_input s)" if u: "ks_input s u" for u
    by (rule wlp_seq [where Q = "\<lambda>_. ks_input s"])
      (use u in \<open>auto intro!: call_ks_input [OF err app] wlp_request_intros ks_input_emit\<close>)
  show ?thesis
    unfolding handle_write_event_ks_def sys_write_def Let_def and_then.simps
    by (intro wlp_ifI wlp_request_seqs finish)
      (use t in \<open>simp_all add: ks_input_emit\<close>)
qed

text \<open>What the program may do with the statics: API calls, and the two handlers.\<close>

datatype ks_action = Ks_Do ks_call | Ks_Data int | Ks_Writable int

primrec do_ks_action ::
    "ks_os \<Rightarrow> ks_err \<Rightarrow> (ks_x posix_ev list \<Rightarrow> ks_x \<Rightarrow> ks_call list) \<Rightarrow> ks_action \<Rightarrow>
     unit ks_run" where
  "do_ks_action os err script (Ks_Do c) s = do_ks_call os err c s"
| "do_ks_action os err script (Ks_Data fd) s =
     handle_data_event_ks os err (ks_api_app os err script) fd s"
| "do_ks_action os err script (Ks_Writable fd) s =
     handle_write_event_ks os (ks_api_app os err script) fd s"

fun ks_action_keeps :: "ks_action \<Rightarrow> bool" where
  "ks_action_keeps (Ks_Do c) = ks_keeps_receive c"
| "ks_action_keeps x = True"

lemma action_input:
  assumes "posix_ok os" and "err_exits err" and "ks_uses ks_keeps_receive script"
    and "ks_action_keeps x" and "ks_input s t"
  shows "wlp (do_ks_action os err script x t) (\<lambda>_. ks_input s)"
  using assms do_ks_call_input ks_data_input ks_write_input by (cases x) auto

text \<open>If no read comes to nothing, the handlers commit no access error.\<close>

lemma action_live:
  assumes inv: "ks_inv os err s"
    and live: "\<And>h fd. outstanding (os_read os h fd (os_BUFFER_SIZE os)) \<noteq> []"
  shows "wp (do_ks_action os err script x s) (\<lambda>_ t. ks_inv os err t) (\<lambda>_ _. True)"
proof (cases x)
  case (Ks_Do c)
  then show ?thesis using ks_call_inv [OF inv, of c] by (auto elim: wp_mono)
next
  case (Ks_Data fd)
  obtain bs where bs: "os_read os (trace s) fd (os_BUFFER_SIZE os) = Some bs" "bs \<noteq> []"
    using live [of "trace s" fd] by (auto simp: outstanding_def split: option.splits)
  let ?e = "EvRead fd (os_BUFFER_SIZE os) (Some bs)"
  have "wp (call_ks (ks_api_app os err script) cb (emit ?e s)) (\<lambda>_ t. ks_inv os err t) (\<lambda>_ _. True)"
    for cb
    by (rule wp_mono [OF ks_api.call_ks_inv]) (use inv in auto)
  then show ?thesis
    using bs inv by (auto simp: Ks_Data ks_data_event_cases [OF ks_invD(1) [OF inv]] Let_def)
next
  case (Ks_Writable fd)
  then show ?thesis using ks_api.ks_write_inv [OF inv, of script fd] by simp
qed

text \<open>
  Claim C26. Input: while a receive callback is installed, over any sequence of events and API
  calls on the statics of the kqueue back end, whatever the callbacks do apart from removing the
  receive callback, exactly the bytes read are handed over, descriptor by descriptor and in order;
  and a run goes on only as long as every read finds bytes. Then there is no access error; the end
  of a connection or a failed read, however, makes \<open>kevent\<close> read a second change behind the only
  one there is.
\<close>

theorem ks_input_exact:
  assumes "posix_ok os" and "err_exits err" and "ks_reachable os err script s"
    and "receive_callback_ks s \<noteq> NULL" and "ks_uses ks_keeps_receive script"
    and "list_all ks_action_keeps actions"
  shows "wlp (for_each (do_ks_action os err script) actions s)
      (\<lambda>_ t. \<exists>es. trace t = trace s @ es \<and> list_all finds_bytes es \<and>
         (\<forall>fd. ks_handed_stream fd es = ks_read_stream fd es)) \<and>
    ((\<forall>h fd. outstanding (os_read os h fd (os_BUFFER_SIZE os)) \<noteq> []) \<longrightarrow>
       (\<forall>f. for_each (do_ks_action os err script) actions s \<noteq> Fault f))"
proof (intro conjI impI allI)
  have "wlp (for_each (do_ks_action os err script) actions s) (\<lambda>_. ks_input s)"
    by (rule wlp_for_each)
      (use assms in \<open>auto simp: list_all_iff intro!: action_input ks_input_refl\<close>)
  then show "wlp (for_each (do_ks_action os err script) actions s)
      (\<lambda>_ t. \<exists>es. trace t = trace s @ es \<and> list_all finds_bytes es \<and>
         (\<forall>fd. ks_handed_stream fd es = ks_read_stream fd es))"
    by (rule wlp_mono) (auto simp: ks_input_def ks_exact_def)
next
  fix f assume live: "\<forall>h fd. outstanding (os_read os h fd (os_BUFFER_SIZE os)) \<noteq> []"
  have "ks_inv os err s" using assms(1-3) by (intro ks_reachable_inv)
  then have "wp (for_each (do_ks_action os err script) actions s) (\<lambda>_ t. ks_inv os err t) (\<lambda>_ _. True)"
    using live by (intro wp_for_each) (auto intro: action_live)
  then show "for_each (do_ks_action os err script) actions s \<noteq> Fault f" by (rule wp_not_Fault)
qed

text \<open>
  A small system: reads deliver two bytes from descriptor 6 and the end of the file from all
  others, writes accept at most two bytes.
\<close>

definition ks_demo_os :: ks_os where
  "ks_demo_os = \<lparr>
     os_read = (\<lambda>h fd n. Some (if fd = 6 then take n [1, 2] else [])),
     os_write = (\<lambda>h fd bs. min 2 (int (length bs))),
     os_pipe = (\<lambda>h. Some (4, 5)),
     os_socket = (\<lambda>h. 6),
     os_bind = (\<lambda>h fd a. 0),
     os_listen = (\<lambda>h fd n. 0),
     os_connect = (\<lambda>h fd a. 0),
     os_accept = (\<lambda>h fd. 7),
     os_inet_pton = (\<lambda>a. Some 0x7F000001),
     os_malloc = (\<lambda>h n. True),
     os_kchange = (\<lambda>h kq cs. 0),
     os_BUFFER_SIZE = 8192\<rparr>"

definition ks_demo_ops :: "slot_op list" where
  "ks_demo_ops = [Send_Op [1, 2, 3], Writable_Op 6, Send_Op [9], Writable_Op 6, Send_Op [4]]"

abbreviation ks_demo_app :: ks_app where
  "ks_demo_app \<equiv> ks_api_app ks_demo_os handle_error (\<lambda>h cb. [])"

definition ks_demo_after :: ks_state where
  "ks_demo_after = (case slot_codes (ks_send ks_demo_os handle_error 6)
     (handle_write_event_ks ks_demo_os ks_demo_app) ks_demo_ops (ks_initial 3) of
     Ret _ t \<Rightarrow> t | _ \<Rightarrow> ks_initial 3)"

lemma ks_demo_ok: "posix_ok ks_demo_os" "err_exits handle_error"
  by (auto simp: posix_ok_def ks_demo_os_def err_exits_def handle_error_def)

lemma ks_demo_codes:
  "slot_codes (ks_send ks_demo_os handle_error 6) (handle_write_event_ks ks_demo_os ks_demo_app)
     ks_demo_ops (ks_initial 3) = Ret [0, 0, - 1, 0, 0] ks_demo_after"
  by (simp add: ks_demo_after_def ks_demo_ops_def ks_send_def proactor_net_send_def
      handle_write_event_ks_def sys_malloc_def sys_free_def ks_sys_defs request_defs
      sizeof_SendRequest_def blank_request_def ks_initial_def ks_demo_os_def)

theorem ks_refines_outbox_witness:
  "\<exists>es. list_all2 event_of ks_demo_ops es \<and>
     outbox_run es (ks_outbox (ks_initial 3)) = ([0, 0, - 1, 0, 0], ks_outbox ks_demo_after)"
proof -
  have "list_all (slot_op_ok (- 1)) ks_demo_ops" by (simp add: ks_demo_ops_def)
  then show ?thesis
    using ks_refines_outbox [OF ks_demo_ok ks_start, of ks_demo_ops 6 "\<lambda>h cb. []" 3] ks_demo_codes
    by simp
qed

definition ks_live_os :: ks_os where
  "ks_live_os = ks_demo_os\<lparr>os_read := (\<lambda>h fd n. Some (take n [1, 2]))\<rparr>"

definition ks_echo_script :: "ks_x posix_ev list \<Rightarrow> ks_x \<Rightarrow> ks_call list" where
  "ks_echo_script h cb = (case cb of CbReceive_ks _ fd bs _ \<Rightarrow> [Ks_Send fd bs] | _ \<Rightarrow> [])"

definition ks_listening :: ks_state where
  "ks_listening = proactor_net_set_receive_callback 900 901 (ks_initial 3)"

definition ks_echoed :: ks_state where
  "ks_echoed = (case for_each (do_ks_action ks_live_os handle_error ks_echo_script)
     [Ks_Data 6, Ks_Writable 6, Ks_Data 7] ks_listening of Ret _ t \<Rightarrow> t | _ \<Rightarrow> ks_initial 3)"

lemma ks_echo_run:
  "for_each (do_ks_action ks_live_os handle_error ks_echo_script)
     [Ks_Data 6, Ks_Writable 6, Ks_Data 7] ks_listening = Ret () ks_echoed"
  by (simp add: ks_echoed_def ks_listening_def handle_data_event_ks_def call_ks_def
      ks_api_app_def ks_echo_script_def ks_setter_defs ks_send_def proactor_net_send_def
      handle_write_event_ks_def sys_malloc_def sys_free_def ks_sys_defs request_defs
      sizeof_SendRequest_def blank_request_def ks_initial_def ks_live_os_def ks_demo_os_def)

lemma ks_echo_reachable: "ks_reachable ks_live_os handle_error ks_echo_script ks_listening"
  by (rule ks_call [OF ks_start [where kq = 3], where c = "Ks_Set Receive_Slot 900 901"])
    (simp add: ks_listening_def)

theorem ks_input_exact_witness:
  "\<exists>es. trace ks_echoed = trace ks_listening @ es \<and> list_all finds_bytes es \<and>
     (\<forall>fd. ks_handed_stream fd es = ks_read_stream fd es)"
proof -
  have "posix_ok ks_live_os"
    by (auto simp: posix_ok_def ks_live_os_def ks_demo_os_def)
  moreover have "ks_uses ks_keeps_receive ks_echo_script"
    by (simp add: ks_uses_def ks_echo_script_def split: ks_x.split)
  ultimately show ?thesis
    using ks_input_exact [OF _ ks_demo_ok(2) ks_echo_reachable, of "[Ks_Data 6, Ks_Writable 6, Ks_Data 7]"]
      ks_echo_run
    by (simp add: ks_listening_def ks_setter_defs del: for_each.simps)
qed

end
