(* ===== verification/Iocp.thy ===== *)
theory Iocp
  imports Interfaces
begin

text \<open>
  The back end for Windows, \<open>src/util/proactor_net_iocp.c\<close>: its static variables as a record over
  the machine, and every function of the file; names that other back ends use too have the
  suffix \<open>_io\<close>. The static \<open>completion_port\<close> is never used and left out. Sockets and handles are
  integers, \<open>INVALID_SOCKET\<close> stands for the value with all bits set.
\<close>

section \<open>System calls\<close>

definition SOCKET_ERROR :: int where
  "SOCKET_ERROR = - 1"

definition WSA_IO_PENDING :: int where
  "WSA_IO_PENDING = 997"

definition BUFFER_SIZE_IO :: nat where
  "BUFFER_SIZE_IO = 8192"

definition MAX_PENDING_CONNECTIONS :: int where
  "MAX_PENDING_CONNECTIONS = 10"

text \<open>
  The calls of the Windows API and the callbacks. The event of an overlapped call has the socket,
  the address of the operation, the length of its buffer, and the result; the \<open>OVERLAPPED\<close>
  structure that is passed is never initialised.
\<close>

datatype io_x =
    EvWSAStartup int
  | EvWSACleanup
  | EvCreatePort int int int int
  | EvCloseHandle int
  | EvWSARecv int ptr nat "int \<times> byte list"
  | EvWSASend int ptr "byte list" int
  | EvLastError int
  | EvGetStatus int "(nat \<times> int \<times> ptr) option"
  | CbReceive_io ptr int "byte list" ptr
  | CbSent_io ptr int ptr
  | CbAccept_io ptr int int ptr

type_synonym io_trace = "io_x posix_ev list"

text \<open>
  \<open>os_WSARecv\<close> gives the result and the bytes stored in the buffer before the call returns,
  \<open>os_GetQueuedCompletionStatus\<close> the number of bytes, the key and the address of the operation,
  or \<open>None\<close> if it fails.
\<close>

record io_os = "io_x posix" +
  os_WSAStartup :: "io_trace \<Rightarrow> int"
  os_CreateIoCompletionPort :: "io_trace \<Rightarrow> int \<Rightarrow> int \<Rightarrow> int \<Rightarrow> int"
  os_WSARecv :: "io_trace \<Rightarrow> int \<Rightarrow> ptr \<Rightarrow> nat \<Rightarrow> int \<times> byte list"
  os_WSASend :: "io_trace \<Rightarrow> int \<Rightarrow> ptr \<Rightarrow> byte list \<Rightarrow> int"
  os_WSAGetLastError :: "io_trace \<Rightarrow> int"
  os_GetQueuedCompletionStatus :: "io_trace \<Rightarrow> int \<Rightarrow> (nat \<times> int \<times> ptr) option"

text \<open>The documented bound: no more bytes are received than the buffer holds.\<close>

definition io_ok :: "io_os \<Rightarrow> bool" where
  "io_ok os \<longleftrightarrow> (\<forall>h sk q n r bs. os_WSARecv os h sk q n = (r, bs) \<longrightarrow> length bs \<le> n)"

section \<open>State\<close>

text \<open>
  An \<open>IO_OPERATION\<close>: the buffer descriptor points to its own buffer or to the data of the caller
  (here the bytes themselves). The members \<open>overlapped\<close> and \<open>user_data\<close> are never assigned.
\<close>

datatype io_buf = Own_Buffer | Caller_Data "byte list"

record IO_OPERATION =
  io_wsabuf_buf :: "io_buf option"
  io_wsabuf_len :: u32
  io_buffer :: "byte list option"

definition sizeof_IO_OPERATION :: nat where
  "sizeof_IO_OPERATION = 8248"

definition blank_operation :: IO_OPERATION where
  "blank_operation = \<lparr>io_wsabuf_buf = None, io_wsabuf_len = 0, io_buffer = None\<rparr>"

record io_state = "(io_x posix_ev, IO_OPERATION) mach" +
  iocp :: int
  server_socket_io :: int
  client_socket_io :: int
  stop_io :: int
  receive_callback_io :: ptr
  send_complete_callback_io :: ptr
  accept_callback_io :: ptr
  receive_callback_user_data_io :: ptr
  send_complete_callback_user_data_io :: ptr
  accept_callback_user_data_io :: ptr

definition io_initial :: io_state where
  "io_initial = \<lparr>trace = [], heap = Map.empty, brk = 0, iocp = 0,
     server_socket_io = INVALID_SOCKET, client_socket_io = INVALID_SOCKET, stop_io = 0,
     receive_callback_io = NULL, send_complete_callback_io = NULL, accept_callback_io = NULL,
     receive_callback_user_data_io = NULL, send_complete_callback_user_data_io = NULL,
     accept_callback_user_data_io = NULL\<rparr>"

type_synonym 'a io_run = "io_state \<Rightarrow> ('a, io_state) outcome"
type_synonym io_app = "io_x \<Rightarrow> unit io_run"

definition sys_ext :: "io_x \<Rightarrow> 'a \<Rightarrow> 'a io_run" where
  "sys_ext e r s = Ret r (emit (EvExt e) s)"

definition CreateIoCompletionPort :: "io_os \<Rightarrow> int \<Rightarrow> int \<Rightarrow> int \<Rightarrow> int io_run" where
  "CreateIoCompletionPort os file port key s =
     (let r = os_CreateIoCompletionPort os (trace s) file port key in
      sys_ext (EvCreatePort file port key r) r s)"

definition WSAGetLastError :: "io_os \<Rightarrow> int io_run" where
  "WSAGetLastError os s =
     (let r = os_WSAGetLastError os (trace s) in sys_ext (EvLastError r) r s)"

definition call_io :: "io_app \<Rightarrow> io_x \<Rightarrow> unit io_run" where
  "call_io app cb s = app cb (emit (EvExt cb) s)"

section \<open>Setting up and tearing down\<close>

definition proactor_tcp_iocp_init :: "io_os \<Rightarrow> int io_run" where
  "proactor_tcp_iocp_init os s =
     and_then (sys_ext (EvWSAStartup (os_WSAStartup os (trace s))) (os_WSAStartup os (trace s)) s)
       (\<lambda>rc s.
     and_then (check (rc \<noteq> 0) ''WSAStartup'' s) (\<lambda>_ s.
     and_then (CreateIoCompletionPort os (- 1) 0 0 s) (\<lambda>port s.
     let s = s\<lparr>iocp := port\<rparr> in
     and_then (check (iocp s = 0) ''CreateIoCompletionPort'' s) (\<lambda>_ s.
     Ret 0 s))))"

definition proactor_tcp_iocp_cleanup :: "unit io_run" where
  "proactor_tcp_iocp_cleanup s =
     and_then (if server_socket_io s \<noteq> INVALID_SOCKET then sys_close (server_socket_io s) s
               else Ret () s) (\<lambda>_ s.
     and_then (if client_socket_io s \<noteq> INVALID_SOCKET then sys_close (client_socket_io s) s
               else Ret () s) (\<lambda>_ s.
     and_then (if iocp s \<noteq> 0 then sys_ext (EvCloseHandle (iocp s)) () s else Ret () s) (\<lambda>_ s.
     sys_ext EvWSACleanup () s)))"

definition proactor_tcp_iocp_start_server :: "io_os \<Rightarrow> u16 \<Rightarrow> int io_run" where
  "proactor_tcp_iocp_start_server os port s =
     and_then (sys_socket os s) (\<lambda>fd s.
     let s = s\<lparr>server_socket_io := fd\<rparr> in
     and_then (check (server_socket_io s = INVALID_SOCKET) ''socket'' s) (\<lambda>_ s.
     let server_addr = \<lparr>sin_port = htons port, sin_addr = Some INADDR_ANY\<rparr> in
     and_then (sys_bind os (server_socket_io s) server_addr s) (\<lambda>rc s.
     and_then (check (rc = SOCKET_ERROR) ''bind'' s) (\<lambda>_ s.
     and_then (sys_listen os (server_socket_io s) MAX_PENDING_CONNECTIONS s) (\<lambda>rc s.
     and_then (check (rc = SOCKET_ERROR) ''listen'' s) (\<lambda>_ s.
     and_then (CreateIoCompletionPort os (server_socket_io s) (iocp s) (server_socket_io s) s)
       (\<lambda>r s.
     and_then (check (r = 0) ''CreateIoCompletionPort'' s) (\<lambda>_ s.
     Ret 0 s))))))))"

definition proactor_tcp_iocp_connect :: "io_os \<Rightarrow> string \<Rightarrow> u16 \<Rightarrow> int io_run" where
  "proactor_tcp_iocp_connect os address port s =
     and_then (sys_socket os s) (\<lambda>fd s.
     let s = s\<lparr>client_socket_io := fd\<rparr> in
     and_then (check (client_socket_io s = INVALID_SOCKET) ''socket'' s) (\<lambda>_ s.
     let server_addr = \<lparr>sin_port = htons port, sin_addr = os_inet_pton os address\<rparr> in
     and_then (sys_connect os (client_socket_io s) server_addr s) (\<lambda>rc s.
     and_then (check (rc = SOCKET_ERROR) ''connect'' s) (\<lambda>_ s.
     and_then (CreateIoCompletionPort os (client_socket_io s) (iocp s) (client_socket_io s) s)
       (\<lambda>r s.
     and_then (check (r = 0) ''CreateIoCompletionPort'' s) (\<lambda>_ s.
     Ret 0 s))))))"

section \<open>Event handlers\<close>

text \<open>The check after an overlapped call; the last error is asked for only after a failure.\<close>

definition check_overlapped :: "io_os \<Rightarrow> int \<Rightarrow> string \<Rightarrow> unit io_run" where
  "check_overlapped os result msg s =
     (if result = SOCKET_ERROR
      then and_then (WSAGetLastError os s) (\<lambda>err s. check (err \<noteq> WSA_IO_PENDING) msg s)
      else Ret () s)"

definition handle_data_event_io :: "io_os \<Rightarrow> io_app \<Rightarrow> int \<Rightarrow> unit io_run" where
  "handle_data_event_io os app sock s =
     and_then (sys_malloc os sizeof_IO_OPERATION blank_operation s) (\<lambda>io_op s.
     and_then (check (io_op = NULL) ''malloc'' s) (\<lambda>_ s.
     and_then (load_cell io_op s) (\<lambda>c s.
     and_then (store_cell io_op (c\<lparr>io_wsabuf_buf := Some Own_Buffer,
         io_wsabuf_len := of_nat BUFFER_SIZE_IO\<rparr>) s) (\<lambda>_ s.
     and_then (load_cell io_op s) (\<lambda>c s.
     let (result, bytes) = os_WSARecv os (trace s) sock io_op (unat (io_wsabuf_len c)) in
     if length bytes > BUFFER_SIZE_IO then Fault Out_Of_Bounds
     else
     and_then (sys_ext (EvWSARecv sock io_op (unat (io_wsabuf_len c)) (result, bytes)) () s)
       (\<lambda>_ s.
     and_then (store_cell io_op (c\<lparr>io_buffer := Some bytes\<rparr>) s) (\<lambda>_ s.
     and_then (check_overlapped os result ''WSARecv'' s) (\<lambda>_ s.
     if length bytes > 0 \<and> receive_callback_io s \<noteq> NULL
     then call_io app (CbReceive_io (receive_callback_io s) sock bytes
            (receive_callback_user_data_io s)) s
     else Ret () s))))))))"

text \<open>This function has no caller.\<close>

definition handle_send_complete :: "io_app \<Rightarrow> int \<Rightarrow> ptr \<Rightarrow> unit io_run" where
  "handle_send_complete app sock io_op s =
     and_then
       (if send_complete_callback_io s \<noteq> NULL
        then call_io app (CbSent_io (send_complete_callback_io s) sock
               (send_complete_callback_user_data_io s)) s
        else Ret () s) (\<lambda>_ s.
     sys_free io_op s)"

definition handle_accept_event_io :: "io_os \<Rightarrow> io_app \<Rightarrow> int \<Rightarrow> unit io_run" where
  "handle_accept_event_io os app server s =
     and_then (sys_accept os server s) (\<lambda>client s.
     and_then (check (client = INVALID_SOCKET) ''accept'' s) (\<lambda>_ s.
     and_then (CreateIoCompletionPort os client (iocp s) client s) (\<lambda>r s.
     and_then (check (r = 0) ''CreateIoCompletionPort'' s) (\<lambda>_ s.
     if accept_callback_io s \<noteq> NULL
     then call_io app (CbAccept_io (accept_callback_io s) server client
            (accept_callback_user_data_io s)) s
     else Ret () s))))"

section \<open>The run loop\<close>

definition io_round :: "io_os \<Rightarrow> io_app \<Rightarrow> unit io_run" where
  "io_round os app s =
     (let r = os_GetQueuedCompletionStatus os (trace s) (iocp s) in
     and_then (sys_ext (EvGetStatus (iocp s) r) () s) (\<lambda>_ s.
     case r of
       None \<Rightarrow> handle_error ''GetQueuedCompletionStatus'' s
     | Some (bytes_transferred, key, overlapped) \<Rightarrow>
         if key = server_socket_io s then handle_accept_event_io os app (server_socket_io s) s
         else if key = client_socket_io s then handle_data_event_io os app key s
         else Ret () s))"

primrec proactor_tcp_iocp_run :: "io_os \<Rightarrow> io_app \<Rightarrow> nat \<Rightarrow> unit io_run" where
  "proactor_tcp_iocp_run os app 0 s = Out_Of_Fuel"
| "proactor_tcp_iocp_run os app (Suc k) s =
     (if stop_io s = 0
      then and_then (io_round os app s) (\<lambda>_. proactor_tcp_iocp_run os app k)
      else Ret () s)"

definition proactor_tcp_iocp_stop :: "io_state \<Rightarrow> io_state" where
  "proactor_tcp_iocp_stop s = s\<lparr>stop_io := 1\<rparr>"

definition proactor_tcp_iocp_wake :: "io_state \<Rightarrow> io_state" where
  "proactor_tcp_iocp_wake s = s"

section \<open>Callbacks and sending\<close>

definition proactor_tcp_iocp_set_receive_callback :: "ptr \<Rightarrow> ptr \<Rightarrow> io_state \<Rightarrow> io_state" where
  "proactor_tcp_iocp_set_receive_callback cb user_data s =
     s\<lparr>receive_callback_io := cb, receive_callback_user_data_io := user_data\<rparr>"

definition proactor_tcp_iocp_set_send_complete_callback ::
    "ptr \<Rightarrow> ptr \<Rightarrow> io_state \<Rightarrow> io_state" where
  "proactor_tcp_iocp_set_send_complete_callback cb user_data s =
     s\<lparr>send_complete_callback_io := cb, send_complete_callback_user_data_io := user_data\<rparr>"

definition proactor_tcp_iocp_set_accept_callback :: "ptr \<Rightarrow> ptr \<Rightarrow> io_state \<Rightarrow> io_state" where
  "proactor_tcp_iocp_set_accept_callback cb user_data s =
     s\<lparr>accept_callback_io := cb, accept_callback_user_data_io := user_data\<rparr>"

text \<open>The length is cut to the 32 bits of a \<open>ULONG\<close>.\<close>

definition proactor_tcp_iocp_send :: "io_os \<Rightarrow> int \<Rightarrow> byte list \<Rightarrow> u64 \<Rightarrow> int io_run" where
  "proactor_tcp_iocp_send os sock data len s =
     and_then (sys_malloc os sizeof_IO_OPERATION blank_operation s) (\<lambda>io_op s.
     and_then (check (io_op = NULL) ''malloc'' s) (\<lambda>_ s.
     and_then (load_cell io_op s) (\<lambda>c s.
     and_then (store_cell io_op (c\<lparr>io_wsabuf_buf := Some (Caller_Data data),
         io_wsabuf_len := ucast len\<rparr>) s) (\<lambda>_ s.
     and_then (load_cell io_op s) (\<lambda>c s.
     if unat (io_wsabuf_len c) > length data then Fault Out_Of_Bounds
     else
     let bs = take (unat (io_wsabuf_len c)) data;
         result = os_WSASend os (trace s) sock io_op bs in
     and_then (sys_ext (EvWSASend sock io_op bs result) () s) (\<lambda>_ s.
     and_then (check_overlapped os result ''WSASend'' s) (\<lambda>_ s.
     Ret 0 s)))))))"

section \<open>Applications that act through the API\<close>

datatype io_call =
    Io_Send int "byte list"
  | Io_Stop
  | Io_Wake
  | Io_Set slot ptr ptr
  | Io_Connect string u16
  | Io_Start_Server u16

fun io_set_cb :: "slot \<Rightarrow> callback \<Rightarrow> io_state \<Rightarrow> io_state" where
  "io_set_cb Receive_Slot (cb, ud) = proactor_tcp_iocp_set_receive_callback cb ud"
| "io_set_cb Sent_Slot (cb, ud) = proactor_tcp_iocp_set_send_complete_callback cb ud"
| "io_set_cb Accept_Slot (cb, ud) = proactor_tcp_iocp_set_accept_callback cb ud"

primrec io_get_cb :: "slot \<Rightarrow> io_state \<Rightarrow> callback" where
  "io_get_cb Receive_Slot s = (receive_callback_io s, receive_callback_user_data_io s)"
| "io_get_cb Sent_Slot s = (send_complete_callback_io s, send_complete_callback_user_data_io s)"
| "io_get_cb Accept_Slot s = (accept_callback_io s, accept_callback_user_data_io s)"

fun do_io_call :: "io_os \<Rightarrow> io_call \<Rightarrow> unit io_run" where
  "do_io_call os (Io_Send sock d) s =
     and_then (proactor_tcp_iocp_send os sock d (of_nat (length d)) s) (\<lambda>_. Ret ())"
| "do_io_call os Io_Stop s = Ret () (proactor_tcp_iocp_stop s)"
| "do_io_call os Io_Wake s = Ret () (proactor_tcp_iocp_wake s)"
| "do_io_call os (Io_Set i cb ud) s = Ret () (io_set_cb i (cb, ud) s)"
| "do_io_call os (Io_Connect a p) s =
     and_then (proactor_tcp_iocp_connect os a p s) (\<lambda>_. Ret ())"
| "do_io_call os (Io_Start_Server p) s =
     and_then (proactor_tcp_iocp_start_server os p s) (\<lambda>_. Ret ())"

definition io_api_app :: "io_os \<Rightarrow> (io_trace \<Rightarrow> io_x \<Rightarrow> io_call list) \<Rightarrow> io_app" where
  "io_api_app os script cb s = for_each (do_io_call os) (script (trace s) cb) s"

end
