(* ===== verification/Iocp_Theorems.thy ===== *)
theory Iocp_Theorems
  imports Iocp
begin

text \<open>
  Lemmas and properties of the Windows back end: the operations are never released, a listening
  socket never accepts, connections that were accepted are never read.
\<close>

section \<open>Frames\<close>

lemma io_emit [simp]:
  "iocp (emit e s) = iocp s" "server_socket_io (emit e s) = server_socket_io s"
  "client_socket_io (emit e s) = client_socket_io s" "stop_io (emit e s) = stop_io s"
  "receive_callback_io (emit e s) = receive_callback_io s"
  "receive_callback_user_data_io (emit e s) = receive_callback_user_data_io s"
  "accept_callback_io (emit e s) = accept_callback_io s"
  "send_complete_callback_io (emit e s) = send_complete_callback_io s"
  by (simp_all add: emit_def)

lemma io_new_cell [simp]:
  "iocp (new_cell c s) = iocp s" "server_socket_io (new_cell c s) = server_socket_io s"
  "client_socket_io (new_cell c s) = client_socket_io s" "stop_io (new_cell c s) = stop_io s"
  "receive_callback_io (new_cell c s) = receive_callback_io s"
  "receive_callback_user_data_io (new_cell c s) = receive_callback_user_data_io s"
  "accept_callback_io (new_cell c s) = accept_callback_io s"
  "send_complete_callback_io (new_cell c s) = send_complete_callback_io s"
  by (simp_all add: new_cell_def)

lemmas io_setter_defs = proactor_tcp_iocp_set_receive_callback_def
  proactor_tcp_iocp_set_send_complete_callback_def proactor_tcp_iocp_set_accept_callback_def

lemmas io_sys_defs = sys_defs error_defs sys_ext_def CreateIoCompletionPort_def WSAGetLastError_def
  check_overlapped_def sys_malloc_def

interpretation io_loop: stop_loop "\<lambda>s. stop_io s \<noteq> 0" "io_round os app"
    "proactor_tcp_iocp_run os app" for os app
  by unfold_locales simp_all

definition io_others ::
    "io_state \<Rightarrow> io_trace \<times> (ptr \<Rightarrow> IO_OPERATION option) \<times> int \<times> int \<times> int \<times> int" where
  "io_others s = (trace s, heap s, iocp s, server_socket_io s, client_socket_io s, stop_io s)"

lemma io_get_set: "io_get_cb i (io_set_cb j c s) = (if i = j then c else io_get_cb i s)"
  by (cases i; cases j; cases c) (simp_all add: io_setter_defs)

lemma io_others_set: "io_others (io_set_cb j c s) = io_others s"
  by (cases j; cases c) (simp_all add: io_setter_defs io_others_def)

interpretation io_callbacks: callback_slots io_set_cb io_get_cb io_others
  by unfold_locales (simp_all add: io_get_set io_others_set)

section \<open>Operations are never released\<close>

text \<open>From \<open>s\<close> to \<open>t\<close> blocks were allocated, and none was released.\<close>

definition io_grow :: "io_state \<Rightarrow> io_state \<Rightarrow> bool" where
  "io_grow s t \<longleftrightarrow> brk s \<le> brk t \<and>
     (\<forall>q. heap t q \<noteq> None \<longleftrightarrow> heap s q \<noteq> None \<or> brk s < q \<and> q \<le> brk t)"

lemma io_grow_refl [simp]: "io_grow s s"
  by (auto simp: io_grow_def)

lemma io_grow_trans:
  assumes "io_grow s t" and "io_grow t u"
  shows "io_grow s u"
proof -
  have le: "brk s \<le> brk t" "brk t \<le> brk u" using assms by (simp_all add: io_grow_def)
  have "heap u q \<noteq> None \<longleftrightarrow> heap s q \<noteq> None \<or> brk s < q \<and> q \<le> brk u" for q
  proof -
    have "heap u q \<noteq> None \<longleftrightarrow> heap t q \<noteq> None \<or> brk t < q \<and> q \<le> brk u"
      "heap t q \<noteq> None \<longleftrightarrow> heap s q \<noteq> None \<or> brk s < q \<and> q \<le> brk t"
      using assms unfolding io_grow_def by blast+
    then show ?thesis using le by linarith
  qed
  then show ?thesis using le unfolding io_grow_def by fastforce
qed

lemma io_grow_alloc:
  "brk t = Suc (brk s) \<Longrightarrow> heap t = (heap s)(Suc (brk s) \<mapsto> c) \<Longrightarrow> io_grow s t"
  by (auto simp: io_grow_def)

lemma io_grow_emit [simp]: "io_grow s (emit e t) = io_grow s t" "io_grow (emit e s) t = io_grow s t"
  by (simp_all add: io_grow_def)

lemma io_set_cb_frame [simp]:
  "brk (io_set_cb i c s) = brk s" "heap (io_set_cb i c s) = heap s"
  "trace (io_set_cb i c s) = trace s" "server_socket_io (io_set_cb i c s) = server_socket_io s"
  "client_socket_io (io_set_cb i c s) = client_socket_io s"
  by (cases i; cases c; simp add: io_setter_defs)+

lemma send_grow:
  "wp (proactor_tcp_iocp_send os sock d (of_nat (length d)) s)
    (\<lambda>r t. r = 0 \<and> io_grow s t \<and> brk t = Suc (brk s)) (\<lambda>_ _. True)"
proof -
  have "unat (ucast (of_nat (length d) :: u64) :: u32) \<le> length d"
  proof -
    have "unat (ucast (of_nat (length d) :: u64) :: u32) \<le> unat (of_nat (length d) :: u64)"
      by (simp add: unsigned_ucast_eq take_bit_nat_less_eq_self)
    also have "\<dots> \<le> length d" by (simp add: unat_of_nat)
    finally show ?thesis .
  qed
  then show ?thesis
    by (auto simp: proactor_tcp_iocp_send_def io_sys_defs io_grow_def split: if_splits)
qed

lemma do_io_call_grow: "wp (do_io_call os c s) (\<lambda>_ t. io_grow s t) (\<lambda>_ _. True)"
proof (cases c)
  case (Io_Send sock d)
  then show ?thesis using send_grow [of os sock d s] by (auto elim: wp_mono)
next
  case (Io_Set i cb ud)
  then show ?thesis by (auto simp: io_grow_def)
qed (auto simp: proactor_tcp_iocp_stop_def proactor_tcp_iocp_wake_def
    proactor_tcp_iocp_connect_def proactor_tcp_iocp_start_server_def io_sys_defs io_grow_def)

lemma io_app_grow: "wp (io_api_app os script cb s) (\<lambda>_ t. io_grow s t) (\<lambda>_ _. True)"
  unfolding io_api_app_def
proof (rule wp_for_each)
  fix c t assume t: "io_grow s t"
  show "wp (do_io_call os c t) (\<lambda>_ u. io_grow s u) (\<lambda>_ _. True)"
    by (rule wp_mono [OF do_io_call_grow]) (auto intro: io_grow_trans [OF t])
qed simp

lemma call_io_grow: "wp (call_io (io_api_app os script) cb s) (\<lambda>_ t. io_grow s t) (\<lambda>_ _. True)"
  using io_app_grow [of os script cb "emit (EvExt cb) s"] by (simp add: call_io_def)

lemma data_event_grow:
  assumes "io_ok os"
  shows "wp (handle_data_event_io os (io_api_app os script) sock s)
    (\<lambda>_ t. io_grow s t \<and> brk s < brk t) (\<lambda>_ _. True)"
proof -
  have call: "wp (call_io (io_api_app os script) cb t) (\<lambda>_ u. io_grow s u \<and> brk s < brk u)
      (\<lambda>_ _. True)" if "io_grow s t" "brk s < brk t" for cb t
    by (rule wp_mono [OF call_io_grow])
      (use that in \<open>auto intro: io_grow_trans simp: io_grow_def [of t]\<close>)
  let ?h = "trace s @ [EvMalloc sizeof_IO_OPERATION (Suc (brk s))]"
  obtain r bs where r: "os_WSARecv os ?h sock (Suc (brk s)) BUFFER_SIZE_IO = (r, bs)"
    by (cases "os_WSARecv os ?h sock (Suc (brk s)) BUFFER_SIZE_IO")
  then have len: "length bs \<le> BUFFER_SIZE_IO"
    using assms unfolding io_ok_def by blast
  have n: "unat (of_nat BUFFER_SIZE_IO :: u32) = BUFFER_SIZE_IO"
    by (simp add: BUFFER_SIZE_IO_def unat_of_nat)
  show ?thesis
    by (simp add: handle_data_event_io_def io_sys_defs r n len [THEN leD])
      (auto intro!: call io_grow_alloc)
qed

lemma accept_event_grow:
  "wp (handle_accept_event_io os (io_api_app os script) srv s) (\<lambda>_ t. io_grow s t) (\<lambda>_ _. True)"
proof -
  have "wp (call_io (io_api_app os script) cb t) (\<lambda>_ u. io_grow s u) (\<lambda>_ _. True)"
    if "io_grow s t" for cb t
    by (rule wp_mono [OF call_io_grow]) (use that in \<open>auto intro: io_grow_trans\<close>)
  then show ?thesis
    by (auto simp: handle_accept_event_io_def io_sys_defs)
qed

lemma round_grow:
  assumes "io_ok os"
  shows "wp (io_round os (io_api_app os script) s) (\<lambda>_ t. io_grow s t) (\<lambda>_ _. True)"
proof -
  let ?s = "emit (EvExt (EvGetStatus (iocp s) (os_GetQueuedCompletionStatus os (trace s) (iocp s)))) s"
  have "wp (handle_data_event_io os (io_api_app os script) key ?s) (\<lambda>_ t. io_grow s t) (\<lambda>_ _. True)"
    for key
    by (rule wp_mono [OF data_event_grow [OF assms]]) auto
  moreover have "wp (handle_accept_event_io os (io_api_app os script) key ?s)
      (\<lambda>_ t. io_grow s t) (\<lambda>_ _. True)" for key
    by (rule wp_mono [OF accept_event_grow]) auto
  ultimately show ?thesis
    by (auto simp: io_round_def Let_def sys_ext_def handle_error_def split: option.split)
qed

section \<open>Completions and the listening socket\<close>

text \<open>A read or a write was started on the socket \<open>k\<close>.\<close>

fun starts_on :: "int \<Rightarrow> io_x posix_ev \<Rightarrow> bool" where
  "starts_on k (EvExt (EvWSARecv sk q n r)) = (sk = k)"
| "starts_on k (EvExt (EvWSASend sk q bs r)) = (sk = k)"
| "starts_on k _ = False"

text \<open>A completion is reported only for a socket on which an operation was started.\<close>

definition completes_started :: "io_os \<Rightarrow> bool" where
  "completes_started os \<longleftrightarrow>
     (\<forall>h port n k q. os_GetQueuedCompletionStatus os h port = Some (n, k, q) \<longrightarrow>
        (\<exists>e \<in> set h. starts_on k e))"

fun is_accept :: "io_x posix_ev \<Rightarrow> bool" where
  "is_accept (EvAccept _ _) = True"
| "is_accept (EvExt (CbAccept_io _ _ _ _)) = True"
| "is_accept _ = False"

text \<open>A step in which nothing is started on the socket \<open>k\<close> and nothing accepted.\<close>

definition io_apart :: "int \<Rightarrow> io_state \<Rightarrow> io_state \<Rightarrow> bool" where
  "io_apart k s t \<longleftrightarrow>
     server_socket_io t = server_socket_io s \<and> client_socket_io t = client_socket_io s \<and>
     (\<exists>es. trace t = trace s @ es \<and> list_all (\<lambda>e. \<not> starts_on k e \<and> \<not> is_accept e) es)"

text \<open>Calls that do not send on the socket \<open>k\<close> and open no sockets.\<close>

fun call_apart :: "int \<Rightarrow> io_call \<Rightarrow> bool" where
  "call_apart k (Io_Send sock d) = (sock \<noteq> k)"
| "call_apart k (Io_Connect a p) = False"
| "call_apart k (Io_Start_Server p) = False"
| "call_apart k _ = True"

lemma io_apart_refl [simp]: "io_apart k s s"
  by (simp add: io_apart_def)

lemma io_apart_trans: "io_apart k s t \<Longrightarrow> io_apart k t u \<Longrightarrow> io_apart k s u"
  by (auto simp: io_apart_def)

lemma io_apart_emit: "\<not> starts_on k e \<Longrightarrow> \<not> is_accept e \<Longrightarrow> io_apart k s (emit e s)"
  by (simp add: io_apart_def)

lemma wlp_load_cell: "(\<And>c. Q c s) \<Longrightarrow> wlp (load_cell p s) Q"
  by (simp add: load_cell_def split: option.split)

lemma wlp_store_cell: "(\<And>h. Q () (s\<lparr>heap := h\<rparr>)) \<Longrightarrow> wlp (store_cell p c s) Q"
  by (simp add: store_cell_def split: option.split)

lemma do_io_call_apart:
  "call_apart k c \<Longrightarrow> wlp (do_io_call os c s) (\<lambda>_ t. io_apart k s t)"
proof (cases c)
  case (Io_Send sock d)
  assume "call_apart k c"
  then show ?thesis
    by (auto simp: Io_Send proactor_tcp_iocp_send_def io_sys_defs io_apart_def
        intro!: wlp_load_cell wlp_store_cell)
next
  case (Io_Set i cb ud)
  then show ?thesis by (simp add: io_apart_def)
qed (auto simp: proactor_tcp_iocp_stop_def proactor_tcp_iocp_wake_def io_apart_def)

lemma call_io_apart:
  assumes "\<And>h cb. list_all (call_apart k) (script h cb)" and "\<not> is_accept (EvExt cb)"
    and "\<not> starts_on k (EvExt cb)"
  shows "wlp (call_io (io_api_app os script) cb s) (\<lambda>_ t. io_apart k s t)"
  unfolding call_io_def io_api_app_def
proof (rule wlp_for_each)
  show "io_apart k s (emit (EvExt cb) s)" using assms(2,3) by (simp add: io_apart_emit)
next
  fix c t assume "c \<in> set (script (trace (emit (EvExt cb) s)) cb)" and t: "io_apart k s t"
  then have "call_apart k c" using assms(1) by (auto simp: list_all_iff)
  then show "wlp (do_io_call os c t) (\<lambda>_ u. io_apart k s u)"
    by (intro wlp_mono [OF do_io_call_apart]) (auto intro: io_apart_trans [OF t])
qed

lemma data_event_apart:
  assumes app: "\<And>h cb. list_all (call_apart k) (script h cb)" and "sock \<noteq> k"
  shows "wlp (handle_data_event_io os (io_api_app os script) sock s) (\<lambda>_ t. io_apart k s t)"
proof -
  have call: "wlp (call_io (io_api_app os script) (CbReceive_io cb sk bs ud) t)
      (\<lambda>_ u. io_apart k s u)" if "io_apart k s t" for cb sk bs ud t
    by (rule wlp_mono [OF call_io_apart [OF app]]) (use that in \<open>auto intro: io_apart_trans\<close>)
  show ?thesis
    using assms(2)
    by (auto simp: handle_data_event_io_def io_sys_defs split: prod.split
        intro!: wlp_load_cell wlp_store_cell call) (auto simp: io_apart_def)
qed

lemma round_apart:
  assumes os: "completes_started os" and app: "\<And>h cb. list_all (call_apart (server_socket_io s)) (script h cb)"
    and started: "\<And>e. e \<in> set (trace s) \<Longrightarrow> \<not> starts_on (server_socket_io s) e"
    and ne: "client_socket_io s \<noteq> server_socket_io s"
  shows "wlp (io_round os (io_api_app os script) s) (\<lambda>_ t. io_apart (server_socket_io s) s t)"
proof -
  let ?k = "server_socket_io s"
  let ?r = "os_GetQueuedCompletionStatus os (trace s) (iocp s)"
  let ?s = "emit (EvExt (EvGetStatus (iocp s) ?r)) s"
  have step: "io_apart ?k s ?s" by (simp add: io_apart_emit)
  have "key \<noteq> ?k" if "?r = Some (n, key, q)" for n key q
    using os started that unfolding completes_started_def by blast
  moreover have "wlp (handle_data_event_io os (io_api_app os script) (client_socket_io s) ?s)
      (\<lambda>_ t. io_apart ?k s t)"
    by (rule wlp_mono [OF data_event_apart [OF app ne]]) (rule io_apart_trans [OF step])
  ultimately show ?thesis
    using step by (auto simp: io_round_def Let_def sys_ext_def handle_error_def split: option.split)
qed

section \<open>Properties\<close>

datatype io_act = Act_Send int "byte list" | Act_Data int

primrec do_act :: "io_os \<Rightarrow> io_app \<Rightarrow> io_act \<Rightarrow> unit io_run" where
  "do_act os app (Act_Send sock d) s =
     and_then (proactor_tcp_iocp_send os sock d (of_nat (length d)) s) (\<lambda>_. Ret ())"
| "do_act os app (Act_Data sock) s = handle_data_event_io os app sock s"

text \<open>
  Claim C32. Every send and every completion handled allocates an operation, and none is ever
  released: after any sequence of them at least as many new blocks are allocated, and all blocks
  ever allocated still are.
\<close>

theorem io_operations_leak:
  assumes "io_ok os"
  shows "wp (for_each (do_act os (io_api_app os script)) acts s)
    (\<lambda>_ t. brk s + length acts \<le> brk t \<and>
       (\<forall>q. heap t q \<noteq> None \<longleftrightarrow> heap s q \<noteq> None \<or> brk s < q \<and> q \<le> brk t)) (\<lambda>_ _. True)"
proof -
  have act: "wp (do_act os (io_api_app os script) a s) (\<lambda>_ t. io_grow s t \<and> brk s < brk t)
      (\<lambda>_ _. True)" for a s
    by (cases a) (auto intro!: wp_mono [OF data_event_grow [OF assms]] wp_mono [OF send_grow])
  have "wp (for_each (do_act os (io_api_app os script)) acts s)
      (\<lambda>_ t. io_grow s t \<and> brk s + length acts \<le> brk t) (\<lambda>_ _. True)"
  proof (induction acts arbitrary: s)
    case (Cons a acts)
    show ?case
      unfolding for_each.simps
    proof (rule wp_seq [OF act])
      fix u t assume t: "io_grow s t \<and> brk s < brk t"
      show "wp (for_each (do_act os (io_api_app os script)) acts t)
          (\<lambda>_ v. io_grow s v \<and> brk s + length (a # acts) \<le> brk v) (\<lambda>_ _. True)"
        by (rule wp_mono [OF Cons.IH]) (use t in \<open>auto intro: io_grow_trans\<close>)
    qed
  qed simp
  then show ?thesis by (rule wp_mono) (auto simp: io_grow_def)
qed

text \<open>
  Socket 5 listens, 6 is the connection; every wait finds a completion on 6 once something was
  sent on it, every read delivers one byte.
\<close>

definition io_demo_os :: io_os where
  "io_demo_os = \<lparr>
     os_read = (\<lambda>h fd n. None),
     os_write = (\<lambda>h fd bs. - 1),
     os_pipe = (\<lambda>h. None),
     os_socket = (\<lambda>h. if EvSocket 5 \<in> set h then 6 else 5),
     os_bind = (\<lambda>h fd a. 0),
     os_listen = (\<lambda>h fd n. 0),
     os_connect = (\<lambda>h fd a. 0),
     os_accept = (\<lambda>h fd. 7),
     os_inet_pton = (\<lambda>a. Some 0x7F000001),
     os_malloc = (\<lambda>h n. True),
     os_WSAStartup = (\<lambda>h. 0),
     os_CreateIoCompletionPort = (\<lambda>h file port key. 3),
     os_WSARecv = (\<lambda>h sk q n. (0, take n [42])),
     os_WSASend = (\<lambda>h sk q bs. - 1),
     os_WSAGetLastError = (\<lambda>h. WSA_IO_PENDING),
     os_GetQueuedCompletionStatus = (\<lambda>h port.
       if \<exists>e \<in> set h. starts_on 6 e then Some (1, 6, 1) else None)\<rparr>"

definition io_demo_script :: "io_trace \<Rightarrow> io_x \<Rightarrow> io_call list" where
  "io_demo_script h cb = (case cb of CbReceive_io _ sk bs _ \<Rightarrow> [Io_Send 6 bs] | _ \<Rightarrow> [])"

definition io_demo_state :: io_state where
  "io_demo_state = (case for_each (do_io_call io_demo_os)
     [Io_Start_Server 80, Io_Connect ''127.0.0.1'' 81, Io_Send 6 [1, 2]] io_initial of
     Ret _ t \<Rightarrow> t | _ \<Rightarrow> io_initial)"

lemma io_demo_ok: "io_ok io_demo_os" "completes_started io_demo_os"
  by (auto simp: io_ok_def io_demo_os_def completes_started_def split: if_splits)

lemma io_demo_fields:
  "server_socket_io io_demo_state = 5" "client_socket_io io_demo_state = 6"
  "e \<in> set (trace io_demo_state) \<Longrightarrow> \<not> starts_on 5 e"
  by (auto simp: io_demo_state_def io_demo_os_def proactor_tcp_iocp_start_server_def
      proactor_tcp_iocp_connect_def proactor_tcp_iocp_send_def io_sys_defs io_initial_def
      INVALID_SOCKET_def SOCKET_ERROR_def)

theorem io_operations_leak_witness:
  "wp (for_each (do_act io_demo_os (io_api_app io_demo_os io_demo_script))
      [Act_Send 6 [1], Act_Data 6, Act_Data 6] io_demo_state)
    (\<lambda>_ t. brk io_demo_state + 3 \<le> brk t \<and> heap t (brk io_demo_state + 3) \<noteq> None)
    (\<lambda>_ _. True)"
  by (rule wp_mono [OF io_operations_leak [OF io_demo_ok(1)]]) auto

text \<open>
  Claim C31. Nothing is ever accepted: completions are reported only for sockets on which a read
  or a write was started, and the module starts none on its listening socket; so in any number of
  rounds no connection is accepted and the accept callback is not called, provided that the
  application does not itself send on the listening socket or open further sockets.
\<close>

theorem io_never_accepts:
  assumes "io_ok os" and "completes_started os"
    and "\<And>h cb. list_all (call_apart (server_socket_io s)) (script h cb)"
    and "\<And>e. e \<in> set (trace s) \<Longrightarrow> \<not> starts_on (server_socket_io s) e"
    and "client_socket_io s \<noteq> server_socket_io s"
  shows "wp (for_each (\<lambda>_. io_round os (io_api_app os script)) (replicate k ()) s)
    (\<lambda>_ t. \<exists>es. trace t = trace s @ es \<and> (\<forall>e \<in> set es. \<not> is_accept e)) (\<lambda>_ _. True)"
proof -
  let ?k = "server_socket_io s"
  have "wp (for_each (\<lambda>_. io_round os (io_api_app os script)) (replicate k ()) s)
      (\<lambda>_ t. io_apart ?k s t) (\<lambda>_ _. True)"
  proof (rule wp_for_each)
    fix t assume t: "io_apart ?k s t"
    then have same: "server_socket_io t = ?k" "client_socket_io t \<noteq> server_socket_io t"
      using assms(5) by (auto simp: io_apart_def)
    have "\<not> starts_on (server_socket_io t) e" if "e \<in> set (trace t)" for e
      using t that assms(4) by (auto simp: io_apart_def list_all_iff)
    from round_apart [of os t script, OF assms(2) _ this same(2)] same(1) assms(3)
    have "wlp (io_round os (io_api_app os script) t) (\<lambda>_ u. io_apart ?k t u)" by simp
    from wp_wlp [OF round_grow [OF assms(1)] this]
    show "wp (io_round os (io_api_app os script) t) (\<lambda>_ u. io_apart ?k s u) (\<lambda>_ _. True)"
      by (rule wp_mono) (auto intro: io_apart_trans [OF t])
  qed simp
  then show ?thesis
    by (rule wp_mono) (auto simp: io_apart_def list_all_iff)
qed

theorem io_never_accepts_witness:
  "wp (for_each (\<lambda>_. io_round io_demo_os (io_api_app io_demo_os io_demo_script))
      (replicate 4 ()) io_demo_state)
    (\<lambda>_ t. \<exists>es. trace t = trace io_demo_state @ es \<and> (\<forall>e \<in> set es. \<not> is_accept e))
    (\<lambda>_ _. True)"
proof (rule io_never_accepts [OF io_demo_ok])
  fix h cb
  show "list_all (call_apart (server_socket_io io_demo_state)) (io_demo_script h cb)"
    by (cases cb) (auto simp: io_demo_fields io_demo_script_def)
qed (use io_demo_fields in auto)

text \<open>
  A connection that was accepted is never read: a completion on a socket other than the two static
  ones is dropped with the bytes it reports, whatever the callbacks.
\<close>

lemma io_other_completions_dropped:
  assumes "os_GetQueuedCompletionStatus os (trace s) (iocp s) = Some (n, key, q)"
    and "key \<noteq> server_socket_io s" and "key \<noteq> client_socket_io s" and "stop_io s = 0"
  shows "proactor_tcp_iocp_run os app (Suc k) s =
    proactor_tcp_iocp_run os app k (emit (EvExt (EvGetStatus (iocp s) (Some (n, key, q)))) s)"
  using assms by (simp add: io_round_def sys_ext_def)

section \<open>Setting up\<close>

fun io_failed :: "io_x \<Rightarrow> string option" where
  "io_failed (EvWSAStartup r) = (if r \<noteq> 0 then Some ''WSAStartup'' else None)"
| "io_failed (EvCreatePort file port key r) =
     (if r = 0 then Some ''CreateIoCompletionPort'' else None)"
| "io_failed x = None"

text \<open>
  Claim C27. Setting up: initialisation, connecting and starting a server return 0 only after
  exactly the intended calls have been made in order and have all succeeded - the server bound to
  the port on every interface in network byte order and listening with a backlog of 10, the new
  socket associated with the completion port under its own key - and nothing but the handle or
  socket concerned has changed. Otherwise the process exits with code 1 at the first call that
  fails, which is reported under its name.
\<close>

theorem io_setup_outcomes:
  "wp (proactor_tcp_iocp_init os s)
     (\<lambda>r t. r = 0 \<and> iocp t \<noteq> 0 \<and>
        t = s\<lparr>iocp := iocp t, trace := trace s @
          [EvExt (EvWSAStartup 0), EvExt (EvCreatePort (- 1) 0 0 (iocp t))]\<rparr>)
     (\<lambda>c t. c = 1 \<and> ends_in_failure io_failed (trace s) (trace t)) \<and>
   wp (proactor_tcp_iocp_connect os address port s)
     (\<lambda>r t. r = 0 \<and> client_socket_io t \<noteq> INVALID_SOCKET \<and> (\<exists>r1 q. r1 \<noteq> - 1 \<and> q \<noteq> 0 \<and>
        t = s\<lparr>client_socket_io := client_socket_io t, trace := trace s @
          [EvSocket (client_socket_io t),
           EvConnect (client_socket_io t)
             \<lparr>sin_port = htons port, sin_addr = os_inet_pton os address\<rparr> r1,
           EvExt (EvCreatePort (client_socket_io t) (iocp s) (client_socket_io t) q)]\<rparr>))
     (\<lambda>c t. c = 1 \<and> ends_in_failure io_failed (trace s) (trace t)) \<and>
   wp (proactor_tcp_iocp_start_server os port s)
     (\<lambda>r t. r = 0 \<and> server_socket_io t \<noteq> INVALID_SOCKET \<and> (\<exists>r1 r2 q. r1 \<noteq> - 1 \<and> r2 \<noteq> - 1 \<and>
        q \<noteq> 0 \<and> t = s\<lparr>server_socket_io := server_socket_io t, trace := trace s @
          [EvSocket (server_socket_io t),
           EvBind (server_socket_io t) \<lparr>sin_port = htons port, sin_addr = Some 0\<rparr> r1,
           EvListen (server_socket_io t) 10 r2,
           EvExt (EvCreatePort (server_socket_io t) (iocp s) (server_socket_io t) q)]\<rparr>))
     (\<lambda>c t. c = 1 \<and> ends_in_failure io_failed (trace s) (trace t))"
  by (intro conjI)
    (auto simp: proactor_tcp_iocp_init_def proactor_tcp_iocp_connect_def
      proactor_tcp_iocp_start_server_def io_sys_defs emit_def INVALID_SOCKET_def SOCKET_ERROR_def
      INADDR_ANY_def MAX_PENDING_CONNECTIONS_def intro!: ends_in_failure_run)

section \<open>Long messages\<close>

lemma unat_ucast_ulong: "unat (ucast (len :: u64) :: u32) = unat len mod 2 ^ 32"
  by (simp add: unsigned_ucast_eq take_bit_eq_mod)

text \<open>
  Claim C28. A send hands the kernel only the length modulo \<open>2 ^ 32\<close>, since the buffer descriptor has a
  32-bit length: of a message of 4 GiB or more the rest is dropped, and the send still returns 0.
\<close>

theorem io_send_truncates:
  assumes "unat len \<le> length data"
  shows "wp (proactor_tcp_iocp_send os sock data len s)
    (\<lambda>r t. r = 0 \<and> (\<exists>q res. EvExt (EvWSASend sock q (take (unat len mod 2 ^ 32) data) res)
       \<in> set (trace t)))
    (\<lambda>c t. c = 1)"
proof -
  have "unat len mod 2 ^ 32 \<le> length data"
    using assms by (rule order_trans [OF mod_less_eq_dividend])
  then show ?thesis
    by (auto simp: proactor_tcp_iocp_send_def io_sys_defs unat_ucast_ulong blank_operation_def
        load_cell_def store_cell_def new_cell_def)
qed

definition long_message :: "byte list" where
  "long_message = map (\<lambda>_. 7) [0..<2 ^ 32 + 1]"

lemma length_long_message: "length long_message = 2 ^ 32 + 1"
  by (simp add: long_message_def del: upt_Suc)

theorem io_send_truncates_witness:
  "wp (proactor_tcp_iocp_send io_demo_os 6 long_message (2 ^ 32 + 1) io_demo_state)
    (\<lambda>r t. r = 0 \<and> (\<exists>q res. EvExt (EvWSASend 6 q (take 1 long_message) res) \<in> set (trace t)))
    (\<lambda>c t. c = 1)"
proof -
  have len: "unat (2 ^ 32 + 1 :: u64) = 2 ^ 32 + 1" by simp
  then have "unat (2 ^ 32 + 1 :: u64) \<le> length long_message" by (simp add: length_long_message)
  from io_send_truncates [OF this, of io_demo_os 6 io_demo_state] show ?thesis
    unfolding len by simp
qed

end
