(* ===== verification/Iocp_Streams.thy ===== *)
theory Iocp_Streams
  imports Iocp_Theorems
begin

text \<open>
  What the Windows back end receives and what it hands over: the bytes that a receive finds at
  once reach the application, exactly and in order; the bytes that arrive later, which a
  completion reports, never do.
\<close>

section \<open>Events of the API calls\<close>

fun io_api_event :: "io_x posix_ev \<Rightarrow> bool" where
  "io_api_event (EvExt (EvWSARecv sk q n r)) = False"
| "io_api_event (EvExt (CbReceive_io cb sk bs ud)) = False"
| "io_api_event _ = True"

fun clears_receive_io :: "io_call \<Rightarrow> bool" where
  "clears_receive_io (Io_Set Receive_Slot cb ud) = (cb = NULL)"
| "clears_receive_io _ = False"

definition keeps_receiving :: "(io_trace \<Rightarrow> io_x \<Rightarrow> io_call list) \<Rightarrow> bool" where
  "keeps_receiving script \<longleftrightarrow> (\<forall>h cb. list_all (\<lambda>c. \<not> clears_receive_io c) (script h cb))"

text \<open>A step that adds events of \<open>P\<close> and keeps a receive callback, if calls of \<open>A\<close> do.\<close>

definition io_step ::
    "(io_x posix_ev \<Rightarrow> bool) \<Rightarrow> bool \<Rightarrow> io_state \<Rightarrow> io_state \<Rightarrow> bool" where
  "io_step P k s t \<longleftrightarrow> (\<exists>es. trace t = trace s @ es \<and> list_all P es) \<and>
     (k \<and> receive_callback_io s \<noteq> NULL \<longrightarrow> receive_callback_io t \<noteq> NULL)"

lemma io_step_refl [simp]: "io_step P k s s"
  by (simp add: io_step_def)

lemma io_step_trans: "io_step P k s t \<Longrightarrow> io_step P k t u \<Longrightarrow> io_step P k s u"
  by (auto simp: io_step_def)

lemma do_io_call_step:
  "k \<longrightarrow> \<not> clears_receive_io c \<Longrightarrow> wlp (do_io_call os c s) (\<lambda>_ t. io_step io_api_event k s t)"
proof (induction c)
  case (Io_Send sock d)
  then show ?case
    by (auto simp: proactor_tcp_iocp_send_def io_sys_defs io_step_def
        intro!: wlp_load_cell wlp_store_cell)
next
  case (Io_Set i cb ud)
  then show ?case by (cases i) (auto simp: io_step_def io_setter_defs)
qed (auto simp: proactor_tcp_iocp_stop_def proactor_tcp_iocp_wake_def io_step_def
    proactor_tcp_iocp_connect_def proactor_tcp_iocp_start_server_def io_sys_defs)

lemma io_calls_step:
  assumes "k \<longrightarrow> list_all (\<lambda>c. \<not> clears_receive_io c) cs"
  shows "wlp (for_each (do_io_call os) cs s) (\<lambda>_ t. io_step io_api_event k s t)"
proof (rule wlp_for_each)
  fix c t assume "c \<in> set cs" and t: "io_step io_api_event k s t"
  then have "k \<longrightarrow> \<not> clears_receive_io c" using assms by (auto simp: list_all_iff)
  then show "wlp (do_io_call os c t) (\<lambda>_ u. io_step io_api_event k s u)"
    by (rule wlp_mono [OF do_io_call_step]) (rule io_step_trans [OF t])
qed simp

lemma call_io_step:
  assumes "k \<longrightarrow> keeps_receiving script"
  shows "wlp (call_io (io_api_app os script) cb s) (\<lambda>_ t. io_step io_api_event k (emit (EvExt cb) s) t)"
  unfolding call_io_def io_api_app_def
  by (rule io_calls_step) (use assms in \<open>auto simp: keeps_receiving_def\<close>)

section \<open>Streams\<close>

text \<open>The bytes of a socket that a receive found at once, and those handed to the application.\<close>

fun found_by :: "int \<Rightarrow> io_x posix_ev \<Rightarrow> byte list" where
  "found_by k (EvExt (EvWSARecv sk q n (r, bs))) = (if sk = k then bs else [])"
| "found_by k _ = []"

fun handed_by_io :: "int \<Rightarrow> io_x posix_ev \<Rightarrow> byte list" where
  "handed_by_io k (EvExt (CbReceive_io cb sk bs ud)) = (if sk = k then bs else [])"
| "handed_by_io k _ = []"

definition found_stream :: "int \<Rightarrow> io_trace \<Rightarrow> byte list" where
  "found_stream k tr = concat (map (found_by k) tr)"

definition handed_stream_io :: "int \<Rightarrow> io_trace \<Rightarrow> byte list" where
  "handed_stream_io k tr = concat (map (handed_by_io k) tr)"

lemma io_stream_simps [simp]:
  "found_stream k [] = []" "found_stream k (xs @ ys) = found_stream k xs @ found_stream k ys"
  "found_stream k (e # xs) = found_by k e @ found_stream k xs"
  "handed_stream_io k [] = []"
  "handed_stream_io k (xs @ ys) = handed_stream_io k xs @ handed_stream_io k ys"
  "handed_stream_io k (e # xs) = handed_by_io k e @ handed_stream_io k xs"
  by (simp_all add: found_stream_def handed_stream_io_def)

lemma io_api_event_streams:
  "io_api_event e \<Longrightarrow> found_by k e = [] \<and> handed_by_io k e = []"
  by (induction e rule: io_api_event.induct) simp_all

lemma io_api_streams:
  "list_all io_api_event es \<Longrightarrow> found_stream k es = [] \<and> handed_stream_io k es = []"
  by (induction es) (simp_all add: io_api_event_streams)

text \<open>A step in which what was found was handed over, and a receive callback is kept.\<close>

definition io_input :: "io_state \<Rightarrow> io_state \<Rightarrow> bool" where
  "io_input s t \<longleftrightarrow> receive_callback_io t \<noteq> NULL \<and>
     (\<exists>es. trace t = trace s @ es \<and> (\<forall>k. handed_stream_io k es = found_stream k es))"

lemma io_input_refl: "receive_callback_io s \<noteq> NULL \<Longrightarrow> io_input s s"
  by (simp add: io_input_def)

lemma io_input_trans:
  assumes "io_input s t" and "io_input t u"
  shows "io_input s u"
proof -
  obtain xs ys where "trace t = trace s @ xs" "trace u = trace t @ ys"
    "\<forall>k. handed_stream_io k xs = found_stream k xs" "\<forall>k. handed_stream_io k ys = found_stream k ys"
    using assms unfolding io_input_def by blast
  then show ?thesis
    using assms(2) unfolding io_input_def by (auto intro!: exI [of _ "xs @ ys"])
qed

lemma io_step_input:
  "receive_callback_io s \<noteq> NULL \<Longrightarrow> io_step io_api_event True s t \<Longrightarrow> io_input s t"
  by (auto simp: io_step_def io_input_def io_api_streams)

section \<open>The handlers\<close>

lemma call_io_step_from:
  assumes "k \<longrightarrow> keeps_receiving script" and "io_step P k s (emit (EvExt cb) t)"
    and "\<And>e. io_api_event e \<Longrightarrow> P e"
  shows "wlp (call_io (io_api_app os script) cb t) (\<lambda>_ u. io_step P k s u)"
proof (rule wlp_mono [OF call_io_step [OF assms(1)]])
  fix a u assume "io_step io_api_event k (emit (EvExt cb) t) u"
  then have "io_step P k (emit (EvExt cb) t) u"
    using assms(3) by (auto simp: io_step_def list_all_iff)
  with assms(2) show "io_step P k s u" by (rule io_step_trans)
qed

lemma accept_event_step:
  assumes "k \<longrightarrow> keeps_receiving script"
  shows "wlp (handle_accept_event_io os (io_api_app os script) srv s)
    (\<lambda>_ t. io_step io_api_event k s t)"
  by (auto simp: handle_accept_event_io_def io_sys_defs
      intro!: call_io_step_from [OF assms]) (auto simp: io_step_def)

lemma data_event_input_io:
  assumes app: "keeps_receiving script" and cb: "receive_callback_io s \<noteq> NULL"
  shows "wlp (handle_data_event_io os (io_api_app os script) sock s) (\<lambda>_ t. io_input s t)"
proof -
  have call: "wlp (call_io (io_api_app os script) (CbReceive_io rc sock bs ud) t) (\<lambda>_ u. io_input s u)"
    if t: "receive_callback_io t \<noteq> NULL" "\<exists>es. trace t = trace s @ es \<and>
      (\<forall>k. handed_stream_io k es = [] \<and> found_stream k es = (if sock = k then bs else []))"
    for rc bs ud t
  proof (rule wlp_mono [OF call_io_step [of True, OF impI [OF app]]])
    let ?t = "emit (EvExt (CbReceive_io rc sock bs ud)) t"
    fix a u assume "io_step io_api_event True ?t u"
    then have "io_input ?t u" using t(1) by (intro io_step_input) simp_all
    moreover have "io_input s ?t"
      using t by (auto simp: io_input_def)
    ultimately show "io_input s u" by (blast intro: io_input_trans)
  qed
  show ?thesis
    using cb
    by (auto simp: handle_data_event_io_def io_sys_defs split: prod.split
        intro!: wlp_load_cell wlp_store_cell call) (auto simp: io_input_def)
qed

text \<open>A receive that finds nothing at once hands over nothing.\<close>

fun not_handed :: "io_x posix_ev \<Rightarrow> bool" where
  "not_handed (EvExt (CbReceive_io cb sk bs ud)) = False"
| "not_handed _ = True"

lemma io_api_event_not_handed: "io_api_event e \<Longrightarrow> not_handed e"
  by (induction e rule: io_api_event.induct) simp_all

lemma data_event_not_handed:
  assumes "\<And>h sk q n. snd (os_WSARecv os h sk q n) = []"
  shows "wlp (handle_data_event_io os app sock s) (\<lambda>_ t. io_step not_handed False s t)"
proof -
  have none: "bs = []" if "os_WSARecv os h sk q n = (r, bs)" for h sk q n r bs
    using assms [of h sk q n] that by simp
  show ?thesis
    by (auto simp: handle_data_event_io_def io_sys_defs split: prod.split dest!: none
        intro!: wlp_load_cell wlp_store_cell) (auto simp: io_step_def)
qed

section \<open>Rounds\<close>

lemma wlp_io_round:
  assumes "R (emit (EvExt (EvGetStatus (iocp s) (os_GetQueuedCompletionStatus os (trace s) (iocp s)))) s)"
    and "\<And>t srv. R t \<Longrightarrow> wlp (handle_accept_event_io os app srv t) (\<lambda>_. R)"
    and "\<And>t sock. R t \<Longrightarrow> wlp (handle_data_event_io os app sock t) (\<lambda>_. R)"
  shows "wlp (io_round os app s) (\<lambda>_. R)"
  using assms by (auto simp: io_round_def Let_def sys_ext_def handle_error_def split: option.split)

lemma round_input:
  assumes app: "keeps_receiving script" and cb: "receive_callback_io s \<noteq> NULL"
  shows "wlp (io_round os (io_api_app os script) s) (\<lambda>_ t. io_input s t)"
proof (rule wlp_io_round)
  fix t srv sock assume t: "io_input s t"
  then have cbt: "receive_callback_io t \<noteq> NULL" by (simp add: io_input_def)
  show "wlp (handle_accept_event_io os (io_api_app os script) srv t) (\<lambda>_ u. io_input s u)"
    by (rule wlp_mono [OF accept_event_step [of True, OF impI [OF app]]])
      (blast intro: io_input_trans [OF t] io_step_input [OF cbt])
  show "wlp (handle_data_event_io os (io_api_app os script) sock t) (\<lambda>_ u. io_input s u)"
    by (rule wlp_mono [OF data_event_input_io [OF app cbt]]) (rule io_input_trans [OF t])
qed (use cb in \<open>simp add: io_input_def\<close>)

lemma round_not_handed:
  assumes "\<And>h sk q n. snd (os_WSARecv os h sk q n) = []"
  shows "wlp (io_round os (io_api_app os script) s) (\<lambda>_ t. io_step not_handed False s t)"
proof (rule wlp_io_round)
  fix t srv sock assume t: "io_step not_handed False s t"
  show "wlp (handle_accept_event_io os (io_api_app os script) srv t)
      (\<lambda>_ u. io_step not_handed False s u)"
  proof (rule wlp_mono [OF accept_event_step [of False]])
    fix a u assume "io_step io_api_event False t u"
    then have "io_step not_handed False t u"
      using io_api_event_not_handed by (auto simp: io_step_def list_all_iff)
    with t show "io_step not_handed False s u" by (rule io_step_trans)
  qed simp
  show "wlp (handle_data_event_io os (io_api_app os script) sock t)
      (\<lambda>_ u. io_step not_handed False s u)"
    by (rule wlp_mono [OF data_event_not_handed [OF assms]]) (rule io_step_trans [OF t])
qed (simp add: io_step_def)

text \<open>Any number of rounds of the loop.\<close>

definition io_rounds :: "io_os \<Rightarrow> io_app \<Rightarrow> nat \<Rightarrow> unit io_run" where
  "io_rounds os app k = for_each (\<lambda>_. io_round os app) (replicate k ())"

lemma rounds_safe:
  assumes "io_ok os"
  shows "wp (io_rounds os (io_api_app os script) k s) (\<lambda>_ _. True) (\<lambda>_ _. True)"
  unfolding io_rounds_def
  by (rule wp_for_each) (auto intro: wp_mono [OF round_grow [OF assms]])

lemma rounds_input_io:
  assumes app: "keeps_receiving script" and "receive_callback_io s \<noteq> NULL"
  shows "wlp (io_rounds os (io_api_app os script) k s) (\<lambda>_ t. io_input s t)"
  unfolding io_rounds_def
proof (rule wlp_for_each)
  fix t assume t: "io_input s t"
  then have "receive_callback_io t \<noteq> NULL" by (simp add: io_input_def)
  then show "wlp (io_round os (io_api_app os script) t) (\<lambda>_ u. io_input s u)"
    by (intro wlp_mono [OF round_input [OF app]] io_input_trans [OF t])
qed (rule io_input_refl [OF assms(2)])

lemma rounds_not_handed:
  assumes "\<And>h sk q n. snd (os_WSARecv os h sk q n) = []"
  shows "wlp (io_rounds os (io_api_app os script) k s) (\<lambda>_ t. io_step not_handed False s t)"
  unfolding io_rounds_def
  by (rule wlp_for_each)
    (auto intro: wlp_mono [OF round_not_handed [OF assms]] io_step_trans)

section \<open>Properties\<close>

text \<open>
  Claim C17. Input that is there: while a receive callback is installed, any number of rounds hands over
  exactly the bytes that its receives found at once, socket by socket and in order, whatever the
  callbacks do, and without an access error.
\<close>

theorem io_input_exact:
  assumes "io_ok os" and "keeps_receiving script" and "receive_callback_io s \<noteq> NULL"
  shows "wp (io_rounds os (io_api_app os script) k s)
    (\<lambda>_ t. \<exists>es. trace t = trace s @ es \<and> (\<forall>sk. handed_stream_io sk es = found_stream sk es))
    (\<lambda>_ _. True)"
  by (rule wp_mono [OF wp_wlp [OF rounds_safe [OF assms(1)] rounds_input_io [OF assms(2,3)]]])
    (auto simp: io_input_def)

text \<open>
  Claim C25. Input that comes later is lost: if every receive is left pending, as overlapped receives on an
  idle connection are, then the receive callback is never called, whatever numbers of bytes the
  completions report and however many rounds there are.
\<close>

theorem io_pending_input_lost:
  assumes "io_ok os" and "\<And>h sk q n. snd (os_WSARecv os h sk q n) = []"
  shows "wp (io_rounds os (io_api_app os script) k s)
    (\<lambda>_ t. \<exists>es. trace t = trace s @ es \<and>
       (\<forall>cb sk bs ud. EvExt (CbReceive_io cb sk bs ud) \<notin> set es)) (\<lambda>_ _. True)"
  by (rule wp_mono [OF wp_wlp [OF rounds_safe [OF assms(1)] rounds_not_handed [OF assms(2)]]])
    (force simp: io_step_def list_all_iff)

text \<open>Every wait finds a completion on socket 6; one byte is there at once, or none.\<close>

definition io_busy_os :: io_os where
  "io_busy_os = io_demo_os\<lparr>os_GetQueuedCompletionStatus := (\<lambda>h port. Some (5, 6, 1))\<rparr>"

definition io_pending_os :: io_os where
  "io_pending_os = io_busy_os\<lparr>os_WSARecv := (\<lambda>h sk q n. (SOCKET_ERROR, []))\<rparr>"

definition io_receiving :: io_state where
  "io_receiving = io_initial\<lparr>client_socket_io := 6, receive_callback_io := 900\<rparr>"

definition io_echo_script :: "io_trace \<Rightarrow> io_x \<Rightarrow> io_call list" where
  "io_echo_script h cb = (case cb of CbReceive_io _ sk bs _ \<Rightarrow> [Io_Send sk bs] | _ \<Rightarrow> [])"

lemma io_busy_ok: "io_ok io_busy_os" "io_ok io_pending_os" "keeps_receiving io_echo_script"
  by (auto simp: io_ok_def io_busy_os_def io_pending_os_def io_demo_os_def keeps_receiving_def
      io_echo_script_def split: io_x.split)

lemma io_busy_rounds:
  "\<exists>t es. io_rounds io_busy_os (io_api_app io_busy_os io_echo_script) 2 io_receiving = Ret () t \<and>
     trace t = trace io_receiving @ es \<and> handed_stream_io 6 es = [42, 42]"
proof -
  have two: "replicate 2 () = [(), ()]" by (simp add: numeral_2_eq_2)
  show ?thesis
    by (simp add: io_rounds_def io_receiving_def two io_round_def
        handle_data_event_io_def
        io_sys_defs io_busy_os_def io_demo_os_def io_initial_def INVALID_SOCKET_def
        BUFFER_SIZE_IO_def call_io_def io_api_app_def io_echo_script_def
        proactor_tcp_iocp_send_def SOCKET_ERROR_def blank_operation_def)
qed

theorem io_input_exact_witness:
  "\<exists>t es. io_rounds io_busy_os (io_api_app io_busy_os io_echo_script) 2 io_receiving = Ret () t \<and>
     trace t = trace io_receiving @ es \<and> handed_stream_io 6 es = [42, 42] \<and>
     found_stream 6 es = [42, 42]"
  using io_input_exact [OF io_busy_ok(1,3), of io_receiving 2] io_busy_rounds
  by (force simp: io_receiving_def)

theorem io_pending_input_lost_witness:
  "wp (io_rounds io_pending_os (io_api_app io_pending_os io_echo_script) 9 io_receiving)
    (\<lambda>_ t. \<exists>es. trace t = trace io_receiving @ es \<and>
       (\<forall>cb sk bs ud. EvExt (CbReceive_io cb sk bs ud) \<notin> set es)) (\<lambda>_ _. True)"
  by (rule io_pending_input_lost [OF io_busy_ok(2)]) (simp add: io_pending_os_def)

end
