(* ===== verification/Shims.thy ===== *)
theory Shims
  imports Prelude
begin

text \<open>
  The atomic operations of \<open>src/util/shims.h\<close>, once with C11 semantics (the POSIX branch) and
  once as the macros of the Windows branch expand, over intrinsics that are a parameter; and the
  start and join of threads. A cell holds a 32-bit value; an operation gives
  its result and the new value of the cell, and a compare-and-exchange the new value of the
  caller's \<open>expected\<close> variable, too. Each operation is one atomic step.
\<close>

section \<open>The POSIX branch\<close>

text \<open>The initialiser of an atomic variable, on both branches the value itself.\<close>

definition c11_atomic_init :: "u32 \<Rightarrow> u32" where
  "c11_atomic_init v = v"

definition win_atomic_init :: "u32 \<Rightarrow> u32" where
  "win_atomic_init v = v"

definition c11_load :: "u32 \<Rightarrow> u32 \<times> u32" where
  "c11_load v = (v, v)"

definition c11_store :: "u32 \<Rightarrow> u32 \<Rightarrow> u32" where
  "c11_store v x = x"

definition c11_fetch_add :: "u32 \<Rightarrow> u32 \<Rightarrow> u32 \<times> u32" where
  "c11_fetch_add v x = (v, v + x)"

definition c11_fetch_sub :: "u32 \<Rightarrow> u32 \<Rightarrow> u32 \<times> u32" where
  "c11_fetch_sub v x = (v, v - x)"

definition c11_compare_exchange :: "u32 \<Rightarrow> u32 \<Rightarrow> u32 \<Rightarrow> bool \<times> u32 \<times> u32" where
  "c11_compare_exchange v expected desired =
     (if v = expected then (True, desired, expected) else (False, v, v))"

section \<open>The Windows branch\<close>

text \<open>
  The intrinsics of the compiler, which give their result and the new value of the cell. Their
  documentation: \<open>_InterlockedAdd\<close> returns the sum, \<open>InterlockedCompareExchange\<close> the old value.
\<close>

record intrinsics =
  InterlockedAdd :: "u32 \<Rightarrow> u32 \<Rightarrow> u32 \<times> u32"
  InterlockedCompareExchange :: "u32 \<Rightarrow> u32 \<Rightarrow> u32 \<Rightarrow> u32 \<times> u32"

definition intrinsics_ok :: "intrinsics \<Rightarrow> bool" where
  "intrinsics_ok I \<longleftrightarrow> (\<forall>v x. InterlockedAdd I v x = (v + x, v + x)) \<and>
     (\<forall>v desired comparand. InterlockedCompareExchange I v desired comparand =
        (v, if v = comparand then desired else v))"

text \<open>
  A macro argument is text: a single operand, or a sum of two, which is as far as the difference
  between \<open>-value\<close> and \<open>-(value)\<close> needs.
\<close>

datatype macro_arg = Operand u32 | Sum u32 u32

primrec arg_value :: "macro_arg \<Rightarrow> u32" where
  "arg_value (Operand a) = a"
| "arg_value (Sum a b) = a + b"

text \<open>The value of the text \<open>-value\<close> after the substitution.\<close>

primrec minus_text :: "macro_arg \<Rightarrow> u32" where
  "minus_text (Operand a) = - a"
| "minus_text (Sum a b) = - a + b"

definition win_load :: "u32 \<Rightarrow> u32 \<times> u32" where
  "win_load v = (v, v)"

definition win_store :: "u32 \<Rightarrow> u32 \<Rightarrow> u32" where
  "win_store v x = x"

definition win_fetch_add :: "intrinsics \<Rightarrow> u32 \<Rightarrow> macro_arg \<Rightarrow> u32 \<times> u32" where
  "win_fetch_add I v x = InterlockedAdd I v (arg_value x)"

definition win_fetch_sub :: "intrinsics \<Rightarrow> u32 \<Rightarrow> macro_arg \<Rightarrow> u32 \<times> u32" where
  "win_fetch_sub I v x = InterlockedAdd I v (minus_text x)"

definition win_compare_exchange :: "intrinsics \<Rightarrow> u32 \<Rightarrow> u32 \<Rightarrow> u32 \<Rightarrow> bool \<times> u32 \<times> u32" where
  "win_compare_exchange I v expected desired =
     (let (old, v') = InterlockedCompareExchange I v desired expected in
      (if old = expected then True else False, v', expected))"

lemmas shims_defs = c11_load_def c11_store_def c11_fetch_add_def c11_fetch_sub_def
  c11_compare_exchange_def intrinsics_ok_def win_load_def
  win_store_def win_fetch_add_def win_fetch_sub_def win_compare_exchange_def

section \<open>What the branches share\<close>

text \<open>
  The branches of the atomic operations agree on what they do to the memory, except
  for a subtraction of a compound expression; they differ in what they return: the Windows
  addition gives the new and not the old value, and the Windows compare-and-exchange does not
  report the value it found.
\<close>

theorem shims_branches_compared:
  assumes "intrinsics_ok I"
  shows "win_load v = c11_load v \<and> win_store v x = c11_store v x \<and>
   snd (win_fetch_add I v e) = snd (c11_fetch_add v (arg_value e)) \<and>
   fst (win_fetch_add I v e) = fst (c11_fetch_add v (arg_value e)) + arg_value e \<and>
   snd (win_fetch_sub I v (Operand a)) = snd (c11_fetch_sub v a) \<and>
   snd (win_fetch_sub I v (Sum a b)) = snd (c11_fetch_sub v (a + b)) + 2 * b \<and>
   fst (win_compare_exchange I v ex d) = fst (c11_compare_exchange v ex d) \<and>
   fst (snd (win_compare_exchange I v ex d)) = fst (snd (c11_compare_exchange v ex d)) \<and>
   (snd (snd (win_compare_exchange I v ex d)) = snd (snd (c11_compare_exchange v ex d)) \<longleftrightarrow> v = ex)"
  using assms by (simp add: shims_defs)

section \<open>Threads\<close>

text \<open>
  Starting and joining a thread. \<open>CreateThread\<close> returns the handle of the new thread, or 0;
  \<open>pthread_create\<close> stores the identifier through its first argument and returns an error number.
  A thread variable is the value it holds. In the Windows macro \<open>!=\<close> binds stronger than the
  assignment, so that the variable gets the truth value of the comparison.
\<close>

definition posix_thread_create :: "int \<times> nat \<Rightarrow> nat \<Rightarrow> bool \<times> nat" where
  "posix_thread_create = (\<lambda>(err, tid) thread. (err = 0, if err = 0 then tid else thread))"

definition win_thread_create :: "nat \<Rightarrow> nat \<Rightarrow> bool \<times> nat" where
  "win_thread_create handle thread = (let v = (if handle \<noteq> 0 then 1 else 0) in (v \<noteq> 0, v))"

text \<open>The thread that a join waits for: the one the variable names.\<close>

definition posix_thread_join :: "nat \<Rightarrow> nat" where
  "posix_thread_join thread = thread"

definition win_thread_join :: "nat \<Rightarrow> nat" where
  "win_thread_join thread = thread"

lemmas thread_defs = posix_thread_create_def win_thread_create_def posix_thread_join_def
  win_thread_join_def

text \<open>
  Starting a thread and joining it: on POSIX the join waits for the thread just started; on
  Windows the start reports success just as well, but the handle is lost, and the join waits for
  the handle 1 whatever thread was started.
\<close>

theorem shims_thread_handle_lost:
  assumes "tid \<noteq> 0"
  shows "(let (ok, thread) = posix_thread_create (0, tid) old in
      ok \<and> posix_thread_join thread = tid) \<and>
    (let (ok, thread) = win_thread_create tid old in
      ok \<and> win_thread_join thread = 1)"
  using assms by (simp add: thread_defs)

theorem shims_thread_handle_lost_witness:
  "(let (ok, thread) = win_thread_create 248 0 in ok \<and> win_thread_join thread \<noteq> 248)"
  using shims_thread_handle_lost [of 248 0] by auto

end
