(* ===== verification/Platform.thy ===== *)
theory Platform
  imports Main
begin

text \<open>
  The platform check \<open>src/util/platform_check.h\<close>. The preprocessor is a function of the macros
  that are defined, with their values; the two system headers that the file includes on the way
  are parameters, which may define more. A macro that is not defined counts as 0 in a comparison.
\<close>

section \<open>Macros\<close>

type_synonym macros = "string \<Rightarrow> int option"

definition defined :: "macros \<Rightarrow> string \<Rightarrow> bool" where
  "defined m x \<longleftrightarrow> m x \<noteq> None"

definition macro_value :: "macros \<Rightarrow> string \<Rightarrow> int" where
  "macro_value m x = (case m x of None \<Rightarrow> 0 | Some v \<Rightarrow> v)"

text \<open>What \<open>PLATFORM_NAME\<close> stands for after the file: nothing, \<open>NULL\<close>, or a string.\<close>

datatype name_macro = Not_Defined | Null_Name | Name string

section \<open>The check\<close>

text \<open>In the condition of the BSD branch, \<open>&&\<close> binds stronger than \<open>||\<close>.\<close>

definition platform_name ::
    "(macros \<Rightarrow> macros) \<Rightarrow> (macros \<Rightarrow> macros) \<Rightarrow> macros \<Rightarrow> name_macro" where
  "platform_name sys_param target_conditionals m =
     (if defined m ''_WIN32'' then Name ''windows''
      else if defined m ''_WIN64'' then Name ''windows''
      else if defined m ''__CYGWIN__'' \<and> \<not> defined m ''_WIN32'' then Name ''windows''
      else if defined m ''__ANDROID__'' then Name ''android''
      else if defined m ''__linux__'' then Name ''linux''
      else if defined m ''__unix__'' \<or> \<not> defined m ''__APPLE__'' \<and> defined m ''__MACH__''
      then (let m = sys_param m in
            if defined m ''BSD'' then Name ''bsd'' else Not_Defined)
      else if defined m ''__hpux'' then Name ''hp-ux''
      else if defined m ''_AIX'' then Name ''aix''
      else if defined m ''__APPLE__'' \<and> defined m ''__MACH__''
      then (let m = target_conditionals m in
            if macro_value m ''TARGET_IPHONE_SIMULATOR'' = 1 then Name ''ios''
            else if macro_value m ''TARGET_OS_IPHONE'' = 1 then Name ''ios''
            else if macro_value m ''TARGET_OS_MAC'' = 1 then Name ''osx''
            else Not_Defined)
      else if defined m ''__sun'' \<and> defined m ''__SVR4'' then Name ''solaris''
      else Null_Name)"

text \<open>The statement that the last lines of the file leave behind, by the text it prints.\<close>

definition architecture_text :: "macros \<Rightarrow> string" where
  "architecture_text m =
     (if defined m ''__x86_64__'' \<or> defined m ''_M_X64''
      then ''Running on a 64-bit architecture''
      else if defined m ''__i386__'' \<or> defined m ''_M_IX86''
      then ''Running on a 32-bit architecture''
      else ''Unknown architecture'')"

section \<open>Lemmas\<close>

text \<open>The macros that are tested before the one for Unix.\<close>

definition before_unix :: "string list" where
  "before_unix = [''_WIN32'', ''_WIN64'', ''__CYGWIN__'', ''__ANDROID__'', ''__linux__'']"

lemma platform_name_after_linux:
  assumes "\<forall>x \<in> set before_unix. \<not> defined m x"
  shows "platform_name sp tc m =
    (if defined m ''__unix__'' \<or> \<not> defined m ''__APPLE__'' \<and> defined m ''__MACH__''
     then if defined (sp m) ''BSD'' then Name ''bsd'' else Not_Defined
     else if defined m ''__hpux'' then Name ''hp-ux''
     else if defined m ''_AIX'' then Name ''aix''
     else if defined m ''__APPLE__'' \<and> defined m ''__MACH__''
     then (let m = tc m in
           if macro_value m ''TARGET_IPHONE_SIMULATOR'' = 1 \<or> macro_value m ''TARGET_OS_IPHONE'' = 1
           then Name ''ios''
           else if macro_value m ''TARGET_OS_MAC'' = 1 then Name ''osx'' else Not_Defined)
     else if defined m ''__sun'' \<and> defined m ''__SVR4'' then Name ''solaris'' else Null_Name)"
  using assms by (simp add: platform_name_def before_unix_def Let_def)

text \<open>
  A Unix other than the BSDs that defines \<open>__unix__\<close>, as HP-UX, AIX and Solaris compilers do, gets
  no platform name at all: the branch for Unix is taken first, and the ones for these systems
  are not reached.
\<close>

theorem platform_unix_unnamed:
  assumes "\<forall>x \<in> set before_unix. \<not> defined m x" and "defined m ''__unix__''"
    and "\<not> defined (sys_param m) ''BSD''"
  shows "platform_name sys_param target_conditionals m = Not_Defined"
  using assms by (simp add: platform_name_after_linux)

definition aix_macros :: macros where
  "aix_macros = [''__unix__'' \<mapsto> 1, ''_AIX'' \<mapsto> 1]"

theorem platform_unix_unnamed_witness:
  "platform_name (\<lambda>m. m) (\<lambda>m. m) aix_macros = Not_Defined"
  by (rule platform_unix_unnamed) (simp_all add: before_unix_def defined_def aix_macros_def)

end
