(* ===== verification/Spec2Isabelle.thy ===== *)
theory Spec2Isabelle
  imports Prelude Status Time_Utils Buf Debug Machine Interfaces Send_Request Message_Slot
    Epoll Epoll_Props Epoll_Streams Epoll_Writes Epoll_Theorems Epoll_Outbox Epoll_Liveness
    Epoll_Invariants Epoll_Lifecycle Epoll_Network
    Kevent Kevent_Props Kevent_Types Kevent_Theorems Kevent_Lifecycle
    Kevent_Statics Kevent_Statics_Theorems
    Iocp Iocp_Theorems Iocp_Streams Shims Platform
begin

text \<open>
  A verification development for tag_sim, the event-driven network layer of a PLC simulator in C.
  All code of the repository is under \<open>src/util\<close>: status codes, time functions,
  little-endian packing, a logger with a hex dump, atomics, mutexes and threads, and three
  implementations of a proactor (an event loop that reads, writes and accepts on behalf of
  callbacks), one on epoll, one on kqueue and one on Windows completion ports. The repository has
  no main program; the users of the proactor are its application callbacks.

  How the parts fit together. An application registers callbacks, opens connections or a listening
  socket, and enters the run loop of its back end. The loop waits for events of the kernel,
  handles each one with the event handlers, and these call the application, which may call back
  into the API (send, stop, wake, register), until the stop flag is set. The kqueue back end also
  logs through the module \<open>debug.c\<close> and uses the codes of \<open>status.h\<close>.

  The theories, and what they model:

  \<^item> \<open>Prelude\<close>: machine integers, the outcome of running C code
    (\<open>Ret\<close>, \<open>Exit\<close> for \<open>exit\<close>, \<open>Fault\<close> for an
    access error, \<open>Out_Of_Fuel\<close> for a loop whose bound is used up), sequencing
    \<open>and_then\<close>, the weakest precondition \<open>wp\<close>, its form
    \<open>wlp\<close> that also accepts faults, and \<open>fails_or\<close>, by which a run
    either ends in an access error or goes on as said.
  \<^item> \<open>Machine\<close>: a heap of allocated objects, and the trace of all calls that
    leave the program. The operating system is a parameter, a record of functions from the whole
    trace so far and the arguments of a call to its result. \<open>posix_ok\<close> states the
    laws of POSIX that the code relies on: no call transfers more than it was asked for.
    \<open>ends_in_failure\<close> says that the last call of a trace failed and was reported
    under its name.
  \<^item> \<open>Interfaces\<close>: the contracts as locales: \<open>stop_loop\<close> (a run
    loop with a stop flag), \<open>callback_slots\<close> (setters), \<open>send_slot\<close> with
    \<open>eager_send_slot\<close> and \<open>steady_send_slot\<close> (one outgoing message at a
    time). Their abstract view of a back end is the pending message and the delivered stream, and
    their specification the \<open>outbox\<close>, a small state machine; that every
    \<open>send_slot\<close> refines it is proved there once.
  \<^item> \<open>Status\<close>: \<open>status.h\<close>, \<open>status.c\<close>.
    \<open>Time_Utils\<close>: \<open>time_utils.h\<close>, \<open>time_utils.c\<close>, both
    platform variants. \<open>Buf\<close>: the six packing functions and the records of
    \<open>buf.h\<close>; locale \<open>le_codec\<close>, interpreted for 16, 32 and 64 bits.
    \<open>Debug\<close>: \<open>debug.h\<close>, \<open>debug.c\<close>. \<open>Shims\<close>:
    the atomic operations of \<open>shims.h\<close> and the start and join of threads on both
    branches; the intrinsics of the Windows compiler are a parameter, with what their
    documentation says as the hypothesis \<open>intrinsics_ok\<close>. \<open>Platform\<close>:
    \<open>platform_check.h\<close>, the preprocessor as a function of the defined macros.
  \<^item> \<open>Send_Request\<close>: the object \<open>SendRequest\<close> of the epoll back
    end, typed accesses to it, and the shape of the heap. \<open>Message_Slot\<close>: the write
    handler that two back ends share word for word, with the locale \<open>message_slot\<close>.
    \<open>Epoll\<close>: every function of \<open>proactor_net_epoll.c\<close>; the record
    \<open>ep_state\<close> has a field for each static variable; a send that is answered 0 leaves
    a record \<open>AppSent\<close> on the trace, which no code reads. \<open>Epoll_Props\<close>:
    the invariant \<open>ep_inv\<close>, the contract \<open>ep_application\<close> between back
    end and application with its interpretation on all applications that act through the API, the
    interpretations of the shared contracts, the reachable states. \<open>Epoll_Streams\<close>:
    what the kernel watches, what was read and handed over; \<open>ep_rounds\<close>, the run loop
    cut off after a number of rounds, its test of the flag included
    (\<open>run_after_rounds\<close> links it to \<open>proactor_tcp_epoll_run\<close>).
    \<open>Epoll_Writes\<close>: locale \<open>ep_write_invariant\<close>, what has to be checked
    of an invariant for the write handler to keep it, interpreted for the messages sent and for
    what the kernel watches; every \<open>ep_invariant\<close> is one.
    \<open>Epoll_Theorems\<close>: the properties. \<open>Epoll_Outbox\<close>: the refinement of
    the outbox, and whole messages over rounds of the run loop. \<open>Epoll_Liveness\<close>: the
    run loop delivers what is pending. \<open>Epoll_Invariants\<close>: locale
    \<open>ep_invariant\<close>, what has to be checked of an invariant on the trace, and that the
    run loop then preserves it. \<open>Epoll_Lifecycle\<close> interprets it for the account of
    descriptors and memory from the initialisation to the cleanup, \<open>Epoll_Network\<close>
    for the descriptors written to; it composes two programs on the ends of a connection, whose
    steps interleave, and shows what arrives.
  \<^item> \<open>Kevent\<close>: \<open>proactor_net_kevent.c\<close> up to line 426: the records
    \<open>proactor_t\<close>, \<open>proactor_socket_t\<close> and \<open>proactor_buf_t\<close>
    in the heap, creation, disposal, status, stop, wake, accept, read, run loop. The code passes
    the number 16 to \<open>accept\<close> as the address of the length, and so does the model:
    the kernel decides whether it rejects this (law \<open>accept_efault\<close>, the documented
    behaviour) or uses the address, which is an access error. \<open>Kevent_Props\<close>:
    contract \<open>kq_application\<close>, list of sockets, idle rounds, stopping, the
    uninitialised pointer. \<open>Kevent_Types\<close>: well-typed heaps, which the run loop
    preserves. \<open>Kevent_Theorems\<close>: the properties. \<open>Kevent_Lifecycle\<close>:
    descriptors and memory from the creation over the run loop to the disposal.
    \<open>Kevent_Statics\<close>, \<open>Kevent_Statics_Theorems\<close>: the end of the file
    from line 719 on, which works on static variables that the file does not declare; the
    variables are the fields of a record, \<open>BUFFER_SIZE\<close> and
    \<open>handle_error\<close> parameters; the refinement of the outbox and the exactness of the
    input are shown for them, too.
  \<^item> \<open>Iocp\<close>: every function of \<open>proactor_net_iocp.c\<close>.
    \<open>Iocp_Theorems\<close>: its properties. \<open>Iocp_Streams\<close>: the input that is
    handed over, and the input that is lost.

  What the lemmas show. Memory safety, absence of leaks, exact delivery of output and input,
  draining, delivery by the run loop itself, and termination for the epoll back end on every
  law-abiding kernel; delivery of whole messages from one program to another; which descriptors
  its cleanup closes and which leak; refinement of the outbox by the epoll and the kqueue back
  end, and their equivalence (\<open>back_ends_agree\<close> at the end of this theory); outcomes
  of all set-up functions; type safety of the kqueue run loop on well-typed heaps; creation,
  disposal, accept and read of the kqueue back end on every branch and termination of its loop;
  over the whole life of a proactor every descriptor is closed exactly once; the input that the
  Windows back end hands over; the packing functions are inverse to each other and equal to
  base-256 digits; the hex dump equals a reference text; conversions of times do not wrap; and a
  number of behaviours that are hardly intended, each as a theorem, such as the exit of the
  process when a peer disconnects, the input that a Windows completion reports and nobody reads,
  or the run loop of the kqueue back end that starts from an uninitialised pointer.

  Bounds. Loops that may run for ever take a number of iterations: the run loops (\<open>k\<close>
  tests of the stop flag) and the walks over the list of sockets (\<open>n\<close> tests of the
  pointer). \<open>Out_Of_Fuel\<close> comes from nothing else. \<open>ep_run_ends\<close> and
  \<open>kq_run_returns\<close> give numbers that are enough; for the walk of the disposal every
  bound above the length of the list is, by \<open>kq_dispose_correct\<close>;
  \<open>ep_run_delivers\<close> shows that the loop goes through the rounds it speaks of.
  \<open>kq_run_ignores_errors\<close> is a loop for which no number is enough.

  Simplifications. Freed addresses are not reused. Contents of variables without a value are
  parameters or marked absent. \<open>read\<close>, \<open>recv\<close> and the like return a list
  of bytes, at most as many as there is room for. Text of log messages is given after
  \<open>vfprintf\<close> has formatted it. Callbacks run to completion before control returns, on
  the state of the module; in the statements about API-using applications they perform any list of
  API calls that depends on all that has happened so far.

  Not modelled. The functions on sockets that \<open>proactor_net.h\<close> declares but nothing
  defines; code that is commented out (most of \<open>proactor_net_kevent.c\<close> between lines
  429 and 717, the header functions of \<open>buf.h\<close>); the mutex macros and
  \<open>THREAD_EXIT\<close> of \<open>shims.h\<close>, which only rename calls of pthreads and of
  Windows; the build files.
\<close>

section \<open>The two POSIX back ends\<close>

text \<open>
  Claim C3. The message slots of the epoll and of the kqueue back end are interchangeable. Take a state of
  each, reached by any applications, with the same pending message and the same bytes delivered so
  far, and kernels that accept the same part of the same message from then on: then neither
  commits an access error under a list of sends and write events, and if both complete it, they
  have given the same answers, delivered the same bytes, and hold the same pending message.
\<close>

theorem back_ends_agree:
  assumes "epoll_ok os" and "ep_reachable os script s" and "w = snd (wakeup_fds s)"
    and "posix_ok os'" and "err_exits err" and "ks_reachable os' err script' s'"
    and "steady_writes peer os" and "steady_writes peer os'"
    and "list_all (slot_op_ok w) ops" and "list_all (slot_op_ok (- 1)) ops"
    and "ep_outbox w s = ks_outbox s'"
  shows "wp (slot_codes (ep_send os sock) (handle_write_event os (api_app os script)) ops s)
    (\<lambda>rs t. wp (slot_codes (ks_send os' err sock')
        (handle_write_event_ks os' (ks_api_app os' err script')) ops s')
      (\<lambda>rs' t'. rs' = rs \<and> ks_outbox t' = ep_outbox w t) (\<lambda>_ _. True)) (\<lambda>_ _. True)"
proof -
  let ?epoll = "slot_codes (ep_send os sock) (handle_write_event os (api_app os script)) ops s"
  let ?kqueue = "slot_codes (ks_send os' err sock')
    (handle_write_event_ks os' (ks_api_app os' err script')) ops s'"
  have "ep_inv os w s"
    using ep_reachable_inv [OF assms(2,1)] by (simp add: assms(3))
  then have "wp ?epoll (\<lambda>rs t. outbox_exec peer ops (ep_outbox w s) = (rs, ep_outbox w t)) (\<lambda>_ _. True)"
    by (intro wp_mono [OF ep_steady.run_determined [OF assms(7) _ assms(9)]])
      (auto simp: ep_slot.box_def ep_outbox_def)
  moreover have "wp ?kqueue (\<lambda>rs t. outbox_exec peer ops (ks_outbox s') = (rs, ks_outbox t)) (\<lambda>_ _. True)"
    by (rule wp_mono [OF ks_steady.run_determined [OF assms(8) ks_reachable_inv [OF assms(6,4,5)] assms(10)]])
      (auto simp: ks_slot.box_def ks_outbox_def)
  ultimately show ?thesis
    unfolding assms(11) by (elim wp_mono) auto
qed

theorem back_ends_agree_witness:
  "ks_outbox ks_demo_after = ep_outbox 5 demo_refined"
proof -
  have "list_all (slot_op_ok 5) demo_ops" "list_all (slot_op_ok (- 1)) demo_ops"
    by (simp_all add: demo_ops_def)
  moreover have "ks_demo_ops = demo_ops" by (simp add: ks_demo_ops_def demo_ops_def)
  moreover have "ep_outbox 5 demo_connected = ks_outbox (ks_initial 3)"
    by (simp add: ep_outbox_def ks_outbox_def demo_connected_stream ks_initial_def ks_pending_def
        ks_delivered_def)
  moreover have "steady_writes (\<lambda>fd bs. min 2 (int (length bs))) demo_os"
    "steady_writes (\<lambda>fd bs. min 2 (int (length bs))) ks_demo_os"
    by (simp_all add: steady_writes_def demo_os_def ks_demo_os_def)
  ultimately show ?thesis
    using back_ends_agree [OF demo_ok(1) demo_reachable(2) _ ks_demo_ok ks_start,
        of 5 _ demo_ops 3 6 6 "\<lambda>h cb. []"] demo_ops_codes
      ks_demo_codes
    by (simp add: demo_connected_stream \<open>ks_demo_ops = demo_ops\<close>)
qed

end
